(* ===== verification/Prelude.thy ===== *)
theory Prelude
  imports Main "HOL-Library.Word" "HOL-Library.AList" "HOL-Library.Sublist"
begin

text \<open>
  Shared vocabulary of the development: the Go types and library routines the wmux sources
  use everywhere (byte slices and strings, maps, fixed-width integers, decimal parsing, the
  search functions of the packages \<^verbatim>\<open>bytes\<close> and \<^verbatim>\<open>strings\<close>) and the generic lemmas about them.

  Conventions.
  \<^item> A Go \<^verbatim>\<open>string\<close> and a \<^verbatim>\<open>[]byte\<close> are both \<open>bytes\<close>, a list of \<open>char\<close>: an Isabelle character is
    exactly one byte (256 values), and the conversions \<^verbatim>\<open>string(b)\<close> and \<^verbatim>\<open>[]byte(s)\<close> keep the bytes.
  \<^item> A Go map is an association list with distinct keys (\<open>HOL-Library.AList\<close>). Its order stands
    for the unspecified iteration order of Go: every theorem about an iteration holds for each
    list that represents the map.
  \<^item> An error return is the \<open>Inl\<close> side of a sum, a success the \<open>Inr\<close> side.
  \<^item> A point in time is an integer number of nanoseconds; \<^verbatim>\<open>time.Time{}\<close> is \<open>0\<close>.
\<close>

section \<open>Types\<close>

type_synonym byte = char
type_synonym bytes = "char list"
type_synonym time = int
type_synonym duration = int
type_synonym ('k, 'v) gomap = "('k \<times> 'v) list"

named_theorems go_simps \<open>rewrite rules for the modelled Go library routines\<close>
named_theorems frame_simps \<open>fields an operation leaves alone\<close>
named_theorems inv_intros \<open>invariant preservation, one rule per operation\<close>

section \<open>Maps\<close>

definition gm_get :: "('k, 'v) gomap \<Rightarrow> 'k \<Rightarrow> 'v option" where
  "gm_get m k = map_of m k"

definition gm_put :: "'k \<Rightarrow> 'v \<Rightarrow> ('k, 'v) gomap \<Rightarrow> ('k, 'v) gomap" where
  "gm_put k v m = AList.update k v m"

definition gm_del :: "'k \<Rightarrow> ('k, 'v) gomap \<Rightarrow> ('k, 'v) gomap" where
  "gm_del k m = AList.delete k m"

definition gm_ok :: "('k, 'v) gomap \<Rightarrow> bool" where
  "gm_ok m \<longleftrightarrow> distinct (map fst m)"

text \<open>
  The contract of a keyed store, which every registry of wmux (sessions, clients, trackers,
  writers, attachments) relies on.
\<close>

locale keyed_store =
  fixes get :: "'m \<Rightarrow> 'k \<Rightarrow> 'v option"
    and put :: "'k \<Rightarrow> 'v \<Rightarrow> 'm \<Rightarrow> 'm"
    and del :: "'k \<Rightarrow> 'm \<Rightarrow> 'm"
    and size_of :: "'m \<Rightarrow> nat"
    and ok :: "'m \<Rightarrow> bool"
  assumes get_put: "get (put k v m) k' = (if k' = k then Some v else get m k')"
    and get_del: "get (del k m) k' = (if k' = k then None else get m k')"
    and ok_put: "ok m \<Longrightarrow> ok (put k v m)"
    and ok_del: "ok m \<Longrightarrow> ok (del k m)"
    and size_put: "ok m \<Longrightarrow> size_of (put k v m) = (if get m k = None then Suc (size_of m) else size_of m)"
    and size_del: "ok m \<Longrightarrow> size_of (del k m) = (if get m k = None then size_of m else size_of m - 1)"
begin

lemma get_del_put: "get (del k (put k v m)) k' = (if k' = k then None else get m k')"
  by (simp add: get_del get_put)

lemma get_fold_del: "get (fold del ks m) k = (if k \<in> set ks then None else get m k)"
  by (induction ks arbitrary: m) (auto simp: get_del)

lemma ok_fold_del: "ok m \<Longrightarrow> ok (fold del ks m)"
  by (induction ks arbitrary: m) (auto intro: ok_del)

lemma size_put_le: "ok m \<Longrightarrow> size_of (put k v m) \<le> Suc (size_of m)"
  by (simp add: size_put)

lemma size_del_le: "ok m \<Longrightarrow> size_of (del k m) \<le> size_of m"
  by (simp add: size_del)

end

lemma gm_length_update:
  "distinct (map fst m) \<Longrightarrow>
   length (AList.update k v m) = (if map_of m k = None then Suc (length m) else length m)"
  by (induction m) (auto simp: map_of_eq_None_iff image_iff dest: map_of_SomeD)

lemma gm_length_delete:
  "distinct (map fst m) \<Longrightarrow>
   length (AList.delete k m) = (if map_of m k = None then length m else length m - 1)"
proof (induction m)
  case (Cons p m)
  obtain a b where p: "p = (a, b)" by (cases p)
  show ?case
  proof (cases "a = k")
    case True
    with Cons.prems have "map_of m k = None"
      by (auto simp: p map_of_eq_None_iff)
    with True Cons show ?thesis by (simp add: p)
  next
    case False
    with Cons show ?thesis
      by (cases m) (auto simp: p map_of_eq_None_iff)
  qed
qed simp

interpretation gm: keyed_store gm_get gm_put gm_del length gm_ok
proof unfold_locales
  show "gm_get (gm_put k v m) k' = (if k' = k then Some v else gm_get m k')"
    for k :: 'k and v :: 'v and m k'
    by (simp add: gm_get_def gm_put_def update_conv')
  show "gm_get (gm_del k m) k' = (if k' = k then None else gm_get m k')"
    for k :: 'k and m :: "('k, 'v) gomap" and k'
    by (simp add: gm_get_def gm_del_def delete_conv')
  show "gm_ok m \<Longrightarrow> gm_ok (gm_put k v m)" for k :: 'k and v :: 'v and m
    by (simp add: gm_ok_def gm_put_def distinct_update)
  show "gm_ok m \<Longrightarrow> gm_ok (gm_del k m)" for k :: 'k and m :: "('k, 'v) gomap"
    by (simp add: gm_ok_def gm_del_def distinct_delete)
  show "gm_ok m \<Longrightarrow> length (gm_put k v m) = (if gm_get m k = None then Suc (length m) else length m)"
    for k :: 'k and v :: 'v and m
    by (simp add: gm_ok_def gm_put_def gm_get_def gm_length_update)
  show "gm_ok m \<Longrightarrow> length (gm_del k m) = (if gm_get m k = None then length m else length m - 1)"
    for k :: 'k and m :: "('k, 'v) gomap"
    by (simp add: gm_ok_def gm_del_def gm_get_def gm_length_delete)
qed

lemmas gm_simps [go_simps] = gm.get_put gm.get_del

declare gm.get_put [simp] gm.get_del [simp] gm.ok_put [simp] gm.ok_del [simp]

lemma gm_ok_Nil [simp]: "gm_ok []"
  by (simp add: gm_ok_def)

lemma gm_get_Nil [simp]: "gm_get [] k = None"
  by (simp add: gm_get_def)

lemma gm_get_iff_mem: "gm_ok m \<Longrightarrow> gm_get m k = Some v \<longleftrightarrow> (k, v) \<in> set m"
  by (simp add: gm_ok_def gm_get_def)

lemma gm_get_in_keys: "gm_get m k = Some v \<Longrightarrow> k \<in> set (map fst m)"
  by (auto simp: gm_get_def dest: map_of_SomeD intro: rev_image_eqI)

lemma gm_keys_iff: "k \<in> set (map fst m) \<longleftrightarrow> gm_get m k \<noteq> None"
  by (simp add: gm_get_def map_of_eq_None_iff)

lemma gm_put_Nil [simp]: "gm_put k v [] = [(k, v)]"
  by (simp add: gm_put_def)

lemma gm_put_Cons [simp]:
  "gm_put k v (p # m) = (if fst p = k then (k, v) # m else p # gm_put k v m)"
  by (cases p) (simp add: gm_put_def)

lemma gm_del_Nil [simp]: "gm_del k [] = []"
  by (simp add: gm_del_def)

lemma gm_del_Cons [simp]:
  "gm_del k (p # m) = (if fst p = k then gm_del k m else p # gm_del k m)"
  by (cases p) (simp add: gm_del_def)

lemma gm_get_Cons: "gm_get (p # m) k = (if fst p = k then Some (snd p) else gm_get m k)"
  by (simp add: gm_get_def)

section \<open>Searching byte strings\<close>

text \<open>\<^verbatim>\<open>bytes.Index\<close> and \<^verbatim>\<open>bytes.IndexByte\<close>, with \<open>None\<close> for the result \<open>-1\<close>.\<close>

fun index_of :: "'a list \<Rightarrow> 'a list \<Rightarrow> nat option" where
  "index_of s [] = (if s = [] then Some 0 else None)"
| "index_of s (x # xs) = (if prefix s (x # xs) then Some 0 else map_option Suc (index_of s xs))"

fun index_byte :: "'a \<Rightarrow> 'a list \<Rightarrow> nat option" where
  "index_byte b [] = None"
| "index_byte b (x # xs) = (if x = b then Some 0 else map_option Suc (index_byte b xs))"

definition contains_sub :: "'a list \<Rightarrow> 'a list \<Rightarrow> bool" where
  "contains_sub d s \<longleftrightarrow> index_of s d \<noteq> None"

definition go_index :: "nat option \<Rightarrow> int" where
  "go_index r = (case r of None \<Rightarrow> -1 | Some i \<Rightarrow> int i)"

lemma go_index_ge_0 [simp]: "0 \<le> go_index r \<longleftrightarrow> r \<noteq> None"
  by (auto simp: go_index_def split: option.splits)

lemma go_index_Some [simp]: "go_index (Some i) = int i"
  by (simp add: go_index_def)

lemma index_of_Some: "index_of s d = Some i \<Longrightarrow> prefix s (drop i d) \<and> i + length s \<le> length d"
  by (induction s d arbitrary: i rule: index_of.induct)
     (auto split: if_splits dest: prefix_length_le)

lemma index_of_before: "index_of s d = Some i \<Longrightarrow> j < i \<Longrightarrow> \<not> prefix s (drop j d)"
proof (induction s d arbitrary: i j rule: index_of.induct)
  case (2 s x xs)
  then show ?case by (cases j) (auto split: if_splits)
qed (auto split: if_splits)

lemma index_of_None: "index_of s d = None \<longleftrightarrow> (\<forall>j \<le> length d. \<not> prefix s (drop j d))"
proof (induction s d rule: index_of.induct)
  case (2 s x xs)
  show ?case
  proof (cases "prefix s (x # xs)")
    case True
    then have "\<not> (\<forall>j \<le> length (x # xs). \<not> prefix s (drop j (x # xs)))"
      by (metis drop0 le0)
    with True show ?thesis by simp
  next
    case False
    have "(\<forall>j \<le> Suc (length xs). \<not> prefix s (drop j (x # xs)))
        \<longleftrightarrow> \<not> prefix s (x # xs) \<and> (\<forall>j \<le> length xs. \<not> prefix s (drop j xs))"
      by (metis Suc_le_mono drop0 drop_Suc_Cons le0 not0_implies_Suc)
    with False 2 show ?thesis by simp
  qed
qed auto

lemma contains_sub_iff: "contains_sub d s \<longleftrightarrow> sublist s d"
proof
  assume "contains_sub d s"
  then obtain i where "index_of s d = Some i" by (auto simp: contains_sub_def)
  then have "prefix s (drop i d)" by (simp add: index_of_Some)
  then obtain ys where "drop i d = s @ ys" by (auto simp: prefix_def)
  then have "d = take i d @ s @ ys" by (metis append_take_drop_id)
  then show "sublist s d" by (auto simp: sublist_def)
next
  assume "sublist s d"
  then obtain xs ys where d: "d = xs @ s @ ys" by (auto simp: sublist_def)
  then have "prefix s (drop (length xs) d)" by simp
  then show "contains_sub d s"
    unfolding contains_sub_def index_of_None using d by (metis le_add1 length_append)
qed

lemma index_byte_Some:
  "index_byte b d = Some i \<Longrightarrow> i < length d \<and> d ! i = b \<and> b \<notin> set (take i d)"
  by (induction d arbitrary: i) (auto split: if_splits)

lemma index_byte_None [simp]: "index_byte b d = None \<longleftrightarrow> b \<notin> set d"
  by (induction d) auto

lemma index_byte_append:
  "b \<notin> set xs \<Longrightarrow> index_byte b (xs @ b # ys) = Some (length xs)"
  by (induction xs) auto

text \<open>\<^verbatim>\<open>bytes.Count(d, []byte{b})\<close>.\<close>

definition count_byte :: "byte \<Rightarrow> bytes \<Rightarrow> nat" where
  "count_byte b d = length (filter (\<lambda>x. x = b) d)"

lemma count_byte_append [simp]: "count_byte b (xs @ ys) = count_byte b xs + count_byte b ys"
  by (simp add: count_byte_def)

lemma count_byte_Nil [simp]: "count_byte b [] = 0"
  by (simp add: count_byte_def)

lemma count_byte_split:
  "i \<le> j \<Longrightarrow> count_byte b (take (j - i) (drop i d)) + count_byte b (drop j d) = count_byte b (drop i d)"
  by (metis append_take_drop_id count_byte_append drop_drop le_add_diff_inverse2)

text \<open>\<^verbatim>\<open>strings.LastIndex\<close> for a one-byte separator.\<close>

definition last_index_byte :: "'a \<Rightarrow> 'a list \<Rightarrow> nat option" where
  "last_index_byte b d =
     (case index_byte b (rev d) of None \<Rightarrow> None | Some i \<Rightarrow> Some (length d - 1 - i))"

lemma last_index_byte_append:
  "b \<notin> set ys \<Longrightarrow> last_index_byte b (xs @ b # ys) = Some (length xs)"
  by (simp add: last_index_byte_def index_byte_append)

lemma last_index_byte_None [simp]: "last_index_byte b d = None \<longleftrightarrow> b \<notin> set d"
  by (auto simp: last_index_byte_def split: option.splits) (metis index_byte_None set_rev option.distinct(1))+

section \<open>Machine integers\<close>

text \<open>A signed 64-bit result: arithmetic on \<^verbatim>\<open>int\<close> and \<^verbatim>\<open>int64\<close> wraps around.\<close>

definition wrap64 :: "int \<Rightarrow> int" where
  "wrap64 x = (x + 2 ^ 63) mod 2 ^ 64 - 2 ^ 63"

definition in_int64 :: "int \<Rightarrow> bool" where
  "in_int64 x \<longleftrightarrow> - (2 ^ 63) \<le> x \<and> x < 2 ^ 63"

lemma wrap64_id: "in_int64 x \<Longrightarrow> wrap64 x = x"
  by (simp add: wrap64_def in_int64_def)

lemma wrap64_range: "in_int64 (wrap64 x)"
  by (simp add: wrap64_def in_int64_def pos_mod_bound)

text \<open>Go's integer division truncates towards zero.\<close>

definition quot :: "int \<Rightarrow> int \<Rightarrow> int" where
  "quot a b = sgn a * sgn b * (\<bar>a\<bar> div \<bar>b\<bar>)"

section \<open>Decimal numbers: \<^verbatim>\<open>strconv.ParseInt\<close>, \<^verbatim>\<open>strconv.Atoi\<close>\<close>

datatype num_error = ErrSyntax | ErrRange

definition digit_val :: "byte \<Rightarrow> nat option" where
  "digit_val c = (let n = of_char c :: nat in if 48 \<le> n \<and> n \<le> 57 then Some (n - 48) else None)"

fun parse_digits :: "nat \<Rightarrow> bytes \<Rightarrow> nat option" where
  "parse_digits acc [] = Some acc"
| "parse_digits acc (c # cs) =
     (case digit_val c of None \<Rightarrow> None | Some d \<Rightarrow> parse_digits (10 * acc + d) cs)"

text \<open>
  The loop of \<^verbatim>\<open>strconv.ParseUint\<close>: the first bad digit or the first overflow of 64 bits, whichever
  comes first, ends it.
\<close>

fun parse_u64 :: "nat \<Rightarrow> bytes \<Rightarrow> num_error + nat" where
  "parse_u64 acc [] = Inr acc"
| "parse_u64 acc (c # cs) =
     (case digit_val c of
        None \<Rightarrow> Inl ErrSyntax
      | Some d \<Rightarrow> if 10 * acc + d \<ge> 2 ^ 64 then Inl ErrRange else parse_u64 (10 * acc + d) cs)"

text \<open>
  \<^verbatim>\<open>strconv.ParseInt(s, 10, 64)\<close> returns a value beside the error: zero on a syntax error, the
  nearest bound of \<^verbatim>\<open>int64\<close> on a range error.
\<close>

definition ParseInt :: "bytes \<Rightarrow> int \<times> num_error option" where
  "ParseInt s =
     (let neg = (s \<noteq> [] \<and> hd s = CHR ''-'');
          ds = (if s \<noteq> [] \<and> (hd s = CHR ''-'' \<or> hd s = CHR ''+'') then tl s else s)
      in if ds = [] then (0, Some ErrSyntax)
         else case parse_u64 0 ds of
                Inl ErrSyntax \<Rightarrow> (0, Some ErrSyntax)
              | Inl ErrRange \<Rightarrow> (if neg then - (2 ^ 63) else 2 ^ 63 - 1, Some ErrRange)
              | Inr n \<Rightarrow>
                  if neg then (if n \<le> 2 ^ 63 then (- int n, None) else (- (2 ^ 63), Some ErrRange))
                  else (if n < 2 ^ 63 then (int n, None) else (2 ^ 63 - 1, Some ErrRange)))"

definition Atoi :: "bytes \<Rightarrow> int \<times> num_error option" where
  "Atoi s = ParseInt s"

lemma ParseInt_range: "in_int64 (fst (ParseInt s))"
  by (auto simp: ParseInt_def in_int64_def Let_def split: sum.splits num_error.splits)

fun nat_digits :: "nat \<Rightarrow> bytes" where
  "nat_digits n =
     (if n < 10 then [char_of (48 + n)] else nat_digits (n div 10) @ [char_of (48 + n mod 10)])"

declare nat_digits.simps [simp del]

definition Itoa :: "int \<Rightarrow> bytes" where
  "Itoa i = (if i < 0 then CHR ''-'' # nat_digits (nat (- i)) else nat_digits (nat i))"

lemma of_char_char_of_small: "n < 256 \<Longrightarrow> of_char (char_of n :: char) = (n :: nat)"
  by simp

lemma digit_val_char_of [simp]: "d < 10 \<Longrightarrow> digit_val (char_of (48 + d)) = Some d"
  by (simp add: digit_val_def Let_def)

lemma parse_digits_append:
  "parse_digits acc (xs @ ys) =
     (case parse_digits acc xs of None \<Rightarrow> None | Some a \<Rightarrow> parse_digits a ys)"
  by (induction xs arbitrary: acc) (auto split: option.splits)

lemma parse_digits_nat_digits [simp]: "parse_digits 0 (nat_digits n) = Some n"
proof (induction n rule: nat_digits.induct)
  case (1 n)
  then show ?case
    by (subst nat_digits.simps) (auto simp: parse_digits_append)
qed

lemma parse_digits_mono: "parse_digits acc s = Some n \<Longrightarrow> acc \<le> n"
  by (induction s arbitrary: acc) (force split: option.splits)+

lemma parse_u64_digits: "parse_digits acc s = Some n \<Longrightarrow> n < 2 ^ 64 \<Longrightarrow> parse_u64 acc s = Inr n"
proof (induction s arbitrary: acc)
  case (Cons c cs)
  then obtain d where d: "digit_val c = Some d" "parse_digits (10 * acc + d) cs = Some n"
    by (auto split: option.splits)
  from parse_digits_mono [OF d(2)] Cons.prems(2) Cons.IH [OF d(2)] d(1) show ?case by simp
qed simp

lemma parse_u64_nat_digits: "n < 2 ^ 64 \<Longrightarrow> parse_u64 0 (nat_digits n) = Inr n"
  by (rule parse_u64_digits) simp_all

lemma nat_digits_nonempty [simp]: "nat_digits n \<noteq> []"
  by (subst nat_digits.simps) simp

lemma nat_digits_digit: "c \<in> set (nat_digits n) \<Longrightarrow> digit_val c \<noteq> None"
proof (induction n rule: nat_digits.induct)
  case (1 n)
  then show ?case
    by (subst (asm) nat_digits.simps) (auto split: if_splits)
qed

lemma nat_digits_hd: "hd (nat_digits n) \<noteq> CHR ''-'' \<and> hd (nat_digits n) \<noteq> CHR ''+''"
proof -
  have "digit_val (hd (nat_digits n)) \<noteq> None"
    by (rule nat_digits_digit [of _ n]) simp
  then show ?thesis by (auto simp: digit_val_def Let_def)
qed

lemma Atoi_Itoa [go_simps]: "in_int64 i \<Longrightarrow> Atoi (Itoa i) = (i, None)"
  using nat_digits_hd [of "nat i"]
  by (auto simp: Atoi_def ParseInt_def Itoa_def Let_def in_int64_def parse_u64_nat_digits)

section \<open>Splitting\<close>

text \<open>\<^verbatim>\<open>strings.Split\<close> and \<^verbatim>\<open>strings.SplitN\<close> for a one-byte separator.\<close>

fun split_byte :: "byte \<Rightarrow> bytes \<Rightarrow> bytes list" where
  "split_byte b [] = [[]]"
| "split_byte b (x # xs) =
     (if x = b then [] # split_byte b xs
      else case split_byte b xs of [] \<Rightarrow> [[x]] | p # ps \<Rightarrow> (x # p) # ps)"

fun splitn_byte :: "nat \<Rightarrow> byte \<Rightarrow> bytes \<Rightarrow> bytes list" where
  "splitn_byte 0 b s = []"
| "splitn_byte (Suc 0) b s = [s]"
| "splitn_byte (Suc (Suc n)) b s =
     (case index_byte b s of
        None \<Rightarrow> [s]
      | Some i \<Rightarrow> take i s # splitn_byte (Suc n) b (drop (Suc i) s))"

lemma split_byte_nonempty [simp]: "split_byte b s \<noteq> []"
  by (cases s) (auto split: list.splits)

lemma splitn_byte_length: "0 < n \<Longrightarrow> 1 \<le> length (splitn_byte n b s) \<and> length (splitn_byte n b s) \<le> n"
  by (induction n b s rule: splitn_byte.induct) (auto split: option.splits)

lemma set_map_filter: "set (List.map_filter f xs) = {y. \<exists>x \<in> set xs. f x = Some y}"
  by (induction xs) (auto simp: List.map_filter_simps split: option.splits)

section \<open>Results\<close>

definition is_ok :: "'e + 'a \<Rightarrow> bool" where
  "is_ok r \<longleftrightarrow> (\<exists>a. r = Inr a)"

lemma is_ok_simps [simp]: "is_ok (Inr a)" "\<not> is_ok (Inl e)"
  by (auto simp: is_ok_def)

section \<open>Slices\<close>

text \<open>\<^verbatim>\<open>copy(dst, src)\<close> overwrites the first \<^verbatim>\<open>min(len(dst), len(src))\<close> elements.\<close>

definition go_copy :: "'a list \<Rightarrow> 'a list \<Rightarrow> 'a list" where
  "go_copy dst src = take (length dst) src @ drop (length src) dst"

lemma length_go_copy [simp]: "length (go_copy dst src) = length dst"
  by (simp add: go_copy_def)

definition last_n :: "nat \<Rightarrow> 'a list \<Rightarrow> 'a list" where
  "last_n n xs = drop (length xs - n) xs"

lemma length_last_n [simp]: "length (last_n n xs) = min n (length xs)"
  by (simp add: last_n_def)

lemma last_n_all: "length xs \<le> n \<Longrightarrow> last_n n xs = xs"
  by (simp add: last_n_def)

lemma last_n_append_last_n: "last_n n (last_n n xs @ ys) = last_n n (xs @ ys)"
  by (cases "length xs \<le> n") (auto simp: last_n_def add.commute)

lemma last_n_set: "x \<in> set (last_n n xs) \<Longrightarrow> x \<in> set xs"
  by (auto simp: last_n_def dest: in_set_dropD)

section \<open>Bounded logs\<close>

text \<open>
  A log that keeps the newest \<open>cap\<close> entries: what a bounded history promises to its clients.
  \<open>push\<close> may panic (\<open>None\<close>); the contract says it does not on a well-formed log.
\<close>

locale bounded_log =
  fixes push :: "'s \<Rightarrow> 'a \<Rightarrow> 's option"
    and items :: "'s \<Rightarrow> 'a list"
    and cap :: "'s \<Rightarrow> nat"
    and ok :: "'s \<Rightarrow> bool"
  assumes push_total: "ok s \<Longrightarrow> \<exists>s'. push s a = Some s'"
    and push_ok: "ok s \<Longrightarrow> push s a = Some s' \<Longrightarrow> ok s'"
    and push_cap: "ok s \<Longrightarrow> push s a = Some s' \<Longrightarrow> cap s' = cap s"
    and push_items: "ok s \<Longrightarrow> push s a = Some s' \<Longrightarrow> items s' = last_n (cap s) (items s @ [a])"
    and items_bounded: "ok s \<Longrightarrow> length (items s) \<le> cap s"
begin

fun push_all :: "'s \<Rightarrow> 'a list \<Rightarrow> 's option" where
  "push_all s [] = Some s"
| "push_all s (a # as) = (case push s a of None \<Rightarrow> None | Some s' \<Rightarrow> push_all s' as)"

lemma push_all_spec:
  "ok s \<Longrightarrow> \<exists>s'. push_all s as = Some s' \<and> ok s' \<and> cap s' = cap s
     \<and> items s' = last_n (cap s) (items s @ as)"
proof (induction as arbitrary: s)
  case Nil
  then show ?case by (simp add: last_n_all items_bounded)
next
  case (Cons a as)
  obtain s1 where s1: "push s a = Some s1" using push_total [OF Cons.prems] by blast
  note facts = push_ok [OF Cons.prems s1] push_cap [OF Cons.prems s1] push_items [OF Cons.prems s1]
  from Cons.IH [OF facts(1)] obtain s' where
    "push_all s1 as = Some s'" "ok s'" "cap s' = cap s1"
    "items s' = last_n (cap s1) (items s1 @ as)" by blast
  with facts s1 show ?case
    using last_n_append_last_n [of "cap s" "items s @ [a]" as] by simp
qed

end

section \<open>Codecs\<close>

text \<open>
  A partial codec: what is encoded from the domain decodes to itself. Wire frames, data
  payloads, event names and mode names of wmux are instances.
\<close>

locale partial_codec =
  fixes enc :: "'a \<Rightarrow> 'b"
    and dec :: "'b \<Rightarrow> 'e + 'a"
    and valid :: "'a \<Rightarrow> bool"
  assumes dec_enc: "valid a \<Longrightarrow> dec (enc a) = Inr a"
begin

lemma enc_inj: "valid a \<Longrightarrow> valid b \<Longrightarrow> enc a = enc b \<longleftrightarrow> a = b"
  by (metis dec_enc sum.inject(2))

lemma enc_inj_on: "inj_on enc {a. valid a}"
  by (auto simp: inj_on_def enc_inj)

lemma dec_total_on_range: "b \<in> enc ` {a. valid a} \<Longrightarrow> is_ok (dec b)"
  by (auto simp: dec_enc)

end

end
