(* ===== verification/Protocol.thy ===== *)
theory Protocol
  imports Prelude
begin

text \<open>
  The binary wire protocol: \<^verbatim>\<open>internal/platform/protocol\<close> (entity.go, service.go, conn.go).
  A frame is \<^verbatim>\<open>[version:1][type:1][length:4][payload:N]\<close>, big-endian. The codec works on the
  streams of Go's \<^verbatim>\<open>io\<close> package: a reader is the bytes still to come and the way the stream
  ends, a writer is any state with a write function that may fail half-way.
\<close>

section \<open>Messages and frames (entity.go)\<close>

type_synonym MessageType = byte

definition ProtocolVersion :: byte where "ProtocolVersion = CHR 0x01"
definition HeaderSize :: nat where "HeaderSize = 6"
definition MaxPayloadSize :: nat where "MaxPayloadSize = 4 * 1024 * 1024"

definition MsgData :: MessageType where "MsgData = CHR 0x01"
definition MsgCreate :: MessageType where "MsgCreate = CHR 0x02"
definition MsgAttach :: MessageType where "MsgAttach = CHR 0x03"
definition MsgDetach :: MessageType where "MsgDetach = CHR 0x04"
definition MsgKill :: MessageType where "MsgKill = CHR 0x05"
definition MsgResize :: MessageType where "MsgResize = CHR 0x06"
definition MsgList :: MessageType where "MsgList = CHR 0x07"
definition MsgInfo :: MessageType where "MsgInfo = CHR 0x08"
definition MsgInput :: MessageType where "MsgInput = CHR 0x09"
definition MsgEvent :: MessageType where "MsgEvent = CHR 0x0A"
definition MsgHeartbeat :: MessageType where "MsgHeartbeat = CHR 0x0B"
definition MsgHeartbeatAck :: MessageType where "MsgHeartbeatAck = CHR 0x0C"
definition MsgError :: MessageType where "MsgError = CHR 0x0D"
definition MsgOK :: MessageType where "MsgOK = CHR 0x0E"
definition MsgShutdown :: MessageType where "MsgShutdown = CHR 0x0F"
definition MsgAuth :: MessageType where "MsgAuth = CHR 0x10"
definition MsgStatus :: MessageType where "MsgStatus = CHR 0x11"
definition MsgMetaSet :: MessageType where "MsgMetaSet = CHR 0x12"
definition MsgMetaGet :: MessageType where "MsgMetaGet = CHR 0x13"
definition MsgEnvForward :: MessageType where "MsgEnvForward = CHR 0x14"
definition MsgExec :: MessageType where "MsgExec = CHR 0x15"
definition MsgExecSync :: MessageType where "MsgExecSync = CHR 0x16"
definition MsgWait :: MessageType where "MsgWait = CHR 0x17"
definition MsgRecord :: MessageType where "MsgRecord = CHR 0x18"
definition MsgHistory :: MessageType where "MsgHistory = CHR 0x19"
definition MsgHistoryEnd :: MessageType where "MsgHistoryEnd = CHR 0x1A"
definition MsgKillPrefix :: MessageType where "MsgKillPrefix = CHR 0x1B"
definition MsgUpdateEmulatorScrollback :: MessageType where
  "MsgUpdateEmulatorScrollback = CHR 0x1C"

lemmas msg_defs =
  MsgData_def MsgCreate_def MsgAttach_def MsgDetach_def MsgKill_def MsgResize_def MsgList_def
  MsgInfo_def MsgInput_def MsgEvent_def MsgHeartbeat_def MsgHeartbeatAck_def MsgError_def
  MsgOK_def MsgShutdown_def MsgAuth_def MsgStatus_def MsgMetaSet_def MsgMetaGet_def
  MsgEnvForward_def MsgExec_def MsgExecSync_def MsgWait_def MsgRecord_def MsgHistory_def
  MsgHistoryEnd_def MsgKillPrefix_def MsgUpdateEmulatorScrollback_def

definition MessageType_String :: "MessageType \<Rightarrow> bytes" where
  "MessageType_String m =
    (if m = MsgData then ''data'' else if m = MsgCreate then ''create''
     else if m = MsgAttach then ''attach'' else if m = MsgDetach then ''detach''
     else if m = MsgKill then ''kill'' else if m = MsgResize then ''resize''
     else if m = MsgList then ''list'' else if m = MsgInfo then ''info''
     else if m = MsgInput then ''input'' else if m = MsgEvent then ''event''
     else if m = MsgHeartbeat then ''heartbeat''
     else if m = MsgHeartbeatAck then ''heartbeat_ack''
     else if m = MsgError then ''error'' else if m = MsgOK then ''ok''
     else if m = MsgShutdown then ''shutdown'' else if m = MsgAuth then ''auth''
     else if m = MsgStatus then ''status'' else if m = MsgMetaSet then ''meta_set''
     else if m = MsgMetaGet then ''meta_get'' else if m = MsgEnvForward then ''env_forward''
     else if m = MsgExec then ''exec'' else if m = MsgExecSync then ''exec_sync''
     else if m = MsgWait then ''wait'' else if m = MsgRecord then ''record''
     else if m = MsgHistory then ''history'' else if m = MsgHistoryEnd then ''history_end''
     else if m = MsgKillPrefix then ''kill_prefix''
     else if m = MsgUpdateEmulatorScrollback then ''update_emulator_scrollback''
     else ''unknown'')"

record Frame =
  Version :: byte
  Type :: MessageType
  Payload :: bytes

datatype proto_error =
    ErrVersionMismatch
  | ErrPayloadTooLarge
  | ErrInvalidFrame
  | ErrShortRead
  | ErrWriteHeader bytes
  | ErrWritePayload bytes
  | ErrReadHeader
  | ErrReadPayload

section \<open>Big-endian lengths (encoding/binary)\<close>

definition PutUint32 :: "32 word \<Rightarrow> bytes" where
  "PutUint32 v = (let n = unat v in
     [char_of (n div 2 ^ 24), char_of (n div 2 ^ 16), char_of (n div 2 ^ 8), char_of n])"

fun Uint32 :: "bytes \<Rightarrow> 32 word" where
  "Uint32 [a, b, c, d] =
     word_of_nat (of_char a * 2 ^ 24 + of_char b * 2 ^ 16 + of_char c * 2 ^ 8 + of_char d)"
| "Uint32 _ = 0"

lemma length_PutUint32 [simp]: "length (PutUint32 v) = 4"
  by (simp add: PutUint32_def Let_def)

lemma be_split:
  fixes n :: nat
  assumes "n < 2 ^ 32"
  shows "n div 2 ^ 24 mod 256 * 2 ^ 24 + n div 2 ^ 16 mod 256 * 2 ^ 16
       + n div 2 ^ 8 mod 256 * 2 ^ 8 + n mod 256 = n"
proof -
  define a b c where "a = n div 256" and "b = a div 256" and "c = b div 256"
  have d: "n div 2 ^ 8 = a" "n div 2 ^ 16 = b" "n div 2 ^ 24 = c"
    by (simp_all add: a_def b_def c_def div_mult2_eq [symmetric])
  have "c < 256" using assms by (simp add: a_def b_def c_def div_mult2_eq [symmetric])
  moreover have "n = 256 * a + n mod 256" "a = 256 * b + a mod 256" "b = 256 * c + b mod 256"
    by (simp_all add: a_def b_def c_def)
  ultimately show ?thesis unfolding d by simp
qed

lemma Uint32_PutUint32 [simp]: "Uint32 (PutUint32 v) = v"
proof -
  have "unat v < 2 ^ 32"
    using unsigned_less [of v, where ?'a = nat] by simp
  then show ?thesis
    using be_split [of "unat v"] by (simp add: PutUint32_def Let_def)
qed

section \<open>Streams (package io)\<close>

datatype stream_end = AtEOF | AtError
datatype read_error = EOF | ErrUnexpectedEOF | ErrIO

record reader =
  r_data :: bytes
  r_end :: stream_end

definition ReadFull :: "reader \<Rightarrow> nat \<Rightarrow> (read_error + bytes) \<times> reader" where
  "ReadFull r n =
     (if n \<le> length (r_data r)
      then (Inr (take n (r_data r)), r\<lparr>r_data := drop n (r_data r)\<rparr>)
      else (Inl (case r_end r of
                   AtEOF \<Rightarrow> if r_data r = [] then EOF else ErrUnexpectedEOF
                 | AtError \<Rightarrow> ErrIO),
            r\<lparr>r_data := []\<rparr>))"

section \<open>Codec (service.go)\<close>

definition frame_header :: "Frame \<Rightarrow> bytes" where
  "frame_header f = [Version f, Type f] @ PutUint32 (word_of_nat (length (Payload f)))"

text \<open>
  \<^verbatim>\<open>Codec.Encode\<close>. The writer is a parameter: \<open>w\<close> is its state and \<open>write\<close> its \<^verbatim>\<open>Write\<close> method,
  which returns an error message or \<open>None\<close>.
\<close>

definition Encode ::
  "('w \<Rightarrow> bytes \<Rightarrow> bytes option \<times> 'w) \<Rightarrow> 'w \<Rightarrow> Frame \<Rightarrow> proto_error option \<times> 'w" where
  "Encode wr w f =
     (if length (Payload f) > MaxPayloadSize then (Some ErrPayloadTooLarge, w)
      else case wr w (frame_header f) of
             (Some e, w1) \<Rightarrow> (Some (ErrWriteHeader e), w1)
           | (None, w1) \<Rightarrow>
               if length (Payload f) > 0
               then (case wr w1 (Payload f) of
                       (Some e, w2) \<Rightarrow> (Some (ErrWritePayload e), w2)
                     | (None, w2) \<Rightarrow> (None, w2))
               else (None, w1))"

text \<open>\<^verbatim>\<open>Codec.Decode\<close>.\<close>

definition Decode :: "reader \<Rightarrow> (proto_error + Frame) \<times> reader" where
  "Decode r =
     (case ReadFull r HeaderSize of
        (Inl e, r1) \<Rightarrow>
          (Inl (if e = ErrUnexpectedEOF \<or> e = EOF then ErrShortRead else ErrReadHeader), r1)
      | (Inr header, r1) \<Rightarrow>
          let version = header ! 0; msgType = header ! 1;
              payloadLen = Uint32 (drop 2 header)
          in if version \<noteq> ProtocolVersion then (Inl ErrVersionMismatch, r1)
             else if unat payloadLen > MaxPayloadSize then (Inl ErrPayloadTooLarge, r1)
             else if unat payloadLen > 0
             then (case ReadFull r1 (unat payloadLen) of
                     (Inl e, r2) \<Rightarrow>
                       (Inl (if e = ErrUnexpectedEOF \<or> e = EOF then ErrShortRead
                             else ErrReadPayload), r2)
                   | (Inr payload, r2) \<Rightarrow>
                       (Inr \<lparr>Version = version, Type = msgType, Payload = payload\<rparr>, r2))
             else (Inr \<lparr>Version = version, Type = msgType, Payload = []\<rparr>, r1))"

section \<open>Connections (conn.go)\<close>

text \<open>
  A \<^verbatim>\<open>net.Conn\<close>: what the peer has sent, what was written so far, how many further bytes the
  kernel accepts before the peer is gone (\<open>None\<close>: no limit), and whether it was closed here.
\<close>

record Conn =
  c_in :: reader
  c_out :: bytes
  c_accepts :: "nat option"
  c_closed :: bool

definition conn_write :: "Conn \<Rightarrow> bytes \<Rightarrow> bytes option \<times> Conn" where
  "conn_write c p =
     (if c_closed c then (Some ''use of closed network connection'', c)
      else case c_accepts c of
             None \<Rightarrow> (None, c\<lparr>c_out := c_out c @ p\<rparr>)
           | Some k \<Rightarrow>
               if length p \<le> k
               then (None, c\<lparr>c_out := c_out c @ p, c_accepts := Some (k - length p)\<rparr>)
               else (Some ''broken pipe'', c\<lparr>c_out := c_out c @ take k p, c_accepts := Some 0\<rparr>))"

definition WriteFrame :: "Conn \<Rightarrow> Frame \<Rightarrow> proto_error option \<times> Conn" where
  "WriteFrame c f = Encode conn_write c f"

definition ReadFrame :: "Conn \<Rightarrow> (proto_error + Frame) \<times> Conn" where
  "ReadFrame c =
     (if c_closed c then (Inl ErrReadHeader, c)
      else case Decode (c_in c) of (res, r) \<Rightarrow> (res, c\<lparr>c_in := r\<rparr>))"

definition Conn_Close :: "Conn \<Rightarrow> Conn" where
  "Conn_Close c = c\<lparr>c_closed := True\<rparr>"

definition open_conn :: "bytes \<Rightarrow> Conn" where
  "open_conn d = \<lparr>c_in = \<lparr>r_data = d, r_end = AtEOF\<rparr>, c_out = [], c_accepts = None, c_closed = False\<rparr>"

section \<open>The byte-sink interface\<close>

text \<open>
  What the codec needs of an \<^verbatim>\<open>io.Writer\<close>: a successful write appends exactly the bytes given,
  a failed one appends a prefix of them. The bytes a frame occupies on such a sink follow.
\<close>

definition encode_frame :: "Frame \<Rightarrow> bytes" where
  "encode_frame f = frame_header f @ Payload f"

locale byte_sink =
  fixes wr :: "'w \<Rightarrow> bytes \<Rightarrow> bytes option \<times> 'w"
    and content :: "'w \<Rightarrow> bytes"
  assumes write_ok: "wr w p = (None, w') \<Longrightarrow> content w' = content w @ p"
    and write_err: "wr w p = (Some e, w') \<Longrightarrow> \<exists>q. prefix q p \<and> content w' = content w @ q"
begin

lemma encode_content:
  "Encode wr w f = (None, w') \<Longrightarrow> content w' = content w @ encode_frame f"
  by (auto simp: Encode_def encode_frame_def split: if_splits prod.splits option.splits
      dest!: write_ok)

lemma encode_too_large:
  "length (Payload f) > MaxPayloadSize \<Longrightarrow> Encode wr w f = (Some ErrPayloadTooLarge, w)"
  by (simp add: Encode_def)

lemma encode_failed_prefix:
  assumes "Encode wr w f = (Some e, w')"
  shows "\<exists>q. prefix q (encode_frame f) \<and> content w' = content w @ q"
proof (cases "length (Payload f) > MaxPayloadSize")
  case True
  with assms show ?thesis by (auto simp: Encode_def intro!: exI [of _ "[]"])
next
  case False
  obtain r1 w1 where w1: "wr w (frame_header f) = (r1, w1)" by fastforce
  show ?thesis
  proof (cases r1)
    case (Some e1)
    with assms False w1 have "w' = w1" by (simp add: Encode_def)
    moreover from w1 Some obtain q where "prefix q (frame_header f)" "content w1 = content w @ q"
      by (auto dest: write_err)
    ultimately show ?thesis by (auto simp: encode_frame_def)
  next
    case None
    then have c1: "content w1 = content w @ frame_header f" using w1 by (simp add: write_ok)
    from assms False w1 None have "wr w1 (Payload f) = (Some (case e of ErrWritePayload x \<Rightarrow> x | _ \<Rightarrow> []), w')"
      by (auto simp: Encode_def split: if_splits prod.splits option.splits)
    then obtain q where "prefix q (Payload f)" "content w' = content w1 @ q"
      by (auto dest: write_err)
    with c1 show ?thesis
      by (auto simp: encode_frame_def intro!: exI [of _ "frame_header f @ q"])
  qed
qed

end

lemma conn_write_sink:
  "conn_write w p = (None, w') \<Longrightarrow> c_out w' = c_out w @ p"
  by (auto simp: conn_write_def split: if_splits option.splits)

interpretation conn: byte_sink conn_write c_out
  by unfold_locales
     (auto simp: conn_write_def take_is_prefix split: if_splits option.splits)

section \<open>Correctness of the codec\<close>

definition sendable :: "Frame \<Rightarrow> bool" where
  "sendable f \<longleftrightarrow> Version f = ProtocolVersion \<and> length (Payload f) \<le> MaxPayloadSize"

lemma length_frame_header [simp]: "length (frame_header f) = HeaderSize"
  by (simp add: frame_header_def HeaderSize_def)

lemma unat_payload_len:
  "n \<le> MaxPayloadSize \<Longrightarrow> unat (word_of_nat n :: 32 word) = n"
  by (simp add: MaxPayloadSize_def unat_of_nat take_bit_nat_eq_self)

lemma ReadFull_append [simp]:
  "ReadFull \<lparr>r_data = xs @ ys, r_end = e\<rparr> (length xs) = (Inr xs, \<lparr>r_data = ys, r_end = e\<rparr>)"
  by (simp add: ReadFull_def)

lemma ReadFull_header [simp]:
  "ReadFull \<lparr>r_data = frame_header f @ ys, r_end = e\<rparr> HeaderSize
     = (Inr (frame_header f), \<lparr>r_data = ys, r_end = e\<rparr>)"
  using ReadFull_append [of "frame_header f" ys e] by simp

lemma header_fields [simp]:
  "frame_header f ! 0 = Version f"
  "frame_header f ! 1 = Type f"
  "frame_header f ! Suc 0 = Type f"
  "drop 2 (frame_header f) = PutUint32 (word_of_nat (length (Payload f)))"
  by (simp_all add: frame_header_def)

lemma Decode_encode_frame:
  assumes "sendable f"
  shows "Decode \<lparr>r_data = encode_frame f @ rest, r_end = e\<rparr> = (Inr f, \<lparr>r_data = rest, r_end = e\<rparr>)"
  using assms
  by (cases f) (auto simp: Decode_def sendable_def encode_frame_def unat_payload_len Let_def)

lemma Decode_short:
  assumes "sendable f" and "strict_prefix d (encode_frame f)"
  shows "fst (Decode \<lparr>r_data = d, r_end = AtEOF\<rparr>) = Inl ErrShortRead"
proof (cases "length d < HeaderSize")
  case True
  then show ?thesis by (simp add: Decode_def ReadFull_def)
next
  case False
  from assms(2) have "prefix d (encode_frame f)" by simp
  with False obtain q where d: "d = frame_header f @ q"
    by (metis encode_frame_def leI length_frame_header prefix_append prefix_length_prefix
        prefix_def prefix_length_le append_take_drop_id same_append_eq)
  with assms(2) have "strict_prefix q (Payload f)"
    by (simp add: encode_frame_def strict_prefix_def)
  then have q: "length q < length (Payload f)"
    by (simp add: prefix_length_less)
  with assms(1) show ?thesis
    by (auto simp: d Decode_def sendable_def unat_payload_len Let_def ReadFull_def)
qed

lemma Decode_consumes:
  assumes "Decode r = (Inr f, r')"
  shows "Version f = ProtocolVersion \<and> length (Payload f) \<le> MaxPayloadSize
       \<and> r_data r' = drop (HeaderSize + length (Payload f)) (r_data r)
       \<and> HeaderSize + length (Payload f) \<le> length (r_data r)"
  using assms
  by (auto simp: Decode_def ReadFull_def Let_def add.commute
      split: if_splits prod.splits sum.splits)

text \<open>Reading a whole stream of frames, one \<^verbatim>\<open>ReadFrame\<close> after the other.\<close>

fun read_frames :: "nat \<Rightarrow> Conn \<Rightarrow> Frame list \<times> Conn" where
  "read_frames 0 c = ([], c)"
| "read_frames (Suc n) c =
     (case ReadFrame c of
        (Inl e, c') \<Rightarrow> ([], c')
      | (Inr f, c') \<Rightarrow> (case read_frames n c' of (fs, c'') \<Rightarrow> (f # fs, c'')))"

fun write_frames :: "Conn \<Rightarrow> Frame list \<Rightarrow> proto_error option \<times> Conn" where
  "write_frames c [] = (None, c)"
| "write_frames c (f # fs) =
     (case WriteFrame c f of (None, c') \<Rightarrow> write_frames c' fs | (Some e, c') \<Rightarrow> (Some e, c'))"

lemma write_frames_out:
  "write_frames c fs = (None, c') \<Longrightarrow> c_out c' = c_out c @ concat (map encode_frame fs)"
  by (induction fs arbitrary: c)
     (auto simp: WriteFrame_def split: prod.splits option.splits dest!: conn.encode_content)

lemma read_frames_encoded:
  "\<forall>f \<in> set fs. sendable f \<Longrightarrow> \<not> c_closed c \<Longrightarrow> r_data (c_in c) = concat (map encode_frame fs) @ rest \<Longrightarrow>
   read_frames (length fs) c = (fs, c\<lparr>c_in := (c_in c)\<lparr>r_data := rest\<rparr>\<rparr>)"
proof (induction fs arbitrary: c)
  case (Cons f fs)
  let ?tail = "concat (map encode_frame fs) @ rest"
  obtain e where cin: "c_in c = \<lparr>r_data = encode_frame f @ ?tail, r_end = e\<rparr>"
    using Cons.prems(3) by (cases "c_in c") simp
  then have "ReadFrame c = (Inr f, c\<lparr>c_in := \<lparr>r_data = ?tail, r_end = e\<rparr>\<rparr>)"
    using Cons.prems Decode_encode_frame [of f ?tail e] by (simp add: ReadFrame_def)
  then show ?case
    using Cons.IH [of "c\<lparr>c_in := \<lparr>r_data = ?tail, r_end = e\<rparr>\<rparr>"] Cons.prems cin
    by simp
qed simp

section \<open>Properties\<close>

text \<open>(C10) Frames written on a connection are read back by the peer one by one, in order and
unchanged, whatever follows them on the wire.\<close>

theorem protocol_stream_roundtrip:
  assumes "list_all sendable fs" and "write_frames (open_conn d) fs = (None, c')"
  shows "read_frames (length fs) (open_conn (c_out c' @ rest)) = (fs, open_conn rest)"
  using assms write_frames_out [OF assms(2)]
    read_frames_encoded [of fs "open_conn (c_out c' @ rest)" rest]
  by (simp add: open_conn_def list_all_iff)

theorem protocol_stream_roundtrip_witness:
  "let f = \<lparr>Version = CHR 0x01, Type = CHR 0x02, Payload = ''ab''\<rparr>
   in read_frames (length [f]) (open_conn (c_out (snd (write_frames (open_conn []) [f])) @ ''x''))
      = ([f], open_conn ''x'')"
  unfolding Let_def
  by (rule protocol_stream_roundtrip [where d = "[]"])
     (simp_all add: sendable_def ProtocolVersion_def MaxPayloadSize_def WriteFrame_def Encode_def
       conn_write_def open_conn_def)

text \<open>A frame cut off anywhere (inside the header or inside the payload) is reported as
\<^verbatim>\<open>ErrShortRead\<close>, never as a frame and never as another error.\<close>

lemma protocol_truncated_short_read:
  assumes "sendable f" and "strict_prefix d (encode_frame f)"
  shows "fst (ReadFrame (open_conn d)) = Inl ErrShortRead"
  using Decode_short [OF assms]
  by (cases "Decode \<lparr>r_data = d, r_end = AtEOF\<rparr>") (simp add: ReadFrame_def open_conn_def)

text \<open>The error paths of \<^verbatim>\<open>WriteFrame\<close>: an oversized payload is refused before anything reaches
the connection, a failed write leaves a prefix of the frame on the wire, and success leaves
exactly the frame.\<close>

lemma protocol_write_outcome:
  "case WriteFrame c f of
     (None, c') \<Rightarrow> length (Payload f) \<le> MaxPayloadSize \<and> c_out c' = c_out c @ encode_frame f
   | (Some e, c') \<Rightarrow>
       (if length (Payload f) > MaxPayloadSize then e = ErrPayloadTooLarge \<and> c' = c
        else e \<noteq> ErrPayloadTooLarge \<and> (\<exists>q. prefix q (encode_frame f) \<and> c_out c' = c_out c @ q))"
proof (cases "WriteFrame c f")
  case (Pair r c')
  show ?thesis
  proof (cases r)
    case None
    with Pair show ?thesis
      using conn.encode_content [of c f c'] conn.encode_too_large [of f c]
      by (auto simp: WriteFrame_def intro: leI)
  next
    case (Some e)
    with Pair show ?thesis
      using conn.encode_failed_prefix [of c f e c'] conn.encode_too_large [of f c]
      by (auto simp: WriteFrame_def Encode_def split: if_splits prod.splits option.splits)
  qed
qed

end
