(* ===== verification/SessionId.thy ===== *)
theory SessionId
  imports Prelude
begin

text \<open>
  Session identifiers (\<^verbatim>\<open>internal/session/values.go\<close>) and the binary payloads that carry them
  (\<^verbatim>\<open>internal/daemon/values.go\<close>).
\<close>

section \<open>Ranging over a string: UTF-8 decoding\<close>

text \<open>
  \<^verbatim>\<open>for _, r := range s\<close> decodes UTF-8; an invalid byte yields the rune U+FFFD and advances by one
  byte. The second-byte ranges are those of the package \<^verbatim>\<open>unicode/utf8\<close>.
\<close>

definition second_byte_range :: "nat \<Rightarrow> nat \<times> nat" where
  "second_byte_range b0 =
     (if b0 = 0xE0 then (0xA0, 0xBF) else if b0 = 0xED then (0x80, 0x9F)
      else if b0 = 0xF0 then (0x90, 0xBF) else if b0 = 0xF4 then (0x80, 0x8F)
      else (0x80, 0xBF))"

definition is_cont :: "nat \<Rightarrow> bool" where
  "is_cont b \<longleftrightarrow> 0x80 \<le> b \<and> b \<le> 0xBF"

fun decode_rune :: "nat list \<Rightarrow> nat \<times> nat" where
  "decode_rune [] = (0xFFFD, 0)"
| "decode_rune (b0 # bs) =
     (if b0 < 0x80 then (b0, 1)
      else let (lo, hi) = second_byte_range b0 in
        case bs of
          b1 # r1 \<Rightarrow>
            if \<not> (lo \<le> b1 \<and> b1 \<le> hi) then (0xFFFD, 1)
            else if 0xC2 \<le> b0 \<and> b0 \<le> 0xDF then ((b0 - 0xC0) * 64 + (b1 - 0x80), 2)
            else (case r1 of
                    b2 # r2 \<Rightarrow>
                      if \<not> is_cont b2 then (0xFFFD, 1)
                      else if 0xE0 \<le> b0 \<and> b0 \<le> 0xEF
                      then ((b0 - 0xE0) * 4096 + (b1 - 0x80) * 64 + (b2 - 0x80), 3)
                      else (case r2 of
                              b3 # _ \<Rightarrow>
                                if is_cont b3 \<and> 0xF0 \<le> b0 \<and> b0 \<le> 0xF4
                                then ((b0 - 0xF0) * 262144 + (b1 - 0x80) * 4096
                                      + (b2 - 0x80) * 64 + (b3 - 0x80), 4)
                                else (0xFFFD, 1)
                            | [] \<Rightarrow> (0xFFFD, 1))
                  | [] \<Rightarrow> (0xFFFD, 1))
        | [] \<Rightarrow> (0xFFFD, 1))"

function runes :: "nat list \<Rightarrow> nat list" where
  "runes bs = (if bs = [] then []
               else fst (decode_rune bs) # runes (drop (max 1 (snd (decode_rune bs))) bs))"
  by pat_completeness auto
termination
  by (relation "measure length") auto

declare runes.simps [simp del]

definition runes_of :: "bytes \<Rightarrow> nat list" where
  "runes_of s = runes (map of_char s)"

lemma decode_rune_ascii: "b0 < 0x80 \<Longrightarrow> decode_rune (b0 # bs) = (b0, 1)"
  by simp

lemma decode_rune_high: "0x80 \<le> b0 \<Longrightarrow> 0x80 \<le> fst (decode_rune (b0 # bs))"
  by (auto simp: second_byte_range_def is_cont_def split: list.splits if_splits)

text \<open>
  For a predicate that only admits ASCII, ranging over runes and ranging over bytes agree.
\<close>

lemma runes_all_ascii:
  assumes ascii: "\<And>r. P r \<Longrightarrow> r < 0x80"
  shows "list_all P (runes bs) \<longleftrightarrow> list_all P bs"
proof (induction bs rule: runes.induct)
  case (1 bs)
  show ?case
  proof (cases bs)
    case Nil
    then show ?thesis by (simp add: runes.simps)
  next
    case (Cons b0 rest)
    show ?thesis
    proof (cases "b0 < 0x80")
      case True
      with 1 Cons show ?thesis by (subst runes.simps) simp
    next
      case False
      then have "\<not> P b0" and "\<not> P (fst (decode_rune (b0 # rest)))"
        using ascii decode_rune_high [of b0 rest] by (force dest: ascii)+
      with Cons show ?thesis by (subst runes.simps) simp
    qed
  qed
qed

section \<open>Validation (session/values.go)\<close>

datatype id_error = ErrInvalidSessionID | ErrInvalidPrefix

definition isAllowedIDRune :: "nat \<Rightarrow> bool" where
  "isAllowedIDRune r \<longleftrightarrow>
     (97 \<le> r \<and> r \<le> 122) \<or> (65 \<le> r \<and> r \<le> 90) \<or> (48 \<le> r \<and> r \<le> 57) \<or>
     r = of_char (CHR ''-'') \<or> r = of_char (CHR ''_'') \<or> r = of_char (CHR ''/'')"

definition ValidateSessionID :: "bytes \<Rightarrow> id_error + unit" where
  "ValidateSessionID sid =
     (if sid = [] then Inl ErrInvalidSessionID
      else if contains_sub sid ''..'' then Inl ErrInvalidSessionID
      else if \<exists>r \<in> set (runes_of sid). \<not> isAllowedIDRune r then Inl ErrInvalidSessionID
      else Inr ())"

definition ExtractPrefix :: "bytes \<Rightarrow> bytes \<times> bytes" where
  "ExtractPrefix sid =
     (case last_index_byte (CHR ''/'') sid of
        None \<Rightarrow> ([], sid)
      | Some i \<Rightarrow> (take i sid, drop (i + 1) sid))"

definition isAllowedPrefixRune :: "nat \<Rightarrow> bool" where
  "isAllowedPrefixRune r \<longleftrightarrow>
     (97 \<le> r \<and> r \<le> 122) \<or> (65 \<le> r \<and> r \<le> 90) \<or> (48 \<le> r \<and> r \<le> 57) \<or>
     r = of_char (CHR ''-'') \<or> r = of_char (CHR ''_'')"

definition ValidatePrefix :: "bytes \<Rightarrow> id_error + unit" where
  "ValidatePrefix p =
     (if p = [] \<or> length p > 64 then Inl ErrInvalidPrefix
      else if \<exists>r \<in> set (runes_of p). \<not> isAllowedPrefixRune r then Inl ErrInvalidPrefix
      else Inr ())"

definition id_byte :: "byte \<Rightarrow> bool" where
  "id_byte c \<longleftrightarrow> isAllowedIDRune (of_char c)"

definition prefix_byte :: "byte \<Rightarrow> bool" where
  "prefix_byte c \<longleftrightarrow> isAllowedPrefixRune (of_char c)"

lemma runes_of_id: "list_all isAllowedIDRune (runes_of s) \<longleftrightarrow> list_all id_byte s"
  unfolding runes_of_def
  by (subst runes_all_ascii) (auto simp: isAllowedIDRune_def list_all_iff id_byte_def)

lemma runes_of_prefix: "list_all isAllowedPrefixRune (runes_of s) \<longleftrightarrow> list_all prefix_byte s"
  unfolding runes_of_def
  by (subst runes_all_ascii)
     (auto simp: isAllowedPrefixRune_def list_all_iff prefix_byte_def)

lemma no_dots: "list_all id_byte s \<Longrightarrow> \<not> contains_sub s ''..''"
proof
  assume all: "list_all id_byte s" and "contains_sub s ''..''"
  then have "sublist ''..'' s" by (simp add: contains_sub_iff)
  then have "CHR ''.'' \<in> set s" by (auto dest: set_mono_sublist)
  with all have "id_byte (CHR ''.'')" by (simp add: list_all_iff)
  then show False by (simp add: id_byte_def isAllowedIDRune_def)
qed

lemma ValidateSessionID_iff: "ValidateSessionID sid = Inr () \<longleftrightarrow> sid \<noteq> [] \<and> list_all id_byte sid"
proof -
  have "(\<exists>r \<in> set (runes_of sid). \<not> isAllowedIDRune r) \<longleftrightarrow> \<not> list_all id_byte sid"
    using runes_of_id [of sid] by (auto simp: list_all_iff)
  then show ?thesis
    using no_dots [of sid] by (auto simp: ValidateSessionID_def)
qed

lemma ValidatePrefix_iff:
  "ValidatePrefix p = Inr () \<longleftrightarrow> p \<noteq> [] \<and> length p \<le> 64 \<and> list_all prefix_byte p"
proof -
  have "(\<exists>r \<in> set (runes_of p). \<not> isAllowedPrefixRune r) \<longleftrightarrow> \<not> list_all prefix_byte p"
    using runes_of_prefix [of p] by (auto simp: list_all_iff)
  then show ?thesis by (auto simp: ValidatePrefix_def)
qed

lemma ExtractPrefix_join:
  "CHR ''/'' \<notin> set name \<Longrightarrow> ExtractPrefix (p @ CHR ''/'' # name) = (p, name)"
  by (simp add: ExtractPrefix_def last_index_byte_append)

section \<open>Data payloads (daemon/values.go)\<close>

datatype payload_error = ErrPayloadTooShort

definition EncodeDataPayload :: "bytes \<Rightarrow> bytes \<Rightarrow> bytes" where
  "EncodeDataPayload sessionID data =
     [char_of (length sessionID)] @ sessionID @ data"

definition DecodeDataPayload :: "bytes \<Rightarrow> payload_error + bytes \<times> bytes" where
  "DecodeDataPayload payload =
     (if length payload < 1 then Inl ErrPayloadTooShort
      else let idLen = of_char (payload ! 0) in
        if length payload < 1 + idLen then Inl ErrPayloadTooShort
        else Inr (take idLen (drop 1 payload), drop (1 + idLen) payload))"

definition EncodeInputPayload :: "bytes \<Rightarrow> bytes \<Rightarrow> bytes" where
  "EncodeInputPayload sessionID data = EncodeDataPayload sessionID data"

definition DecodeInputPayload :: "bytes \<Rightarrow> payload_error + bytes \<times> bytes" where
  "DecodeInputPayload payload = DecodeDataPayload payload"

text \<open>
  The pooled variant. The pool is the list of the released buffers, each with whatever bytes it
  last held; \<^verbatim>\<open>sync.Pool.Get\<close> hands out any one of them (\<open>pick\<close>) or a fresh buffer, and the
  buffer is cut to length zero before it is filled. \<open>take 0\<close> is the re-slicing \<^verbatim>\<open>[:0]\<close>.
\<close>

definition AcquireDataPayload ::
  "nat \<Rightarrow> bytes list \<Rightarrow> bytes \<Rightarrow> bytes \<Rightarrow> bytes \<times> bytes list" where
  "AcquireDataPayload pick pool sessionID data =
     (let (h, pool') = (if pick < length pool
                        then (pool ! pick, take pick pool @ drop (Suc pick) pool)
                        else ([], pool));
          buf = take 0 h;
          buf = buf @ [char_of (length sessionID)];
          buf = buf @ sessionID;
          buf = buf @ data
      in (buf, pool'))"

definition ReleaseDataPayload :: "bytes \<Rightarrow> bytes list \<Rightarrow> bytes list" where
  "ReleaseDataPayload handle pool = take 0 handle # pool"

definition short_id :: "bytes \<times> bytes \<Rightarrow> bool" where
  "short_id x \<longleftrightarrow> length (fst x) < 256"

lemma DecodeDataPayload_Encode:
  "DecodeDataPayload (EncodeDataPayload sid d) =
     Inr (take (length sid mod 256) sid, drop (length sid mod 256) sid @ d)"
proof -
  have "length sid mod 256 \<le> length sid" by simp
  then show ?thesis
    by (simp add: DecodeDataPayload_def EncodeDataPayload_def Let_def)
qed

interpretation data_payload: partial_codec
  "\<lambda>(sid, d). EncodeDataPayload sid d" DecodeDataPayload short_id
  by unfold_locales (auto simp: DecodeDataPayload_Encode short_id_def)

interpretation input_payload: partial_codec
  "\<lambda>(sid, d). EncodeInputPayload sid d" DecodeInputPayload short_id
  by unfold_locales
     (auto simp: EncodeInputPayload_def DecodeInputPayload_def DecodeDataPayload_Encode short_id_def)

lemma AcquireDataPayload_eq: "fst (AcquireDataPayload pick pool sid d) = EncodeDataPayload sid d"
  by (simp add: AcquireDataPayload_def EncodeDataPayload_def Let_def split: prod.splits)

section \<open>Properties\<close>

text \<open>A session id is accepted exactly when it is non-empty and every byte is a letter, a digit,
\<^verbatim>\<open>-\<close>, \<^verbatim>\<open>_\<close> or \<^verbatim>\<open>/\<close>: ranging over runes accepts no other UTF-8 text, and the separate check for \<^verbatim>\<open>..\<close>
excludes nothing more.\<close>

lemma session_id_accepted:
  "ValidateSessionID sid = Inr () \<longleftrightarrow> sid \<noteq> [] \<and> list_all id_byte sid"
  by (rule ValidateSessionID_iff)

text \<open>(C40) The data payload carries its session id and its bytes unchanged exactly for ids shorter
than 256 bytes: the length byte wraps around for longer ids, which validation does not exclude.\<close>

theorem data_payload_roundtrip_iff:
  "DecodeDataPayload (EncodeDataPayload sid d) = Inr (sid, d) \<longleftrightarrow> length sid < 256"
proof
  assume "length sid < 256"
  then have "short_id (sid, d)" by (simp add: short_id_def)
  from data_payload.dec_enc [OF this]
  show "DecodeDataPayload (EncodeDataPayload sid d) = Inr (sid, d)" by simp
next
  assume "DecodeDataPayload (EncodeDataPayload sid d) = Inr (sid, d)"
  then have "take (length sid mod 256) sid = sid" by (simp add: DecodeDataPayload_Encode)
  then have "length sid mod 256 = length sid"
    by (metis length_take min.absorb2 mod_less_eq_dividend)
  then show "length sid < 256" by (metis mod_less_divisor zero_less_numeral)
qed

end
