(* ===== verification/Debug.thy ===== *)
theory Debug
  imports Prelude
begin

text \<open>
  The opt-in tracer (\<^verbatim>\<open>internal/platform/debug\<close>: entity.go, service.go, env.go). A nil tracer is
  \<open>None\<close>. The rotating log file behind the structured logger is the list of lines handed to it;
  rotation and file errors belong to the logging libraries and are not modelled.
\<close>

section \<open>Entities\<close>

type_synonym Level = int

definition LevelOff :: Level where "LevelOff = 0"
definition LevelLifecycle :: Level where "LevelLifecycle = 1"
definition LevelChunk :: Level where "LevelChunk = 2"
definition LevelFull :: Level where "LevelFull = 3"

datatype Stage =
    StagePtyRead | StageBufferAppend | StageBufferFlush | StageBufferPause | StageBufferResume
  | StageEmulatorIn | StageEmulatorOut | StageEmulatorDrop | StageFrameSend | StageSnapshotStart
  | StageSnapshotDone | StageResize | StageAttach | StageDetach | StageSessionCreate
  | StageSessionClose

fun stage_name :: "Stage \<Rightarrow> bytes" where
  "stage_name StagePtyRead = ''pty.read''"
| "stage_name StageBufferAppend = ''buffer.append''"
| "stage_name StageBufferFlush = ''buffer.flush''"
| "stage_name StageBufferPause = ''buffer.pause''"
| "stage_name StageBufferResume = ''buffer.resume''"
| "stage_name StageEmulatorIn = ''emulator.in''"
| "stage_name StageEmulatorOut = ''emulator.out''"
| "stage_name StageEmulatorDrop = ''emulator.drop''"
| "stage_name StageFrameSend = ''frame.send''"
| "stage_name StageSnapshotStart = ''snapshot.start''"
| "stage_name StageSnapshotDone = ''snapshot.done''"
| "stage_name StageResize = ''resize''"
| "stage_name StageAttach = ''attach''"
| "stage_name StageDetach = ''detach''"
| "stage_name StageSessionCreate = ''session.create''"
| "stage_name StageSessionClose = ''session.close''"

record DebugEvent =
  de_SessionID :: bytes
  de_Stage :: Stage
  de_Seq :: int
  de_ByteLen :: int
  de_HeadHex :: bytes
  de_TailHex :: bytes
  de_FullHex :: bytes
  de_Sha1 :: bytes
  de_BufferSize :: int
  de_BufferHWM :: int
  de_BufferLWM :: int
  de_Paused :: bool
  de_Cols :: int
  de_Rows :: int
  de_ExitCode :: int
  de_Error :: bytes

text \<open>An event literal: the fields the composite literal leaves out are zero values.\<close>

definition dbg :: "bytes \<Rightarrow> Stage \<Rightarrow> DebugEvent" where
  "dbg sid st =
     \<lparr>de_SessionID = sid, de_Stage = st, de_Seq = -1, de_ByteLen = 0, de_HeadHex = [],
      de_TailHex = [], de_FullHex = [], de_Sha1 = [], de_BufferSize = 0, de_BufferHWM = 0,
      de_BufferLWM = 0, de_Paused = False, de_Cols = 0, de_Rows = 0, de_ExitCode = 0, de_Error = []\<rparr>"

section \<open>The tracer\<close>

datatype attr_val = AStr bytes | AInt int | ABool bool

type_synonym log_line = "bytes \<times> (bytes \<times> attr_val) list"

record TracerS =
  tr_level :: Level
  tr_seqs :: "(bytes, int) gomap"
  tr_lines :: "log_line list"

type_synonym tracer = "TracerS option"

definition Enabled :: "tracer \<Rightarrow> bool" where
  "Enabled t \<longleftrightarrow> (case t of None \<Rightarrow> False | Some s \<Rightarrow> tr_level s > LevelOff)"

definition Tracer_Level :: "tracer \<Rightarrow> Level" where
  "Tracer_Level t = (case t of None \<Rightarrow> LevelOff | Some s \<Rightarrow> tr_level s)"

definition event_attrs :: "Level \<Rightarrow> DebugEvent \<Rightarrow> (bytes \<times> attr_val) list" where
  "event_attrs lvl ev =
     [(''session_id'', AStr (de_SessionID ev)), (''seq'', AInt (de_Seq ev))]
     @ (if lvl \<ge> LevelChunk \<and> de_ByteLen ev > 0
        then [(''byte_len'', AInt (de_ByteLen ev)), (''sha1'', AStr (de_Sha1 ev)),
              (''head_hex'', AStr (de_HeadHex ev)), (''tail_hex'', AStr (de_TailHex ev))]
        else [])
     @ (if lvl \<ge> LevelFull \<and> de_FullHex ev \<noteq> [] then [(''full_hex'', AStr (de_FullHex ev))] else [])
     @ (if de_BufferSize ev > 0 then [(''buffer_size'', AInt (de_BufferSize ev))] else [])
     @ (if de_BufferHWM ev > 0 then [(''buffer_hwm'', AInt (de_BufferHWM ev))] else [])
     @ (if de_BufferLWM ev > 0 then [(''buffer_lwm'', AInt (de_BufferLWM ev))] else [])
     @ (if de_Paused ev then [(''paused'', ABool True)] else [])
     @ (if de_Cols ev > 0 then [(''cols'', AInt (de_Cols ev))] else [])
     @ (if de_Rows ev > 0 then [(''rows'', AInt (de_Rows ev))] else [])
     @ (if de_ExitCode ev \<noteq> 0 then [(''exit_code'', AInt (de_ExitCode ev))] else [])
     @ (if de_Error ev \<noteq> [] then [(''error'', AStr (de_Error ev))] else [])"

definition Emit :: "DebugEvent \<Rightarrow> tracer \<Rightarrow> tracer" where
  "Emit ev t =
     (case t of
        None \<Rightarrow> None
      | Some s \<Rightarrow>
          if \<not> Enabled t then t
          else Some (s\<lparr>tr_lines := tr_lines s @ [(stage_name (de_Stage ev), event_attrs (tr_level s) ev)]\<rparr>))"

text \<open>\<^verbatim>\<open>NextSeq\<close> and \<^verbatim>\<open>ResetSeq\<close> dereference the tracer: a nil tracer panics (\<open>None\<close>).\<close>

definition NextSeq :: "tracer \<Rightarrow> bytes \<Rightarrow> (int \<times> tracer) option" where
  "NextSeq t sid =
     (case t of
        None \<Rightarrow> None
      | Some s \<Rightarrow>
          let n = wrap64 ((case gm_get (tr_seqs s) sid of None \<Rightarrow> 0 | Some v \<Rightarrow> v) + 1)
          in Some (n, Some (s\<lparr>tr_seqs := gm_put sid n (tr_seqs s)\<rparr>)))"

definition ResetSeq :: "tracer \<Rightarrow> bytes \<Rightarrow> tracer option" where
  "ResetSeq t sid =
     (case t of None \<Rightarrow> None | Some s \<Rightarrow> Some (Some (s\<lparr>tr_seqs := gm_del sid (tr_seqs s)\<rparr>)))"

section \<open>Environment configuration (env.go)\<close>

definition ClampLevel :: "int \<Rightarrow> Level" where
  "ClampLevel n = (if n < 0 then LevelOff else if n > LevelFull then LevelFull else n)"

record EnvConfig =
  ec_Enabled :: bool
  ec_Path :: bytes
  ec_Level :: Level
  ec_MaxSizeMB :: int
  ec_MaxFiles :: int

text \<open>
  \<^verbatim>\<open>os.Getenv\<close> is the parameter \<open>env\<close> (empty when unset), \<^verbatim>\<open>defaultLogPath()\<close> the parameter \<open>deflt\<close>.
\<close>

definition ReadEnv :: "(bytes \<Rightarrow> bytes) \<Rightarrow> bytes \<Rightarrow> EnvConfig" where
  "ReadEnv env deflt =
     (let path = env ''WMUX_DEBUG_PATH''; debug = env ''WMUX_DEBUG'';
          cfg = \<lparr>ec_Enabled = False, ec_Path = [], ec_Level = 0, ec_MaxSizeMB = 50, ec_MaxFiles = 7\<rparr>
      in if path = [] \<and> debug \<noteq> ''1'' then cfg
         else
           let lvl = env ''WMUX_DEBUG_LEVEL'';
               sz = env ''WMUX_DEBUG_MAX_SIZE_MB'';
               fl = env ''WMUX_DEBUG_MAX_FILES''
           in \<lparr>ec_Enabled = True,
               ec_Path = (if path \<noteq> [] then path else deflt),
               ec_Level = (if lvl \<noteq> [] \<and> snd (Atoi lvl) = None then ClampLevel (fst (Atoi lvl))
                           else LevelChunk),
               ec_MaxSizeMB = (if sz \<noteq> [] \<and> snd (Atoi sz) = None \<and> fst (Atoi sz) > 0
                               then fst (Atoi sz) else 50),
               ec_MaxFiles = (if fl \<noteq> [] \<and> snd (Atoi fl) = None \<and> fst (Atoi fl) > 0
                              then fst (Atoi fl) else 7)\<rparr>)"

section \<open>Properties\<close>

lemma Emit_None [simp]: "Emit ev None = None"
  by (simp add: Emit_def)

lemma Emit_disabled: "\<not> Enabled t \<Longrightarrow> Emit ev t = t"
  by (auto simp: Emit_def split: option.splits)

lemma Enabled_Emit [simp]: "Enabled (Emit ev t) = Enabled t"
  by (auto simp: Emit_def Enabled_def split: option.splits)

lemma ClampLevel_range: "LevelOff \<le> ClampLevel n \<and> ClampLevel n \<le> LevelFull"
  by (simp add: ClampLevel_def LevelOff_def LevelFull_def)

text \<open>The sequence numbers of a session are 1, 2, 3, and so on, and independent of other sessions.\<close>

fun next_seqs :: "nat \<Rightarrow> tracer \<Rightarrow> bytes \<Rightarrow> int list" where
  "next_seqs 0 t sid = []"
| "next_seqs (Suc n) t sid =
     (case NextSeq t sid of None \<Rightarrow> [] | Some (v, t') \<Rightarrow> v # next_seqs n t' sid)"

lemma next_seqs_counts:
  assumes "t = Some s" and "gm_get (tr_seqs s) sid = v" and "c = (case v of None \<Rightarrow> 0 | Some x \<Rightarrow> x)"
    and "0 \<le> c" and "c + int n < 2 ^ 63"
  shows "next_seqs n t sid = map (\<lambda>i. c + 1 + int i) [0..<n]"
  using assms
proof (induction n arbitrary: t s v c)
  case (Suc n)
  have w: "wrap64 (c + 1) = c + 1"
    using Suc.prems by (intro wrap64_id) (simp add: in_int64_def)
  let ?s' = "s\<lparr>tr_seqs := gm_put sid (c + 1) (tr_seqs s)\<rparr>"
  have "NextSeq t sid = Some (c + 1, Some ?s')"
    using Suc.prems w by (simp add: NextSeq_def Let_def)
  moreover have "next_seqs n (Some ?s') sid = map (\<lambda>i. (c + 1) + 1 + int i) [0..<n]"
    using Suc.prems by (intro Suc.IH [where s = ?s' and v = "Some (c + 1)"]) auto
  ultimately show ?case
    by (simp add: upt_conv_Cons map_Suc_upt [symmetric] algebra_simps del: upt_Suc)
qed simp

end
