(* ===== verification/OutputBuffer.thy ===== *)
theory OutputBuffer
  imports Debug
begin

text \<open>
  The per-session output buffer with high/low watermark backpressure
  (\<^verbatim>\<open>internal/session/backpressure.go\<close>).

  The Go code recycles backing arrays: a drained array is handed to the caller, kept as
  \<^verbatim>\<open>inFlight\<close>, becomes \<^verbatim>\<open>spare\<close> one drain later and is overwritten by the write after that. The
  model therefore has an explicit heap of backing arrays, and slices that point into it; the
  abstract buffer at the end forgets the heap, and the refinement lemmas connect the two.
\<close>

section \<open>Slices and backing arrays\<close>

record heap =
  h_next :: nat
  h_arr :: "nat \<Rightarrow> bytes"

record slice =
  sl_arr :: nat
  sl_off :: nat
  sl_len :: nat

definition h_empty :: heap where
  "h_empty = \<lparr>h_next = 0, h_arr = (\<lambda>_. [])\<rparr>"

definition sl_bytes :: "heap \<Rightarrow> slice \<Rightarrow> bytes" where
  "sl_bytes h s = take (sl_len s) (drop (sl_off s) (h_arr h (sl_arr s)))"

text \<open>A nil slice is \<open>None\<close>; it reads as no bytes.\<close>

definition so_bytes :: "heap \<Rightarrow> slice option \<Rightarrow> bytes" where
  "so_bytes h so = (case so of None \<Rightarrow> [] | Some s \<Rightarrow> sl_bytes h s)"

definition so_len :: "slice option \<Rightarrow> nat" where
  "so_len so = (case so of None \<Rightarrow> 0 | Some s \<Rightarrow> sl_len s)"

text \<open>A fresh array holding \<open>bs\<close>, with \<open>extra\<close> further bytes of capacity.\<close>

definition alloc :: "heap \<Rightarrow> bytes \<Rightarrow> nat \<Rightarrow> slice \<times> heap" where
  "alloc h bs extra =
     (\<lparr>sl_arr = h_next h, sl_off = 0, sl_len = length bs\<rparr>,
      h\<lparr>h_next := Suc (h_next h),
        h_arr := (h_arr h)(h_next h := bs @ replicate extra (CHR 0x00))\<rparr>)"

text \<open>
  \<^verbatim>\<open>append(s, p...)\<close>: in place when the capacity suffices, otherwise into a fresh array. How much
  spare capacity a fresh array gets is up to the Go runtime: the parameter \<open>grow\<close>.
\<close>

definition go_append :: "(nat \<Rightarrow> nat) \<Rightarrow> heap \<Rightarrow> slice option \<Rightarrow> bytes \<Rightarrow> slice option \<times> heap" where
  "go_append grow h so p =
     (case so of
        None \<Rightarrow> if p = [] then (None, h)
                else (case alloc h p (grow (length p)) of (s, h') \<Rightarrow> (Some s, h'))
      | Some s \<Rightarrow>
          let a = h_arr h (sl_arr s); e = sl_off s + sl_len s in
          if e + length p \<le> length a
          then (Some (s\<lparr>sl_len := sl_len s + length p\<rparr>),
                h\<lparr>h_arr := (h_arr h)(sl_arr s := take e a @ p @ drop (e + length p) a)\<rparr>)
          else (case alloc h (sl_bytes h s @ p) (grow (sl_len s + length p)) of
                  (s', h') \<Rightarrow> (Some s', h')))"

section \<open>The buffer\<close>

record Buffer =
  b_data :: "slice option"
  inFlight :: "slice option"
  spare :: "slice option"
  highWatermark :: int
  lowWatermark :: int
  paused :: bool
  b_sessionID :: bytes

definition newBuffer :: "int \<Rightarrow> int \<Rightarrow> bytes \<Rightarrow> Buffer" where
  "newBuffer hwm lwm sid =
     \<lparr>b_data = None, inFlight = None, spare = None, highWatermark = hwm, lowWatermark = lwm,
      paused = False, b_sessionID = sid\<rparr>"

definition checkResume :: "Buffer \<Rightarrow> nat \<Rightarrow> Buffer" where
  "checkResume b remaining =
     (if paused b \<and> int remaining < lowWatermark b then b\<lparr>paused := False\<rparr> else b)"

text \<open>The state an operation works on: the buffer, the heap, and the shared tracer.\<close>

type_synonym bstate = "Buffer \<times> heap \<times> tracer"

definition Buffer_Write :: "(nat \<Rightarrow> nat) \<Rightarrow> bytes \<Rightarrow> bstate \<Rightarrow> nat \<times> bstate" where
  "Buffer_Write grow p = (\<lambda>(b, h, t).
     let b1 = (if so_len (b_data b) = 0 \<and> spare b \<noteq> None
               then b\<lparr>b_data := map_option (\<lambda>s. s\<lparr>sl_len := 0\<rparr>) (spare b), spare := None\<rparr>
               else b);
         (d, h1) = go_append grow h (b_data b1) p;
         b2 = b1\<lparr>b_data := d\<rparr>;
         wasPaused = paused b2;
         b3 = (if int (so_len d) \<ge> highWatermark b2 then b2\<lparr>paused := True\<rparr> else b2);
         t1 = (if Enabled t
               then Emit ((dbg (b_sessionID b3) StageBufferAppend)
                            \<lparr>de_ByteLen := int (length p), de_BufferSize := int (so_len d),
                             de_BufferHWM := highWatermark b3\<rparr>) t
               else t);
         t2 = (if Enabled t \<and> \<not> wasPaused \<and> paused b3
               then Emit ((dbg (b_sessionID b3) StageBufferPause)
                            \<lparr>de_BufferSize := int (so_len d), de_BufferHWM := highWatermark b3,
                             de_Paused := True\<rparr>) t1
               else t1)
     in (length p, (b3, h1, t2)))"

definition flush_trace :: "Buffer \<Rightarrow> bool \<Rightarrow> nat \<Rightarrow> nat \<Rightarrow> tracer \<Rightarrow> tracer" where
  "flush_trace b wasPaused outLen remaining t =
     (if \<not> Enabled t then t
      else let t1 = Emit ((dbg (b_sessionID b) StageBufferFlush)
                            \<lparr>de_ByteLen := int outLen, de_BufferSize := int remaining\<rparr>) t
           in if wasPaused \<and> \<not> paused b
              then Emit ((dbg (b_sessionID b) StageBufferResume)
                           \<lparr>de_BufferSize := int remaining, de_BufferLWM := lowWatermark b\<rparr>) t1
              else t1)"

definition Buffer_Read :: "bstate \<Rightarrow> slice option \<times> bstate" where
  "Buffer_Read = (\<lambda>(b, h, t).
     if so_len (b_data b) = 0 then (None, (b, h, t))
     else let out = b_data b;
              b1 = b\<lparr>spare := inFlight b, inFlight := out, b_data := None\<rparr>;
              wasPaused = paused b1;
              b2 = checkResume b1 0
          in (out, (b2, h, flush_trace b2 wasPaused (so_len out) 0 t)))"

text \<open>\<^verbatim>\<open>ReadN\<close>; a negative count makes \<^verbatim>\<open>make([]byte, n)\<close> panic, the outer \<open>None\<close>.\<close>

definition Buffer_ReadN :: "int \<Rightarrow> bstate \<Rightarrow> (slice option \<times> bstate) option" where
  "Buffer_ReadN n = (\<lambda>(b, h, t).
     if so_len (b_data b) = 0 then Some (None, (b, h, t))
     else if n \<ge> int (so_len (b_data b)) then
       (let out = b_data b;
            b1 = b\<lparr>spare := inFlight b, inFlight := out, b_data := None\<rparr>;
            b2 = checkResume b1 0
        in Some (out, (b2, h, flush_trace b2 (paused b1) (so_len out) 0 t)))
     else if n < 0 then None
     else case b_data b of
       None \<Rightarrow> None
     | Some s \<Rightarrow>
        (let (out, h1) = alloc h (take (nat n) (sl_bytes h s)) 0;
             d = s\<lparr>sl_off := sl_off s + nat n, sl_len := sl_len s - nat n\<rparr>;
             b1 = b\<lparr>b_data := Some d\<rparr>;
             b2 = checkResume b1 (sl_len d)
         in Some (Some out, (b2, h1, flush_trace b2 (paused b1) (sl_len out) (sl_len d) t))))"

definition Paused :: "bstate \<Rightarrow> bool" where
  "Paused = (\<lambda>(b, h, t). paused b)"

definition Len :: "bstate \<Rightarrow> nat" where
  "Len = (\<lambda>(b, h, t). so_len (b_data b))"

section \<open>Well-formed buffers\<close>

definition sl_ok :: "heap \<Rightarrow> slice \<Rightarrow> bool" where
  "sl_ok h s \<longleftrightarrow> sl_arr s < h_next h \<and> sl_off s + sl_len s \<le> length (h_arr h (sl_arr s))"

definition so_arrs :: "slice option \<Rightarrow> nat set" where
  "so_arrs so = (case so of None \<Rightarrow> {} | Some s \<Rightarrow> {sl_arr s})"

definition so_ok :: "heap \<Rightarrow> slice option \<Rightarrow> bool" where
  "so_ok h so \<longleftrightarrow> (case so of None \<Rightarrow> True | Some s \<Rightarrow> sl_ok h s)"

text \<open>The three slices are valid and live in different backing arrays.\<close>

definition buf_ok :: "Buffer \<Rightarrow> heap \<Rightarrow> bool" where
  "buf_ok b h \<longleftrightarrow>
     so_ok h (b_data b) \<and> so_ok h (inFlight b) \<and> so_ok h (spare b) \<and>
     so_arrs (b_data b) \<inter> so_arrs (inFlight b) = {} \<and>
     so_arrs (b_data b) \<inter> so_arrs (spare b) = {} \<and>
     so_arrs (inFlight b) \<inter> so_arrs (spare b) = {}"

text \<open>
  \<open>heap_ext h h' A\<close>: going from \<open>h\<close> to \<open>h'\<close> may allocate and may change the arrays in \<open>A\<close> (not
  their length), and nothing else.
\<close>

definition heap_ext :: "heap \<Rightarrow> heap \<Rightarrow> nat set \<Rightarrow> bool" where
  "heap_ext h h' A \<longleftrightarrow>
     h_next h \<le> h_next h' \<and>
     (\<forall>a < h_next h. a \<notin> A \<longrightarrow> h_arr h' a = h_arr h a) \<and>
     (\<forall>a < h_next h. length (h_arr h' a) = length (h_arr h a))"

lemma heap_ext_refl [simp]: "heap_ext h h A"
  by (simp add: heap_ext_def)

lemma heap_ext_trans: "heap_ext h h1 A \<Longrightarrow> heap_ext h1 h2 B \<Longrightarrow> heap_ext h h2 (A \<union> B)"
  by (fastforce simp: heap_ext_def)

lemma heap_ext_mono: "heap_ext h h' A \<Longrightarrow> A \<subseteq> B \<Longrightarrow> heap_ext h h' B"
  by (auto simp: heap_ext_def)

lemma so_ok_ext: "so_ok h so \<Longrightarrow> heap_ext h h' A \<Longrightarrow> so_ok h' so"
  by (auto simp: so_ok_def sl_ok_def heap_ext_def split: option.splits)

lemma so_bytes_ext:
  "so_ok h so \<Longrightarrow> heap_ext h h' A \<Longrightarrow> so_arrs so \<inter> A = {} \<Longrightarrow> so_bytes h' so = so_bytes h so"
  by (auto simp: so_ok_def sl_ok_def heap_ext_def so_bytes_def sl_bytes_def so_arrs_def
      split: option.splits)

lemma length_so_bytes: "so_ok h so \<Longrightarrow> length (so_bytes h so) = so_len so"
  by (auto simp: so_ok_def sl_ok_def so_bytes_def sl_bytes_def so_len_def split: option.splits)

lemma alloc_spec:
  assumes "alloc h bs x = (s, h')"
  shows "sl_bytes h' s = bs" "sl_len s = length bs" "sl_arr s = h_next h" "sl_ok h' s"
    "heap_ext h h' {}" "h_next h' = Suc (h_next h)"
  using assms by (auto simp: alloc_def sl_bytes_def sl_ok_def heap_ext_def)

lemma append_in_place_bytes:
  assumes "sl_ok h s" and "e = sl_off s + sl_len s" and "e + length p \<le> length a" and "a = h_arr h (sl_arr s)"
  shows "take (sl_len s + length p) (drop (sl_off s) (take e a @ p @ drop (e + length p) a))
       = sl_bytes h s @ p"
proof -
  have "drop (sl_off s) (take e a) = sl_bytes h s"
    using assms by (simp add: sl_bytes_def drop_take)
  moreover have "length (sl_bytes h s) = sl_len s"
    using assms by (simp add: sl_bytes_def sl_ok_def)
  moreover have "sl_off s \<le> length (take e a)" using assms by simp
  ultimately show ?thesis by simp
qed

lemma go_append_spec:
  assumes "so_ok h so" and "go_append grow h so p = (d, h')"
  shows "so_bytes h' d = so_bytes h so @ p"
    and "so_ok h' d"
    and "heap_ext h h' (so_arrs so)"
    and "so_arrs d \<subseteq> so_arrs so \<union> {h_next h ..< h_next h'}"
proof -
  have "so_bytes h' d = so_bytes h so @ p \<and> so_ok h' d \<and> heap_ext h h' (so_arrs so)
      \<and> so_arrs d \<subseteq> so_arrs so \<union> {h_next h ..< h_next h'}"
  proof (cases so)
    case None
    with assms show ?thesis
      by (auto simp: go_append_def so_bytes_def so_ok_def so_arrs_def alloc_spec
          split: if_splits prod.splits)
  next
    case (Some s)
    show ?thesis
    proof (cases "sl_off s + sl_len s + length p \<le> length (h_arr h (sl_arr s))")
      case True
      with assms Some have d: "d = Some (s\<lparr>sl_len := sl_len s + length p\<rparr>)"
        and h': "h' = h\<lparr>h_arr := (h_arr h)(sl_arr s :=
          take (sl_off s + sl_len s) (h_arr h (sl_arr s)) @ p
          @ drop (sl_off s + sl_len s + length p) (h_arr h (sl_arr s)))\<rparr>"
        by (auto simp: go_append_def Let_def)
      have ok: "sl_ok h s" using assms(1) Some by (simp add: so_ok_def)
      then have "length (sl_bytes h s) = sl_len s" by (auto simp: sl_bytes_def sl_ok_def)
      with ok True show ?thesis
        using append_in_place_bytes [of h s _ p, OF _ refl _ refl]
        by (auto simp: d h' Some so_bytes_def sl_bytes_def [of "h\<lparr>h_arr := _\<rparr>"] so_ok_def sl_ok_def
            heap_ext_def so_arrs_def)
    next
      case False
      then obtain s' where al: "alloc h (sl_bytes h s @ p) (grow (sl_len s + length p)) = (s', h')"
        and d: "d = Some s'"
        using assms(2) Some by (auto simp: go_append_def Let_def split: prod.splits)
      have "heap_ext h h' {sl_arr s}" using alloc_spec(5) [OF al] by (rule heap_ext_mono) simp
      with alloc_spec [OF al] show ?thesis
        by (simp add: d Some so_bytes_def so_ok_def so_arrs_def)
    qed
  qed
  then show "so_bytes h' d = so_bytes h so @ p" "so_ok h' d" "heap_ext h h' (so_arrs so)"
    "so_arrs d \<subseteq> so_arrs so \<union> {h_next h ..< h_next h'}" by blast+
qed

section \<open>The abstract buffer\<close>

text \<open>
  What clients of the buffer rely on: a byte queue with a pause flag. \<open>a_ReadN\<close> takes a
  non-negative count, and reading an empty queue returns no bytes.
\<close>

record abuf =
  a_data :: bytes
  a_high :: int
  a_low :: int
  a_paused :: bool

definition a_new :: "int \<Rightarrow> int \<Rightarrow> abuf" where
  "a_new hwm lwm = \<lparr>a_data = [], a_high = hwm, a_low = lwm, a_paused = False\<rparr>"

definition a_write :: "bytes \<Rightarrow> abuf \<Rightarrow> abuf" where
  "a_write p a =
     (let d = a_data a @ p
      in a\<lparr>a_data := d, a_paused := (a_paused a \<or> int (length d) \<ge> a_high a)\<rparr>)"

definition a_readn :: "nat \<Rightarrow> abuf \<Rightarrow> bytes \<times> abuf" where
  "a_readn n a =
     (if a_data a = [] then ([], a)
      else let rest = drop n (a_data a)
           in (take n (a_data a),
               a\<lparr>a_data := rest, a_paused := (a_paused a \<and> \<not> int (length rest) < a_low a)\<rparr>))"

definition a_read :: "abuf \<Rightarrow> bytes \<times> abuf" where
  "a_read a = a_readn (length (a_data a)) a"

definition buf_abs :: "bstate \<Rightarrow> abuf" where
  "buf_abs = (\<lambda>(b, h, t).
     \<lparr>a_data = so_bytes h (b_data b), a_high = highWatermark b, a_low = lowWatermark b,
      a_paused = paused b\<rparr>)"

definition bst_ok :: "bstate \<Rightarrow> bool" where
  "bst_ok = (\<lambda>(b, h, t). buf_ok b h)"

lemma so_bytes_None [simp]: "so_bytes h None = []"
  by (simp add: so_bytes_def)

lemma so_len_0_bytes: "so_ok h so \<Longrightarrow> so_len so = 0 \<longleftrightarrow> so_bytes h so = []"
  using length_so_bytes [of h so] by auto

text \<open>The slice a write appends to: the current data, or the recycled spare cut to length zero.\<close>

definition write_target :: "Buffer \<Rightarrow> slice option" where
  "write_target b =
     (if so_len (b_data b) = 0 \<and> spare b \<noteq> None
      then map_option (\<lambda>s. s\<lparr>sl_len := 0\<rparr>) (spare b) else b_data b)"

definition write_spare :: "Buffer \<Rightarrow> slice option" where
  "write_spare b = (if so_len (b_data b) = 0 then None else spare b)"

lemma Buffer_Write_eq:
  assumes "go_append grow h (write_target b) p = (d, h')"
  shows "\<exists>t'. Buffer_Write grow p (b, h, t) =
     (length p, (b\<lparr>b_data := d, spare := write_spare b,
                   paused := (paused b \<or> int (so_len d) \<ge> highWatermark b)\<rparr>, h', t'))"
  using assms
  by (cases "spare b") (auto simp: Buffer_Write_def write_target_def write_spare_def Let_def)

lemma write_target_facts:
  assumes "buf_ok b h"
  shows "so_ok h (write_target b)"
    and "so_bytes h (write_target b) = so_bytes h (b_data b)"
    and "so_arrs (write_target b) \<inter> so_arrs (inFlight b) = {}"
    and "so_arrs (write_target b) \<inter> so_arrs (write_spare b) = {}"
    and "so_ok h (write_spare b)"
    and "so_arrs (inFlight b) \<inter> so_arrs (write_spare b) = {}"
  using assms
  by (auto simp: buf_ok_def write_target_def write_spare_def so_ok_def sl_ok_def so_arrs_def
      so_bytes_def sl_bytes_def so_len_def split: option.splits)

lemma so_arrs_lt: "so_ok h so \<Longrightarrow> a \<in> so_arrs so \<Longrightarrow> a < h_next h"
  by (auto simp: so_ok_def sl_ok_def so_arrs_def split: option.splits)

text \<open>
  One write: the invariant is kept, the abstract buffer does the abstract write, and no array but
  the one written to (never \<^verbatim>\<open>inFlight\<close>) is touched.
\<close>

lemma Buffer_Write_spec:
  assumes ok: "buf_ok b h"
  obtains b' h' t' where
    "Buffer_Write grow p (b, h, t) = (length p, (b', h', t'))"
    "buf_ok b' h'" "buf_abs (b', h', t') = a_write p (buf_abs (b, h, t))"
    "inFlight b' = inFlight b" "heap_ext h h' (so_arrs (write_target b))"
proof -
  note wt = write_target_facts [OF ok]
  obtain d h' where app: "go_append grow h (write_target b) p = (d, h')" by fastforce
  note spec = go_append_spec [OF wt(1) app]
  obtain t' where w: "Buffer_Write grow p (b, h, t) =
     (length p, (b\<lparr>b_data := d, spare := write_spare b,
                   paused := (paused b \<or> int (so_len d) \<ge> highWatermark b)\<rparr>, h', t'))"
    using Buffer_Write_eq [OF app] by blast
  have sep: "so_arrs d \<inter> so_arrs so = {}"
    if "so_ok h so" "so_arrs (write_target b) \<inter> so_arrs so = {}" for so
    using spec(4) that so_arrs_lt [OF that(1)] by fastforce
  have ifl: "so_ok h (inFlight b)" using ok by (simp add: buf_ok_def)
  have "buf_ok (b\<lparr>b_data := d, spare := write_spare b, paused := pz\<rparr>) h'" for pz
    using spec wt sep ifl by (auto simp: buf_ok_def intro: so_ok_ext)
  moreover have "int (so_len d) = int (length (so_bytes h (b_data b) @ p))"
    using spec(1,2) wt(2) length_so_bytes [of h' d] by simp
  ultimately show ?thesis
    using w spec wt by (intro that [OF w]) (auto simp: buf_abs_def a_write_def Let_def)
qed

lemma checkResume_simps [simp]:
  "b_data (checkResume b n) = b_data b" "inFlight (checkResume b n) = inFlight b"
  "spare (checkResume b n) = spare b" "highWatermark (checkResume b n) = highWatermark b"
  "lowWatermark (checkResume b n) = lowWatermark b"
  "paused (checkResume b n) = (paused b \<and> \<not> int n < lowWatermark b)"
  by (auto simp: checkResume_def)

lemma Buffer_Read_spec:
  assumes ok: "buf_ok b h"
  obtains b' t' out where
    "Buffer_Read (b, h, t) = (out, (b', h, t'))" "buf_ok b' h"
    "(so_bytes h out, buf_abs (b', h, t')) = a_read (buf_abs (b, h, t))"
    "so_bytes h (b_data b) \<noteq> [] \<Longrightarrow> inFlight b' = out \<and> spare b' = inFlight b"
    "so_ok h out"
proof -
  have d: "so_ok h (b_data b)" using ok by (simp add: buf_ok_def)
  show ?thesis
  proof (cases "so_len (b_data b) = 0")
    case True
    with d ok show ?thesis
      by (intro that [of None b t])
         (auto simp: Buffer_Read_def a_read_def a_readn_def buf_abs_def so_len_0_bytes so_ok_def)
  next
    case False
    let ?b1 = "b\<lparr>spare := inFlight b, inFlight := b_data b, b_data := None\<rparr>"
    let ?b2 = "checkResume ?b1 0"
    have "Buffer_Read (b, h, t) = (b_data b, (?b2, h, flush_trace ?b2 (paused ?b1) (so_len (b_data b)) 0 t))"
      using False by (simp add: Buffer_Read_def Let_def)
    moreover have "buf_ok ?b2 h"
      using ok by (auto simp: buf_ok_def so_ok_def so_arrs_def split: option.splits)
    ultimately show ?thesis
      using False d ok
      by (intro that [of "b_data b" ?b2])
         (auto simp: a_read_def a_readn_def buf_abs_def so_len_0_bytes)
  qed
qed

lemma Buffer_ReadN_spec:
  assumes ok: "buf_ok b h" and n: "0 \<le> n"
  obtains b' h' t' out where
    "Buffer_ReadN n (b, h, t) = Some (out, (b', h', t'))" "buf_ok b' h'"
    "(so_bytes h' out, buf_abs (b', h', t')) = a_readn (nat n) (buf_abs (b, h, t))"
    "heap_ext h h' {}"
proof -
  have d: "so_ok h (b_data b)" using ok by (simp add: buf_ok_def)
  note len = length_so_bytes [OF d]
  consider (empty) "so_len (b_data b) = 0"
    | (all) "so_len (b_data b) \<noteq> 0" "n \<ge> int (so_len (b_data b))"
    | (part) "n < int (so_len (b_data b))" by linarith
  then show ?thesis
  proof cases
    case empty
    with d ok show ?thesis
      by (intro that [of None b h t])
         (auto simp: Buffer_ReadN_def a_readn_def buf_abs_def so_len_0_bytes)
  next
    case all
    let ?b1 = "b\<lparr>spare := inFlight b, inFlight := b_data b, b_data := None\<rparr>"
    let ?b2 = "checkResume ?b1 0"
    have "buf_ok ?b2 h"
      using ok by (auto simp: buf_ok_def so_ok_def so_arrs_def split: option.splits)
    with all d len show ?thesis
      by (intro that [of "b_data b" ?b2 h])
         (auto simp: Buffer_ReadN_def Let_def a_readn_def buf_abs_def so_len_0_bytes)
  next
    case part
    then obtain s where s: "b_data b = Some s" by (cases "b_data b") (use n in \<open>auto simp: so_len_def\<close>)
    obtain out h1 where al: "alloc h (take (nat n) (sl_bytes h s)) 0 = (out, h1)" by fastforce
    note spec = alloc_spec [OF al]
    let ?d = "s\<lparr>sl_off := sl_off s + nat n, sl_len := sl_len s - nat n\<rparr>"
    let ?b2 = "checkResume (b\<lparr>b_data := Some ?d\<rparr>) (sl_len ?d)"
    have sok: "sl_ok h s" and lens: "nat n < sl_len s"
      using d s part n by (auto simp: so_ok_def so_len_def)
    have bytes: "sl_bytes h1 ?d = drop (nat n) (sl_bytes h s)"
      using sok lens spec(5)
      by (auto simp: sl_bytes_def sl_ok_def heap_ext_def drop_take add.commute)
    have "buf_ok ?b2 h1"
      using ok s sok lens spec(5) so_ok_ext [OF _ spec(5)]
      by (auto simp: buf_ok_def so_ok_def sl_ok_def heap_ext_def so_arrs_def split: option.splits)
    moreover have "length (sl_bytes h s) = sl_len s"
      using len s by (simp add: so_bytes_def so_len_def)
    ultimately show ?thesis
      using part n s al spec bytes lens
      by (intro that [of "Some out" ?b2 h1])
         (auto simp: Buffer_ReadN_def Let_def a_readn_def buf_abs_def so_bytes_def so_len_def)
  qed
qed

section \<open>The queue interface\<close>

text \<open>
  The contract the session and the daemon rely on: bytes leave in the order they entered, none
  lost, none invented. A request \<open>Some p\<close> writes \<open>p\<close>, \<open>None\<close> drains.
\<close>

locale byte_queue =
  fixes wr :: "bytes \<Rightarrow> 'q \<Rightarrow> 'q"
    and rd :: "'q \<Rightarrow> bytes \<times> 'q"
    and content :: "'q \<Rightarrow> bytes"
    and ok :: "'q \<Rightarrow> bool"
  assumes wr_ok: "ok q \<Longrightarrow> ok (wr p q)"
    and wr_content: "ok q \<Longrightarrow> content (wr p q) = content q @ p"
    and rd_ok: "ok q \<Longrightarrow> ok (snd (rd q))"
    and rd_out: "ok q \<Longrightarrow> fst (rd q) = content q"
    and rd_content: "ok q \<Longrightarrow> content (snd (rd q)) = []"
begin

fun run_queue :: "'q \<Rightarrow> bytes option list \<Rightarrow> bytes \<times> 'q" where
  "run_queue q [] = ([], q)"
| "run_queue q (Some p # rs) = run_queue (wr p q) rs"
| "run_queue q (None # rs) = (case run_queue (snd (rd q)) rs of (out, q') \<Rightarrow> (fst (rd q) @ out, q'))"

lemma run_queue_fifo:
  "ok q \<Longrightarrow> run_queue q rs = (out, q') \<Longrightarrow>
   ok q' \<and> content q @ concat (List.map_filter (\<lambda>r. r) rs) = out @ content q'"
proof (induction rs arbitrary: q out)
  case Nil
  then show ?case by (simp add: List.map_filter_simps)
next
  case (Cons r rs)
  then show ?case
  proof (cases r)
    case (Some p)
    with Cons.IH [of "wr p q" out] Cons.prems show ?thesis
      by (simp add: List.map_filter_simps wr_ok wr_content)
  next
    case None
    obtain out' where "run_queue (snd (rd q)) rs = (out', q')" and "out = content q @ out'"
      using Cons.prems None by (auto simp: rd_out split: prod.splits)
    with Cons.IH [of "snd (rd q)" out'] Cons.prems None show ?thesis
      by (simp add: List.map_filter_simps rd_ok rd_content)
  qed
qed

end

definition cb_write :: "(nat \<Rightarrow> nat) \<Rightarrow> bytes \<Rightarrow> bstate \<Rightarrow> bstate" where
  "cb_write grow p st = snd (Buffer_Write grow p st)"

text \<open>A drain as its caller sees it: the bytes behind the returned slice.\<close>

definition cb_read :: "bstate \<Rightarrow> bytes \<times> bstate" where
  "cb_read st = (case Buffer_Read st of (out, (b, h, t)) \<Rightarrow> (so_bytes h out, (b, h, t)))"

definition cb_content :: "bstate \<Rightarrow> bytes" where
  "cb_content st = a_data (buf_abs st)"

lemma cb_write_refines:
  assumes "bst_ok st"
  shows "bst_ok (cb_write grow p st) \<and> buf_abs (cb_write grow p st) = a_write p (buf_abs st)"
proof -
  obtain b h t where st: "st = (b, h, t)" by (cases st)
  from assms have "buf_ok b h" by (simp add: bst_ok_def st)
  then obtain b' h' t' where "Buffer_Write grow p (b, h, t) = (length p, (b', h', t'))" "buf_ok b' h'"
    "buf_abs (b', h', t') = a_write p (buf_abs (b, h, t))"
    by (rule Buffer_Write_spec [where grow = grow and p = p and t = t])
  then show ?thesis by (simp add: st cb_write_def bst_ok_def)
qed

lemma cb_read_refines:
  assumes "bst_ok st"
  shows "bst_ok (snd (cb_read st))" and "(fst (cb_read st), buf_abs (snd (cb_read st))) = a_read (buf_abs st)"
proof -
  obtain b h t where st: "st = (b, h, t)" by (cases st)
  from assms have "buf_ok b h" by (simp add: bst_ok_def st)
  then obtain b' t' out where r: "Buffer_Read (b, h, t) = (out, (b', h, t'))" "buf_ok b' h"
    "(so_bytes h out, buf_abs (b', h, t')) = a_read (buf_abs (b, h, t))"
    by (rule Buffer_Read_spec [where t = t])
  then show "bst_ok (snd (cb_read st))" "(fst (cb_read st), buf_abs (snd (cb_read st))) = a_read (buf_abs st)"
    by (simp_all add: st cb_read_def bst_ok_def)
qed

lemma a_read_simps [simp]:
  "fst (a_read a) = a_data a" "a_data (snd (a_read a)) = []"
  by (simp_all add: a_read_def a_readn_def)

lemma a_write_data [simp]: "a_data (a_write p a) = a_data a @ p"
  by (simp add: a_write_def Let_def)

interpretation abuf_q: byte_queue a_write a_read a_data "\<lambda>_. True"
  by unfold_locales auto

interpretation buffer_q: byte_queue "cb_write grow" cb_read cb_content bst_ok
proof unfold_locales
  fix q p assume ok: "bst_ok q"
  note r = cb_read_refines [OF ok]
  from ok show "bst_ok (cb_write grow p q)" "cb_content (cb_write grow p q) = cb_content q @ p"
    by (auto simp: cb_content_def cb_write_refines)
  from r show "bst_ok (snd (cb_read q))" "fst (cb_read q) = cb_content q" "cb_content (snd (cb_read q)) = []"
    by (metis a_read_simps cb_content_def fst_conv snd_conv)+
qed

section \<open>Recycling is safe for two drains\<close>

lemma writes_keep_in_flight:
  assumes "buf_ok b h"
  shows "\<exists>b' h' t'. fold (cb_write grow) ps (b, h, t) = (b', h', t') \<and> buf_ok b' h'
       \<and> inFlight b' = inFlight b \<and> so_bytes h' (inFlight b) = so_bytes h (inFlight b)
       \<and> so_ok h' (inFlight b)"
  using assms
proof (induction ps arbitrary: b h t)
  case Nil
  then show ?case by (simp add: buf_ok_def)
next
  case (Cons p ps)
  obtain b1 h1 t1 where w: "Buffer_Write grow p (b, h, t) = (length p, (b1, h1, t1))" "buf_ok b1 h1"
    "inFlight b1 = inFlight b" "heap_ext h h1 (so_arrs (write_target b))"
    by (rule Buffer_Write_spec [OF Cons.prems, where grow = grow and p = p and t = t])
  have "so_bytes h1 (inFlight b) = so_bytes h (inFlight b)"
    using Cons.prems w(4) write_target_facts(3) [OF Cons.prems]
    by (intro so_bytes_ext) (auto simp: buf_ok_def)
  with w Cons.IH [OF w(2), of t1] show ?case by (simp add: cb_write_def)
qed

section \<open>Backpressure\<close>

text \<open>
  Hysteresis: a running buffer is below the high watermark, a paused one holds at least the low
  watermark (so there is something to drain, and draining it resumes the reader).
\<close>

definition pressure_ok :: "abuf \<Rightarrow> bool" where
  "pressure_ok a \<longleftrightarrow> 0 < a_low a \<and> a_low a \<le> a_high a \<and>
     (if a_paused a then a_low a \<le> int (length (a_data a)) else int (length (a_data a)) < a_high a)"

lemma pressure_new: "0 < lwm \<Longrightarrow> lwm \<le> hwm \<Longrightarrow> pressure_ok (a_new hwm lwm)"
  by (simp add: pressure_ok_def a_new_def)

lemma pressure_write: "pressure_ok a \<Longrightarrow> pressure_ok (a_write p a)"
  by (auto simp: pressure_ok_def a_write_def Let_def split: if_splits)

lemma pressure_readn: "pressure_ok a \<Longrightarrow> pressure_ok (snd (a_readn n a))"
  by (auto simp: pressure_ok_def a_readn_def Let_def split: if_splits)

lemma read_resumes: "0 < a_low a \<Longrightarrow> a_data a \<noteq> [] \<Longrightarrow> \<not> a_paused (snd (a_read a))"
  by (simp add: a_read_def a_readn_def)

section \<open>Runs of buffer operations\<close>

datatype buf_op = OpWrite bytes | OpRead | OpReadN nat

text \<open>The bytes each operation returns, read through the heap at the moment it returns.\<close>

fun step_buf :: "(nat \<Rightarrow> nat) \<Rightarrow> buf_op \<Rightarrow> bstate \<Rightarrow> (bytes \<times> bstate) option" where
  "step_buf grow (OpWrite p) st = Some ([], cb_write grow p st)"
| "step_buf grow OpRead st = Some (cb_read st)"
| "step_buf grow (OpReadN n) st =
     map_option (\<lambda>(out, (b, h, t)). (so_bytes h out, (b, h, t))) (Buffer_ReadN (int n) st)"

fun run_buf :: "(nat \<Rightarrow> nat) \<Rightarrow> buf_op list \<Rightarrow> bstate \<Rightarrow> (bytes list \<times> bstate) option" where
  "run_buf grow [] st = Some ([], st)"
| "run_buf grow (op # ops) st =
     (case step_buf grow op st of
        None \<Rightarrow> None
      | Some (out, st1) \<Rightarrow>
          (case run_buf grow ops st1 of None \<Rightarrow> None | Some (outs, st2) \<Rightarrow> Some (out # outs, st2)))"

fun step_abuf :: "buf_op \<Rightarrow> abuf \<Rightarrow> bytes \<times> abuf" where
  "step_abuf (OpWrite p) a = ([], a_write p a)"
| "step_abuf OpRead a = a_read a"
| "step_abuf (OpReadN n) a = a_readn n a"

fun run_abuf :: "buf_op list \<Rightarrow> abuf \<Rightarrow> bytes list \<times> abuf" where
  "run_abuf [] a = ([], a)"
| "run_abuf (op # ops) a =
     (case step_abuf op a of (out, a1) \<Rightarrow> (case run_abuf ops a1 of (outs, a2) \<Rightarrow> (out # outs, a2)))"

lemma step_buf_refines:
  assumes "bst_ok st"
  shows "\<exists>out st'. step_buf grow op st = Some (out, st') \<and> bst_ok st' \<and> (out, buf_abs st') = step_abuf op (buf_abs st)"
proof (cases op)
  case (OpReadN n)
  obtain b h t where st: "st = (b, h, t)" by (cases st)
  from assms have "buf_ok b h" by (simp add: bst_ok_def st)
  then obtain b' h' t' out where "Buffer_ReadN (int n) (b, h, t) = Some (out, (b', h', t'))" "buf_ok b' h'"
    "(so_bytes h' out, buf_abs (b', h', t')) = a_readn (nat (int n)) (buf_abs (b, h, t))"
    by (rule Buffer_ReadN_spec [where n = "int n" and t = t]) simp
  then show ?thesis by (simp add: OpReadN st bst_ok_def)
qed (use assms cb_write_refines cb_read_refines in \<open>auto simp: prod_eq_iff\<close>)

lemma run_buf_refines:
  "bst_ok st \<Longrightarrow>
   \<exists>outs st'. run_buf grow ops st = Some (outs, st') \<and> bst_ok st' \<and> (outs, buf_abs st') = run_abuf ops (buf_abs st)"
proof (induction ops arbitrary: st)
  case (Cons op ops)
  obtain out st1 where s: "step_buf grow op st = Some (out, st1)" "bst_ok st1"
    "(out, buf_abs st1) = step_abuf op (buf_abs st)"
    using step_buf_refines [OF Cons.prems] by blast
  from Cons.IH [OF s(2)] obtain outs st2 where "run_buf grow ops st1 = Some (outs, st2)" "bst_ok st2"
    "(outs, buf_abs st2) = run_abuf ops (buf_abs st1)"
    by blast
  with s show ?case by (auto split: prod.splits)
qed simp

lemma bst_ok_new: "bst_ok (newBuffer hwm lwm sid, h_empty, t)"
  by (simp add: bst_ok_def newBuffer_def buf_ok_def so_ok_def so_arrs_def)

lemma buf_abs_new [simp]: "buf_abs (newBuffer hwm lwm sid, h_empty, t) = a_new hwm lwm"
  by (simp add: buf_abs_def newBuffer_def a_new_def)

lemma step_abuf_pressure: "pressure_ok a \<Longrightarrow> pressure_ok (snd (step_abuf op a))"
  by (cases op) (auto intro: pressure_write pressure_readn simp: a_read_def)

lemma snd_run_abuf_Cons: "snd (run_abuf (op # ops) a) = snd (run_abuf ops (snd (step_abuf op a)))"
  by (simp split: prod.splits)

lemma run_abuf_pressure: "pressure_ok a \<Longrightarrow> pressure_ok (snd (run_abuf ops a))"
  by (induction ops arbitrary: a) (simp_all only: snd_run_abuf_Cons step_abuf_pressure run_abuf.simps(1) snd_conv)

lemma step_abuf_const:
  "a_low (snd (step_abuf op a)) = a_low a" "a_high (snd (step_abuf op a)) = a_high a"
  by (cases op; simp add: a_write_def a_read_def a_readn_def Let_def)+

lemma run_abuf_const: "a_low (snd (run_abuf ops a)) = a_low a \<and> a_high (snd (run_abuf ops a)) = a_high a"
  by (induction ops arbitrary: a) (simp_all add: snd_run_abuf_Cons step_abuf_const del: run_abuf.simps(2))

section \<open>Properties\<close>

text \<open>(C2) The buffer that recycles its backing arrays is indistinguishable from a plain byte queue with a
pause flag: for every sequence of writes, drains and partial reads on a new buffer, whatever
capacity the runtime chooses when it grows a slice, no operation panics and every operation
returns exactly the bytes (and leaves exactly the pause state) of the reference queue.\<close>

theorem buffer_refines_queue:
  "map_option (\<lambda>(outs, st). (outs, buf_abs st)) (run_buf grow ops (newBuffer hwm lwm sid, h_empty, t))
   = Some (run_abuf ops (a_new hwm lwm))"
  using run_buf_refines [OF bst_ok_new, of grow ops hwm lwm sid t] by auto

text \<open>(C17) The slice a drain returns is not overwritten while its caller may still use it: its bytes stay
the same through any number of later writes and through the next drain, although the buffer
recycles backing arrays.\<close>

theorem buffer_drained_slice_stable:
  assumes "bst_ok st" and "Buffer_Read st = (out, st1)"
    and "fold (cb_write grow) ps st1 = (b2, h2, t2)" and "Buffer_Read (b2, h2, t2) = (out2, (b3, h3, t3))"
  shows "so_bytes h2 out = fst (cb_read st) \<and> so_bytes h3 out = fst (cb_read st)"
proof -
  obtain b h t where st: "st = (b, h, t)" by (cases st)
  have ok: "buf_ok b h" using assms(1) by (simp add: st bst_ok_def)
  obtain b1 t1 where r: "Buffer_Read (b, h, t) = (out, (b1, h, t1))" "buf_ok b1 h"
    "so_bytes h (b_data b) \<noteq> [] \<Longrightarrow> inFlight b1 = out" "so_bytes h out = so_bytes h (b_data b)"
    using Buffer_Read_spec [OF ok, where t = t] assms(2) st
    by (smt (verit) a_read_simps(1) buf_abs_def case_prod_conv abuf.select_convs(1) fst_conv prod.inject)
  have h3: "h3 = h2" using assms(4) by (auto simp: Buffer_Read_def Let_def split: if_splits)
  have read: "fst (cb_read st) = so_bytes h out" by (simp add: cb_read_def st r)
  have "so_bytes h2 out = so_bytes h out"
  proof (cases "so_bytes h (b_data b) = []")
    case True
    then have "so_len (b_data b) = 0" using ok so_len_0_bytes [of h "b_data b"] by (simp add: buf_ok_def)
    with r(1) have "out = None" by (auto simp: Buffer_Read_def)
    then show ?thesis by simp
  next
    case False
    with writes_keep_in_flight [OF r(2), of grow ps t1] r assms(2,3) st show ?thesis by auto
  qed
  with read h3 show ?thesis by simp
qed

theorem buffer_drained_slice_stable_witness:
  "let st = cb_write (\<lambda>n. n) ''ab'' (newBuffer 8 4 ''s'', h_empty, None);
       r = Buffer_Read st;
       st2 = fold (cb_write (\<lambda>n. n)) [''cd'', ''e''] (snd r);
       r2 = Buffer_Read st2
   in so_bytes (fst (snd st2)) (fst r) = fst (cb_read st) \<and>
      so_bytes (fst (snd (snd r2))) (fst r) = fst (cb_read st)"
  unfolding Let_def
  by (rule buffer_drained_slice_stable
      [where grow = "\<lambda>n. n" and ps = "[''cd'', ''e'']"
        and st = "cb_write (\<lambda>n. n) ''ab'' (newBuffer 8 4 ''s'', h_empty, None)"])
     (auto simp: prod_eq_iff cb_write_refines bst_ok_new)

text \<open>(C16) Backpressure has the intended hysteresis: with positive, ordered watermarks, after any sequence of
operations a buffer that is not paused is below the high watermark, a paused one still holds at
least the low watermark, and draining a non-empty buffer always clears the pause.\<close>

theorem buffer_backpressure:
  assumes "0 < lwm" and "lwm \<le> hwm" and "run_buf grow ops (newBuffer hwm lwm sid, h_empty, t) = Some (outs, st)"
  shows "(if Paused st then lwm \<le> int (Len st) else int (Len st) < hwm) \<and>
         (if Len st = 0 then True else \<not> Paused (snd (Buffer_Read st)))"
proof -
  have st: "bst_ok st" "buf_abs st = snd (run_abuf ops (a_new hwm lwm))"
    using run_buf_refines [OF bst_ok_new, of grow ops hwm lwm sid t] assms(3) by (auto simp: prod_eq_iff)
  obtain b h t' where b: "st = (b, h, t')" by (cases st)
  have len: "Len st = length (a_data (buf_abs st))" and p: "Paused st = a_paused (buf_abs st)"
    using st(1) length_so_bytes [of h "b_data b"]
    by (auto simp: b Len_def Paused_def buf_abs_def bst_ok_def buf_ok_def)
  have wm: "a_low (buf_abs st) = lwm" "a_high (buf_abs st) = hwm"
    using run_abuf_const [of ops "a_new hwm lwm"] by (auto simp: st(2) a_new_def)
  have "pressure_ok (buf_abs st)"
    unfolding st(2) by (intro run_abuf_pressure pressure_new assms)
  moreover have "Paused (snd (Buffer_Read st)) = a_paused (buf_abs (snd (cb_read st)))"
    by (auto simp: cb_read_def buf_abs_def Paused_def split: prod.splits)
  moreover have "buf_abs (snd (cb_read st)) = snd (a_read (buf_abs st))"
    using cb_read_refines(2) [OF st(1)] by (metis snd_conv)
  ultimately show ?thesis
    using read_resumes [of "buf_abs st"] wm assms(1) by (auto simp: len p pressure_ok_def)
qed

theorem buffer_backpressure_witness:
  "let st = snd (the (run_buf (\<lambda>n. n) [OpWrite ''abcd''] (newBuffer 3 2 ''s'', h_empty, None)))
   in Paused st \<and> \<not> Paused (snd (Buffer_Read st))"
proof -
  let ?r = "run_buf (\<lambda>n. n) [OpWrite ''abcd''] (newBuffer 3 2 ''s'', h_empty, None)"
  have r: "?r = Some (fst (the ?r), snd (the ?r))" by simp
  have "Paused (snd (the ?r))" "Len (snd (the ?r)) \<noteq> 0"
    by (simp_all add: cb_write_def Buffer_Write_def newBuffer_def go_append_def alloc_def h_empty_def
        Paused_def Len_def so_len_def Enabled_def Let_def)
  with buffer_backpressure [OF _ _ r] show ?thesis by (auto simp: Let_def split: if_splits)
qed

end
