(* ===== verification/Batcher.thy ===== *)
theory Batcher
  imports OutputBuffer
begin

text \<open>
  The output batcher (\<^verbatim>\<open>internal/session/batcher.go\<close>). Producers append under a mutex; a goroutine
  flushes on a timer tick or on a signal through a channel of capacity one, until it sees the
  closed \<^verbatim>\<open>done\<close> channel. Each critical section and each arm of the goroutine's \<^verbatim>\<open>select\<close> is one step.
\<close>

section \<open>State and operations\<close>

definition minBatchInterval :: duration where "minBatchInterval = 1000000"
definition defaultFlushThreshold :: int where "defaultFlushThreshold = 32 * 1024"

record Batcher =
  bt_buf :: bytes
  bt_interval :: duration
  flushThreshold :: int
  bt_done :: bool
  bt_flush :: bool
  bt_exited :: bool

definition newBatcher :: "duration \<Rightarrow> Batcher" where
  "newBatcher interval =
     \<lparr>bt_buf = [], bt_interval = (if interval < minBatchInterval then minBatchInterval else interval),
      flushThreshold = defaultFlushThreshold, bt_done = False, bt_flush = False, bt_exited = False\<rparr>"

text \<open>A non-blocking send on the signal channel: a pending signal absorbs the new one.\<close>

definition FlushNow :: "Batcher \<Rightarrow> Batcher" where
  "FlushNow b = b\<lparr>bt_flush := True\<rparr>"

definition Add :: "bytes \<Rightarrow> Batcher \<Rightarrow> Batcher" where
  "Add data b =
     (let b1 = b\<lparr>bt_buf := bt_buf b @ data\<rparr>;
          overThreshold = (flushThreshold b1 > 0 \<and> int (length (bt_buf b1)) \<ge> flushThreshold b1)
      in if overThreshold then b1\<lparr>bt_flush := True\<rparr> else b1)"

definition Batcher_Len :: "Batcher \<Rightarrow> nat" where
  "Batcher_Len b = length (bt_buf b)"

definition Stop :: "Batcher \<Rightarrow> Batcher" where
  "Stop b = b\<lparr>bt_done := True\<rparr>"

text \<open>\<^verbatim>\<open>doFlush\<close>: the batch handed to \<^verbatim>\<open>onFlush\<close>, if any, and the emptied batcher.\<close>

definition doFlush :: "Batcher \<Rightarrow> bytes option \<times> Batcher" where
  "doFlush b =
     (if bt_buf b = [] then (None, b) else (Some (bt_buf b), b\<lparr>bt_buf := []\<rparr>))"

datatype select_arm = SelDone | SelFlush | SelTick

text \<open>One iteration of the loop, given the arm the \<^verbatim>\<open>select\<close> takes; \<open>None\<close> if that arm is not ready.\<close>

definition loop_step :: "select_arm \<Rightarrow> Batcher \<Rightarrow> (bytes option \<times> Batcher) option" where
  "loop_step arm b =
     (if bt_exited b then None
      else case arm of
             SelDone \<Rightarrow> if bt_done b then Some (None, b\<lparr>bt_exited := True\<rparr>) else None
           | SelFlush \<Rightarrow> if bt_flush b then Some (doFlush (b\<lparr>bt_flush := False\<rparr>)) else None
           | SelTick \<Rightarrow> Some (doFlush b))"

section \<open>Interleavings\<close>

text \<open>
  A run of the batcher with its producers, under any scheduling: the state, everything added so
  far and everything flushed so far.
\<close>

inductive batch_step :: "Batcher \<times> bytes \<times> bytes \<Rightarrow> Batcher \<times> bytes \<times> bytes \<Rightarrow> bool" where
  bs_add: "batch_step (b, added, out) (Add d b, added @ d, out)"
| bs_flush_now: "batch_step (b, added, out) (FlushNow b, added, out)"
| bs_stop: "batch_step (b, added, out) (Stop b, added, out)"
| bs_loop: "loop_step arm b = Some (r, b') \<Longrightarrow>
     batch_step (b, added, out) (b', added, out @ (case r of None \<Rightarrow> [] | Some d \<Rightarrow> d))"

inductive batch_reach :: "duration \<Rightarrow> Batcher \<times> bytes \<times> bytes \<Rightarrow> bool" for i where
  br_init: "batch_reach i (newBatcher i, [], [])"
| br_step: "batch_reach i c \<Longrightarrow> batch_step c c' \<Longrightarrow> batch_reach i c'"

inductive_cases batch_stepE: "batch_step c c'"

lemmas batcher_eqs = Add_def FlushNow_def Stop_def doFlush_def loop_step_def Let_def

text \<open>Nothing is lost, duplicated or reordered; a batch past the threshold has a pending signal.\<close>

definition batch_inv :: "Batcher \<times> bytes \<times> bytes \<Rightarrow> bool" where
  "batch_inv = (\<lambda>(b, added, out).
     out @ bt_buf b = added \<and> minBatchInterval \<le> bt_interval b \<and> flushThreshold b = defaultFlushThreshold \<and>
     (int (length (bt_buf b)) \<ge> flushThreshold b \<longrightarrow> bt_flush b) \<and> (bt_exited b \<longrightarrow> bt_done b))"

lemma batch_inv_init: "batch_inv (newBatcher i, [], [])"
  by (simp add: batch_inv_def newBatcher_def defaultFlushThreshold_def)

lemma batch_inv_step: "batch_step c c' \<Longrightarrow> batch_inv c \<Longrightarrow> batch_inv c'"
proof (induction rule: batch_step.induct)
  case (bs_loop arm b r b' added out)
  then show ?case
    by (cases arm)
       (auto simp: batch_inv_def batcher_eqs defaultFlushThreshold_def split: if_splits)
qed (auto simp: batch_inv_def batcher_eqs defaultFlushThreshold_def)

lemma batch_reach_inv: "batch_reach i c \<Longrightarrow> batch_inv c"
  by (induction rule: batch_reach.induct) (auto intro: batch_inv_init batch_inv_step)

text \<open>A live loop can always empty the batch in one step.\<close>

lemma tick_flushes:
  "\<not> bt_exited b \<Longrightarrow> bt_buf b \<noteq> [] \<Longrightarrow> loop_step SelTick b = Some (Some (bt_buf b), b\<lparr>bt_buf := []\<rparr>)"
  by (simp add: loop_step_def doFlush_def)

section \<open>Properties\<close>



end
