(* ===== verification/CmdLifecycle.thy ===== *)
theory CmdLifecycle
  imports Prelude "HOL-Library.Monad_Syntax"
begin

text \<open>
  The command-lifecycle tracker (\<^verbatim>\<open>internal/cmdlifecycle\<close>: entity.go, events.go, options.go,
  service.go). Each session has a four-state machine driven by the OSC 133 markers
  \<^verbatim>\<open>A\<close>, \<^verbatim>\<open>B\<close>, \<^verbatim>\<open>C\<close>, \<^verbatim>\<open>D\<close>, a bounded history of closed commands, and at most one command in flight.

  A nil-pointer or index panic is the value \<open>None\<close>; the lemmas show that no sequence of markers
  reaches one. The clock is a parameter: \<open>now k\<close> is the \<open>k\<close>-th reading made during a call.
\<close>

section \<open>Entities\<close>

datatype State = StateIdle | StatePromptShown | StateUserTyping | StateCommandRunning

fun State_String :: "State \<Rightarrow> bytes" where
  "State_String StateIdle = ''idle''"
| "State_String StatePromptShown = ''prompt_shown''"
| "State_String StateUserTyping = ''user_typing''"
| "State_String StateCommandRunning = ''command_running''"

record Command =
  StartedAt :: time
  EndedAt :: time
  ExitCode :: int
  StartRow :: int
  EndRow :: int
  Orphan :: bool
  OrphanReason :: bytes

record SessionState =
  History :: "Command list"
  InFlight :: "Command option"

definition OrphanReasonMissingD :: bytes where
  "OrphanReasonMissingD = ''missing_d_marker''"

definition OrphanReasonDaemonRestart :: bytes where
  "OrphanReasonDaemonRestart = ''daemon_restart''"

datatype cl_error = ErrSessionNotRegistered | ErrSessionExists

datatype EventKind = EventPromptShown | EventCommandStarted | EventCommandFinished

record Event =
  Kind :: EventKind
  Cmd :: "Command option"
  Row :: int

section \<open>The per-session tracker\<close>

record tracker =
  t_state :: State
  current :: "Command option"
  history :: "Command list"
  maxHistory :: nat

definition newTracker :: "nat \<Rightarrow> tracker" where
  "newTracker n = \<lparr>t_state = StateIdle, current = None, history = [], maxHistory = n\<rparr>"

text \<open>
  \<^verbatim>\<open>appendHistoryLocked\<close>: at capacity the slice is shifted left in place and the last slot
  overwritten; with a capacity of zero the slice expression \<^verbatim>\<open>history[1:]\<close> panics.
\<close>

definition appendHistoryLocked :: "tracker \<Rightarrow> Command \<Rightarrow> tracker option" where
  "appendHistoryLocked t c =
     (if length (history t) = maxHistory t
      then if maxHistory t = 0 then None
           else Some (t\<lparr>history := (go_copy (history t) (drop 1 (history t)))[maxHistory t - 1 := c]\<rparr>)
      else Some (t\<lparr>history := history t @ [c]\<rparr>))"

definition openCommandLocked :: "tracker \<Rightarrow> time \<Rightarrow> int \<Rightarrow> tracker" where
  "openCommandLocked t now row =
     t\<lparr>current := Some \<lparr>StartedAt = now, EndedAt = 0, ExitCode = 0, StartRow = row, EndRow = 0,
                          Orphan = False, OrphanReason = []\<rparr>\<rparr>"

definition closeOrphanLocked :: "tracker \<Rightarrow> time \<Rightarrow> int \<Rightarrow> bytes \<Rightarrow> (Event \<times> tracker) option" where
  "closeOrphanLocked t now row reason =
     (case current t of
        None \<Rightarrow> None
      | Some c \<Rightarrow>
          let closed = c\<lparr>EndedAt := now, EndRow := row, ExitCode := -1, Orphan := True,
                         OrphanReason := reason\<rparr>
          in do {
            t1 \<leftarrow> appendHistoryLocked t closed;
            Some (\<lparr>Kind = EventCommandFinished, Cmd = Some closed, Row = row\<rparr>,
                  t1\<lparr>current := None, t_state := StateIdle\<rparr>)
          })"

text \<open>The common prelude of the markers A, B and C: a running command lost its D marker.\<close>

definition orphan_if_running ::
  "tracker \<Rightarrow> time \<Rightarrow> int \<Rightarrow> (Event list \<times> tracker) option" where
  "orphan_if_running t now row =
     (if t_state t = StateCommandRunning
      then do { (ev, t1) \<leftarrow> closeOrphanLocked t now row OrphanReasonMissingD; Some ([ev], t1) }
      else Some ([], t))"

definition handle ::
  "tracker \<Rightarrow> byte \<Rightarrow> int \<Rightarrow> int \<Rightarrow> (nat \<Rightarrow> time) \<Rightarrow> (Event list \<times> tracker) option" where
  "handle t code exitCode row now =
     (if code = CHR ''A'' then do {
        (evs, t1) \<leftarrow> orphan_if_running t (now 0) row;
        if t_state t1 \<noteq> StatePromptShown
        then Some (evs @ [\<lparr>Kind = EventPromptShown, Cmd = None, Row = row\<rparr>],
                   t1\<lparr>t_state := StatePromptShown\<rparr>)
        else Some (evs, t1)
      }
      else if code = CHR ''B'' then do {
        (evs, t1) \<leftarrow> orphan_if_running t (now 0) row;
        Some (evs, t1\<lparr>t_state := StateUserTyping\<rparr>)
      }
      else if code = CHR ''C'' then do {
        (evs, t1) \<leftarrow> orphan_if_running t (now 0) row;
        let t2 = (openCommandLocked t1 (now (length evs)) row)\<lparr>t_state := StateCommandRunning\<rparr>;
        started \<leftarrow> current t2;
        Some (evs @ [\<lparr>Kind = EventCommandStarted, Cmd = Some started, Row = row\<rparr>], t2)
      }
      else if code = CHR ''D'' then
        (if t_state t \<noteq> StateCommandRunning then Some ([], t)
         else case current t of
            None \<Rightarrow> Some ([], t)
          | Some c \<Rightarrow>
              let closed = c\<lparr>EndedAt := now 0, EndRow := row, ExitCode := exitCode, Orphan := False\<rparr>
              in do {
                t1 \<leftarrow> appendHistoryLocked t closed;
                Some ([\<lparr>Kind = EventCommandFinished, Cmd = Some closed, Row = row\<rparr>],
                      t1\<lparr>current := None, t_state := StateIdle\<rparr>)
              })
      else Some ([], t))"

definition snapshotLocked :: "tracker \<Rightarrow> SessionState" where
  "snapshotLocked t = \<lparr>History = history t, InFlight = current t\<rparr>"

fun append_all :: "tracker \<Rightarrow> Command list \<Rightarrow> tracker option" where
  "append_all t [] = Some t"
| "append_all t (c # cs) = do { t1 \<leftarrow> appendHistoryLocked t c; append_all t1 cs }"

definition restart_orphan :: "Command \<Rightarrow> time \<Rightarrow> Command" where
  "restart_orphan c now =
     c\<lparr>EndRow := StartRow c, EndedAt := now, ExitCode := -1, Orphan := True,
       OrphanReason := OrphanReasonDaemonRestart\<rparr>"

definition restore_tracker :: "tracker \<Rightarrow> SessionState \<Rightarrow> time \<Rightarrow> tracker option" where
  "restore_tracker t st now = do {
     t1 \<leftarrow> append_all t (History st);
     t2 \<leftarrow> (case InFlight st of None \<Rightarrow> Some t1
                             | Some c \<Rightarrow> appendHistoryLocked t1 (restart_orphan c now));
     Some (t2\<lparr>t_state := StateIdle, current := None\<rparr>)
   }"

section \<open>The service\<close>

definition defaultMaxHistory :: nat where
  "defaultMaxHistory = 500"

record cl_service =
  trackers :: "(bytes, tracker) gomap"
  onEvent :: bool
  svcMaxHistory :: nat

text \<open>\<^verbatim>\<open>WithMaxHistory\<close> ignores a non-positive value.\<close>

definition WithMaxHistory :: "int \<Rightarrow> cl_service \<Rightarrow> cl_service" where
  "WithMaxHistory n s = (if n > 0 then s\<lparr>svcMaxHistory := nat n\<rparr> else s)"

definition NewService :: "(cl_service \<Rightarrow> cl_service) list \<Rightarrow> cl_service" where
  "NewService opts =
     fold (\<lambda>o' s. o' s) opts \<lparr>trackers = [], onEvent = False, svcMaxHistory = defaultMaxHistory\<rparr>"

definition OnEvent :: "bool \<Rightarrow> cl_service \<Rightarrow> cl_service" where
  "OnEvent h s = s\<lparr>onEvent := h\<rparr>"

definition Register :: "cl_service \<Rightarrow> bytes \<Rightarrow> cl_error + cl_service" where
  "Register s sid =
     (case gm_get (trackers s) sid of
        Some _ \<Rightarrow> Inl ErrSessionExists
      | None \<Rightarrow> Inr (s\<lparr>trackers := gm_put sid (newTracker (svcMaxHistory s)) (trackers s)\<rparr>))"

definition Unregister :: "cl_service \<Rightarrow> bytes \<Rightarrow> cl_service" where
  "Unregister s sid = s\<lparr>trackers := gm_del sid (trackers s)\<rparr>"

text \<open>
  \<^verbatim>\<open>HandleOSC\<close>: besides the new service state, the events passed to the registered handler and
  the states passed to \<^verbatim>\<open>Repository.Save\<close> (at most one).
\<close>

record osc_effect =
  dispatched :: "Event list"
  saved :: "SessionState list"

definition HandleOSC ::
  "cl_service \<Rightarrow> bytes \<Rightarrow> byte \<Rightarrow> int \<Rightarrow> int \<Rightarrow> (nat \<Rightarrow> time)
   \<Rightarrow> (cl_error + (osc_effect \<times> cl_service)) option" where
  "HandleOSC s sid code exitCode row now =
     (case gm_get (trackers s) sid of
        None \<Rightarrow> Some (Inl ErrSessionNotRegistered)
      | Some tr \<Rightarrow>
          if code \<notin> {CHR ''A'', CHR ''B'', CHR ''C'', CHR ''D''}
          then Some (Inr (\<lparr>dispatched = [], saved = []\<rparr>, s))
          else do {
            (evs, tr') \<leftarrow> handle tr code exitCode row now;
            Some (Inr (\<lparr>dispatched = (if onEvent s then evs else []),
                        saved = (if \<exists>ev \<in> set evs. Kind ev = EventCommandFinished
                                 then [snapshotLocked tr'] else [])\<rparr>,
                       s\<lparr>trackers := gm_put sid tr' (trackers s)\<rparr>))
          })"

definition Snapshot :: "cl_service \<Rightarrow> bytes \<Rightarrow> cl_error + SessionState" where
  "Snapshot s sid =
     (case gm_get (trackers s) sid of
        None \<Rightarrow> Inl ErrSessionNotRegistered
      | Some tr \<Rightarrow> Inr (snapshotLocked tr))"

definition Restore ::
  "cl_service \<Rightarrow> bytes \<Rightarrow> SessionState \<Rightarrow> time \<Rightarrow> (cl_error + cl_service) option" where
  "Restore s sid st now =
     (case gm_get (trackers s) sid of
        Some _ \<Rightarrow> Some (Inl ErrSessionExists)
      | None \<Rightarrow> do {
          tr \<leftarrow> restore_tracker (newTracker (svcMaxHistory s)) st now;
          Some (Inr (s\<lparr>trackers := gm_put sid tr (trackers s)\<rparr>))
        })"

section \<open>The tracker invariant\<close>

definition tracker_ok :: "tracker \<Rightarrow> bool" where
  "tracker_ok t \<longleftrightarrow>
     0 < maxHistory t \<and> length (history t) \<le> maxHistory t \<and>
     (t_state t = StateCommandRunning \<longleftrightarrow> current t \<noteq> None)"

definition log_ok :: "tracker \<Rightarrow> bool" where
  "log_ok t \<longleftrightarrow> 0 < maxHistory t \<and> length (history t) \<le> maxHistory t"

lemma shift_in:
  assumes "length h = n" and "0 < n"
  shows "(go_copy h (drop 1 h))[n - 1 := c] = last_n n (h @ [c])"
proof -
  from assms obtain x xs where h: "h = x # xs" by (cases h) auto
  have "go_copy h (drop 1 h) = xs @ [last h]"
    using h by (cases xs rule: rev_cases) (auto simp: go_copy_def)
  moreover have "n - 1 = length xs" using assms h by simp
  ultimately show ?thesis using assms h by (simp add: last_n_def)
qed

lemma appendHistoryLocked_spec:
  assumes "log_ok t"
  shows "appendHistoryLocked t c
       = Some (t\<lparr>history := last_n (maxHistory t) (history t @ [c])\<rparr>)"
  using assms
  using shift_in [of "history t" "maxHistory t" c]
  by (auto simp: appendHistoryLocked_def log_ok_def last_n_all)

interpretation cmd_log: bounded_log appendHistoryLocked history maxHistory log_ok
  by unfold_locales (auto simp: appendHistoryLocked_spec log_ok_def)

lemma append_all_eq: "append_all t cs = cmd_log.push_all t cs"
  by (induction cs arbitrary: t) (auto simp: split: option.splits)

lemma tracker_log_ok [simp, intro]: "tracker_ok t \<Longrightarrow> log_ok t"
  by (simp add: tracker_ok_def log_ok_def)

lemma newTracker_ok [simp, inv_intros]: "0 < n \<Longrightarrow> tracker_ok (newTracker n)"
  by (simp add: tracker_ok_def newTracker_def)

lemma orphan_if_running_spec:
  assumes "tracker_ok t"
  shows "orphan_if_running t now row =
    (case current t of
       None \<Rightarrow> Some ([], t)
     | Some c \<Rightarrow>
         let closed = c\<lparr>EndedAt := now, EndRow := row, ExitCode := -1, Orphan := True,
                        OrphanReason := OrphanReasonMissingD\<rparr>
         in Some ([\<lparr>Kind = EventCommandFinished, Cmd = Some closed, Row = row\<rparr>],
                  t\<lparr>history := last_n (maxHistory t) (history t @ [closed]),
                    current := None, t_state := StateIdle\<rparr>))"
  using assms
  by (auto simp: orphan_if_running_def closeOrphanLocked_def appendHistoryLocked_spec Let_def
      tracker_ok_def log_ok_def split: option.splits)

lemmas tracker_eqs = handle_def orphan_if_running_spec appendHistoryLocked_spec Let_def

text \<open>Every marker is handled without a panic and keeps the invariant.\<close>

lemma handle_total:
  assumes "tracker_ok t"
  shows "\<exists>evs t'. handle t code e row now = Some (evs, t') \<and> tracker_ok t' \<and> maxHistory t' = maxHistory t"
proof -
  note [simp] = tracker_eqs
  from assms have ok: "0 < maxHistory t" "length (history t) \<le> maxHistory t"
    "t_state t = StateCommandRunning \<longleftrightarrow> current t \<noteq> None"
    by (auto simp: tracker_ok_def)
  show ?thesis
  proof (cases "current t")
    case None
    with assms ok show ?thesis
      by (auto simp: tracker_ok_def openCommandLocked_def)
  next
    case (Some c)
    with assms ok show ?thesis
      by (auto simp: tracker_ok_def openCommandLocked_def)
  qed
qed

section \<open>Runs of markers\<close>

record marker =
  m_code :: byte
  m_exit :: int
  m_row :: int
  m_clock :: "nat \<Rightarrow> time"

fun run_markers :: "tracker \<Rightarrow> marker list \<Rightarrow> (Event list \<times> tracker) option" where
  "run_markers t [] = Some ([], t)"
| "run_markers t (m # ms) = do {
     (evs, t1) \<leftarrow> handle t (m_code m) (m_exit m) (m_row m) (m_clock m);
     (evs', t2) \<leftarrow> run_markers t1 ms;
     Some (evs @ evs', t2)
   }"

definition of_kind :: "EventKind \<Rightarrow> Event list \<Rightarrow> Event list" where
  "of_kind k evs = filter (\<lambda>ev. Kind ev = k) evs"

definition finished_cmds :: "Event list \<Rightarrow> Command list" where
  "finished_cmds evs = map (the \<circ> Cmd) (of_kind EventCommandFinished evs)"

definition in_flight_count :: "tracker \<Rightarrow> nat" where
  "in_flight_count t = (if current t = None then 0 else 1)"

lemma of_kind_simps [simp]:
  "of_kind k [] = []"
  "of_kind k (e # es) = (if Kind e = k then e # of_kind k es else of_kind k es)"
  "of_kind k (xs @ ys) = of_kind k xs @ of_kind k ys"
  by (simp_all add: of_kind_def)

lemma finished_cmds_append [simp]: "finished_cmds (xs @ ys) = finished_cmds xs @ finished_cmds ys"
  by (simp add: finished_cmds_def)

text \<open>One marker: the history grows by exactly the finished commands, and commands are conserved.\<close>

lemma handle_effect:
  assumes "tracker_ok t" and "handle t code e row now = Some (evs, t')"
  shows "history t' = last_n (maxHistory t) (history t @ finished_cmds evs)"
    and "in_flight_count t + length (of_kind EventCommandStarted evs)
       = in_flight_count t' + length (of_kind EventCommandFinished evs)"
proof -
  note [simp] = tracker_eqs finished_cmds_def
  from assms(1) have ok: "0 < maxHistory t" "length (history t) \<le> maxHistory t"
    "t_state t = StateCommandRunning \<longleftrightarrow> current t \<noteq> None"
    by (auto simp: tracker_ok_def)
  have "history t' = last_n (maxHistory t) (history t @ finished_cmds evs) \<and>
        in_flight_count t + length (of_kind EventCommandStarted evs)
      = in_flight_count t' + length (of_kind EventCommandFinished evs)"
  proof (cases "current t")
    case None
    with assms ok show ?thesis
      by (auto simp: last_n_all in_flight_count_def openCommandLocked_def split: if_splits)
  next
    case (Some c)
    with assms ok show ?thesis
      by (auto simp: last_n_all in_flight_count_def openCommandLocked_def split: if_splits)
  qed
  then show "history t' = last_n (maxHistory t) (history t @ finished_cmds evs)"
    and "in_flight_count t + length (of_kind EventCommandStarted evs)
       = in_flight_count t' + length (of_kind EventCommandFinished evs)"
    by blast+
qed

lemma run_markers_spec:
  assumes "tracker_ok t"
  shows "\<exists>evs t'. run_markers t ms = Some (evs, t') \<and> tracker_ok t' \<and> maxHistory t' = maxHistory t
       \<and> history t' = last_n (maxHistory t) (history t @ finished_cmds evs)
       \<and> in_flight_count t + length (of_kind EventCommandStarted evs)
         = in_flight_count t' + length (of_kind EventCommandFinished evs)"
  using assms
proof (induction ms arbitrary: t)
  case Nil
  then show ?case by (simp add: tracker_ok_def finished_cmds_def last_n_all)
next
  case (Cons m ms)
  obtain evs t1 where h: "handle t (m_code m) (m_exit m) (m_row m) (m_clock m) = Some (evs, t1)"
    and t1: "tracker_ok t1" "maxHistory t1 = maxHistory t"
    using handle_total [OF Cons.prems] by blast
  note eff = handle_effect [OF Cons.prems h]
  from Cons.IH [OF t1(1)] obtain evs' t2 where r: "run_markers t1 ms = Some (evs', t2)"
    and t2: "tracker_ok t2" "maxHistory t2 = maxHistory t1"
      "history t2 = last_n (maxHistory t1) (history t1 @ finished_cmds evs')"
      "in_flight_count t1 + length (of_kind EventCommandStarted evs')
       = in_flight_count t2 + length (of_kind EventCommandFinished evs')"
    by blast
  have "history t2 = last_n (maxHistory t) (history t @ finished_cmds (evs @ evs'))"
    using t1 t2 eff(1) last_n_append_last_n [of "maxHistory t" "history t @ finished_cmds evs"]
    by simp
  with h r t1 t2 eff(2) show ?case by auto
qed

section \<open>The service invariant\<close>

definition cl_service_ok :: "cl_service \<Rightarrow> bool" where
  "cl_service_ok s \<longleftrightarrow>
     gm_ok (trackers s) \<and> 0 < svcMaxHistory s \<and>
     (\<forall>sid t. gm_get (trackers s) sid = Some t \<longrightarrow> tracker_ok t \<and> maxHistory t = svcMaxHistory s)"

lemma NewService_ok: "cl_service_ok (NewService (map WithMaxHistory ns))"
proof -
  have "0 < svcMaxHistory s \<Longrightarrow> trackers s = [] \<Longrightarrow>
      0 < svcMaxHistory (fold (\<lambda>o' s. o' s) (map WithMaxHistory ns) s) \<and>
      trackers (fold (\<lambda>o' s. o' s) (map WithMaxHistory ns) s) = []" for s
    by (induction ns arbitrary: s) (auto simp: WithMaxHistory_def)
  then show ?thesis by (simp add: NewService_def defaultMaxHistory_def cl_service_ok_def)
qed

lemma cl_service_put:
  "cl_service_ok s \<Longrightarrow> tracker_ok t \<Longrightarrow> maxHistory t = svcMaxHistory s \<Longrightarrow>
   cl_service_ok (s\<lparr>trackers := gm_put sid t (trackers s)\<rparr>)"
  by (auto simp: cl_service_ok_def)

lemma Register_ok [inv_intros]:
  assumes "cl_service_ok s" and "Register s sid = Inr s'"
  shows "cl_service_ok s'"
proof -
  have "s' = s\<lparr>trackers := gm_put sid (newTracker (svcMaxHistory s)) (trackers s)\<rparr>"
    using assms(2) by (simp add: Register_def split: option.splits)
  moreover have "tracker_ok (newTracker (svcMaxHistory s))"
    using assms(1) by (simp add: cl_service_ok_def)
  ultimately show ?thesis
    using assms(1) by (simp add: cl_service_put newTracker_def)
qed

lemma Unregister_ok [inv_intros]: "cl_service_ok s \<Longrightarrow> cl_service_ok (Unregister s sid)"
  by (auto simp: Unregister_def cl_service_ok_def split: if_splits)

lemma HandleOSC_total:
  assumes "cl_service_ok s"
  shows "\<exists>r. HandleOSC s sid code e row now = Some r \<and> (\<forall>eff s'. r = Inr (eff, s') \<longrightarrow> cl_service_ok s')"
proof (cases "gm_get (trackers s) sid")
  case None
  then show ?thesis by (simp add: HandleOSC_def)
next
  case (Some tr)
  with assms have tr: "tracker_ok tr" "maxHistory tr = svcMaxHistory s"
    by (auto simp: cl_service_ok_def)
  obtain evs tr' where "handle tr code e row now = Some (evs, tr')" "tracker_ok tr'"
    "maxHistory tr' = maxHistory tr"
    using handle_total [OF tr(1)] by blast
  with Some tr assms show ?thesis
    by (auto simp: HandleOSC_def cl_service_put)
qed

lemma restore_tracker_spec:
  assumes "0 < n"
  shows "\<exists>t. restore_tracker (newTracker n) st now = Some t \<and> tracker_ok t \<and> maxHistory t = n
     \<and> t_state t = StateIdle \<and> current t = None
     \<and> history t = last_n n (History st @
         (case InFlight st of None \<Rightarrow> [] | Some c \<Rightarrow> [restart_orphan c now]))"
proof -
  let ?t0 = "newTracker n"
  have t0: "log_ok ?t0" "maxHistory ?t0 = n" "history ?t0 = []"
    using assms by (auto simp: newTracker_def log_ok_def)
  obtain t1 where t1: "append_all ?t0 (History st) = Some t1" "log_ok t1" "maxHistory t1 = n"
    "history t1 = last_n n (History st)"
    using cmd_log.push_all_spec [OF t0(1), of "History st"] t0
    by (auto simp: append_all_eq)
  show ?thesis
  proof (cases "InFlight st")
    case None
    with t1 show ?thesis
      by (auto simp: restore_tracker_def tracker_ok_def log_ok_def)
  next
    case (Some c)
    have "appendHistoryLocked t1 (restart_orphan c now)
        = Some (t1\<lparr>history := last_n n (last_n n (History st) @ [restart_orphan c now])\<rparr>)"
      using appendHistoryLocked_spec [OF t1(2)] t1 by simp
    with Some t1 assms show ?thesis
      by (auto simp: restore_tracker_def tracker_ok_def last_n_append_last_n)
  qed
qed

lemma Restore_ok [inv_intros]:
  assumes "cl_service_ok s" and "Restore s sid st now = Some (Inr s')"
  shows "cl_service_ok s'"
proof -
  from assms(1) have "0 < svcMaxHistory s" by (simp add: cl_service_ok_def)
  from restore_tracker_spec [OF this, of st now] assms show ?thesis
    by (auto simp: Restore_def cl_service_put split: option.splits)
qed

section \<open>What a finished command records\<close>

definition closed_cmd_ok :: "Command \<Rightarrow> bool" where
  "closed_cmd_ok c \<longleftrightarrow>
     (if Orphan c then ExitCode c = -1 \<and> OrphanReason c = OrphanReasonMissingD else OrphanReason c = [])"

definition current_fresh :: "tracker \<Rightarrow> bool" where
  "current_fresh t \<longleftrightarrow> (case current t of None \<Rightarrow> True | Some c \<Rightarrow> \<not> Orphan c \<and> OrphanReason c = [])"

lemma handle_closed_cmds:
  assumes "tracker_ok t" "current_fresh t" and "handle t code e row now = Some (evs, t')"
  shows "current_fresh t' \<and> list_all closed_cmd_ok (finished_cmds evs)"
proof -
  note [simp] = tracker_eqs finished_cmds_def current_fresh_def closed_cmd_ok_def
  from assms(1) have ok: "0 < maxHistory t" "length (history t) \<le> maxHistory t"
    "t_state t = StateCommandRunning \<longleftrightarrow> current t \<noteq> None" "log_ok t"
    by (auto simp: tracker_ok_def log_ok_def)
  show ?thesis
  proof (cases "current t")
    case None
    with assms ok show ?thesis
      by (auto simp: openCommandLocked_def split: if_splits)
  next
    case (Some c)
    with assms ok show ?thesis
      by (auto simp: openCommandLocked_def split: if_splits)
  qed
qed

lemma run_markers_closed_cmds:
  "tracker_ok t \<Longrightarrow> current_fresh t \<Longrightarrow> run_markers t ms = Some (evs, t') \<Longrightarrow>
   list_all closed_cmd_ok (finished_cmds evs)"
proof (induction ms arbitrary: t evs)
  case (Cons m ms)
  obtain evs1 t1 where h: "handle t (m_code m) (m_exit m) (m_row m) (m_clock m) = Some (evs1, t1)"
    and t1: "tracker_ok t1"
    using handle_total [OF Cons.prems(1)] by blast
  obtain evs2 where r: "run_markers t1 ms = Some (evs2, t')" and "evs = evs1 @ evs2"
    using Cons.prems(3) h by (auto simp: bind_eq_Some_conv)
  with handle_closed_cmds [OF Cons.prems(1,2) h] Cons.IH [OF t1 _ r] show ?case by simp
qed (simp add: finished_cmds_def)

section \<open>Properties\<close>

text \<open>(C9) However a session's shell emits markers (missing, repeated, out of order, unknown codes), a
tracker of a service built with any options handles all of them without a panic; its
history is exactly the last \<^verbatim>\<open>maxHistory\<close> finished commands in order, and every started command is
finished exactly once or still in flight.\<close>

theorem tracker_history_of_markers:
  "let n = svcMaxHistory (NewService (map WithMaxHistory opts))
   in case run_markers (newTracker n) ms of
        None \<Rightarrow> False
      | Some (evs, t) \<Rightarrow>
          history t = last_n n (finished_cmds evs) \<and>
          length (of_kind EventCommandStarted evs)
            = in_flight_count t + length (of_kind EventCommandFinished evs) \<and>
          (t_state t = StateCommandRunning \<longleftrightarrow> current t \<noteq> None)"
proof -
  have "0 < svcMaxHistory (NewService (map WithMaxHistory opts))"
    using NewService_ok by (simp add: cl_service_ok_def)
  from run_markers_spec [OF newTracker_ok [OF this], of ms] show ?thesis
    by (auto simp: newTracker_def in_flight_count_def tracker_ok_def Let_def)
qed

text \<open>Every finished command a tracker reports is either closed by its own \<^verbatim>\<open>D\<close> marker and carries no
orphan reason, or was cut off by a later marker and carries exit code -1 and the reason
\<^verbatim>\<open>missing_d_marker\<close>.\<close>

lemma tracker_orphans_are_marked:
  "case run_markers (newTracker (svcMaxHistory (NewService (map WithMaxHistory opts)))) ms of
     None \<Rightarrow> False
   | Some (evs, t) \<Rightarrow>
       list_all (\<lambda>c. if Orphan c then ExitCode c = -1 \<and> OrphanReason c = OrphanReasonMissingD
                     else OrphanReason c = []) (finished_cmds evs)"
proof -
  let ?t = "newTracker (svcMaxHistory (NewService (map WithMaxHistory opts)))"
  have ok: "tracker_ok ?t" using NewService_ok by (simp add: cl_service_ok_def)
  moreover have "current_fresh ?t" by (simp add: current_fresh_def newTracker_def)
  moreover obtain evs t where "run_markers ?t ms = Some (evs, t)"
    using run_markers_spec [OF ok] by blast
  ultimately show ?thesis
    using run_markers_closed_cmds by (fastforce simp: closed_cmd_ok_def [abs_def])
qed

text \<open>A marker for a registered session is always handled: it keeps the service invariant, changes no
other session, hands the subscriber all events, and saves the new state exactly when a command
finished.\<close>

lemma HandleOSC_effect:
  assumes "cl_service_ok s" and "gm_get (trackers s) sid = Some tr"
  shows "\<exists>evs tr' eff s'. HandleOSC s sid code e row now = Some (Inr (eff, s')) \<and>
     handle tr code e row now = Some (evs, tr') \<and> cl_service_ok s' \<and>
     gm_get (trackers s') = (gm_get (trackers s))(sid \<mapsto> tr') \<and>
     dispatched eff = (if onEvent s then evs else []) \<and>
     saved eff = (if of_kind EventCommandFinished evs = [] then [] else [snapshotLocked tr'])"
proof -
  from assms have tr: "tracker_ok tr" "maxHistory tr = svcMaxHistory s"
    by (auto simp: cl_service_ok_def)
  obtain evs tr' where h: "handle tr code e row now = Some (evs, tr')" "tracker_ok tr'"
    "maxHistory tr' = maxHistory tr"
    using handle_total [OF tr(1)] by blast
  have fin: "(\<exists>ev \<in> set evs. Kind ev = EventCommandFinished) \<longleftrightarrow> of_kind EventCommandFinished evs \<noteq> []"
    by (auto simp: of_kind_def filter_empty_conv)
  show ?thesis
  proof (cases "code \<in> {CHR ''A'', CHR ''B'', CHR ''C'', CHR ''D''}")
    case True
    with assms h tr fin show ?thesis
      by (auto simp: HandleOSC_def fun_eq_iff cl_service_put)
  next
    case False
    then have "evs = []" "tr' = tr" using h(1) by (auto simp: handle_def)
    with False assms h show ?thesis by (auto simp: HandleOSC_def fun_eq_iff)
  qed
qed



end
