(* ===== verification/Session.thy ===== *)
theory Session
  imports Batcher SessionId
begin

text \<open>
  The session service (\<^verbatim>\<open>internal/session\<close>: entity.go, options.go, emulator.go, service.go,
  reaper.go, watchdog.go, on top of \<^verbatim>\<open>internal/platform/pty\<close>).

  The Go service holds a map from ids to pointers to managed sessions, and three goroutines per
  session keep such a pointer. The model has the same indirection: \<open>ss_objs\<close> is the store of
  managed sessions by address and \<open>ss_sessions\<close> maps an id to an address, so a goroutine may act
  on a session that is no longer (or no longer the one) in the map. Every method body under
  \<^verbatim>\<open>s.mu\<close> and every iteration of a goroutine is one atomic step.

  Code outside the repository (the kernel's PTY, the emulator add-on, the Go runtime's growth
  policy, SHA-1) enters as the record \<open>ext\<close> of functions.
\<close>

section \<open>Entities (entity.go)\<close>

datatype SessState = StateAlive | StateDetached | StateExited | StateRemoved

fun SessState_String :: "SessState \<Rightarrow> bytes" where
  "SessState_String StateAlive = ''alive''"
| "SessState_String StateDetached = ''detached''"
| "SessState_String StateExited = ''exited''"
| "SessState_String StateRemoved = ''removed''"

definition IsTerminal :: "SessState \<Rightarrow> bool" where
  "IsTerminal s \<longleftrightarrow> s = StateExited \<or> s = StateRemoved"

record Session =
  s_ID :: bytes
  s_Prefix :: bytes
  s_State :: SessState
  s_Pid :: int
  s_Cols :: int
  s_Rows :: int
  s_Shell :: bytes
  s_Cwd :: bytes
  s_ExitCode :: int
  s_StartedAt :: time
  s_EndedAt :: time
  s_Metadata :: "(bytes, bytes) gomap option"

datatype sess_error =
    ErrSessionNotFound | ErrSessionExists | ErrBadSessionID | ErrMaxSessions
  | ErrScrollbackNotConfigurable
  | ErrSpawnPty bytes | ErrResizePty bytes | ErrWritePty bytes

fun sess_error_msg :: "sess_error \<Rightarrow> bytes" where
  "sess_error_msg ErrSessionNotFound = ''session not found''"
| "sess_error_msg ErrSessionExists = ''session already exists''"
| "sess_error_msg ErrBadSessionID = ''invalid session ID''"
| "sess_error_msg ErrMaxSessions = ''maximum number of sessions reached''"
| "sess_error_msg ErrScrollbackNotConfigurable = ''emulator does not support scrollback configuration''"
| "sess_error_msg (ErrSpawnPty e) = ''spawn pty: '' @ e"
| "sess_error_msg (ErrResizePty e) = ''resize pty: '' @ e"
| "sess_error_msg (ErrWritePty e) = ''write pty input: '' @ e"

section \<open>PTY processes (platform/pty/pty.go)\<close>

record SpawnOptions =
  so_Command :: bytes
  so_Args :: "bytes list"
  so_Cols :: int
  so_Rows :: int
  so_Cwd :: bytes
  so_Env :: "bytes list"

text \<open>
  A spawned process: its pid, the window size the kernel holds (16-bit words), the bytes written
  to its terminal, whether the master side is open, whether the process still runs and has been
  sent SIGHUP, and the error (if any) the kernel reports on further I/O.
\<close>

record Process =
  pr_pid :: int
  pr_winsize :: "16 word \<times> 16 word"
  pr_input :: bytes
  pr_open :: bool
  pr_running :: bool
  pr_hup :: bool
  pr_fault :: "bytes option"

definition proc_io_error :: "Process \<Rightarrow> bytes option" where
  "proc_io_error p = (if \<not> pr_open p then Some ''file already closed'' else pr_fault p)"

definition Process_Write :: "bytes \<Rightarrow> Process \<Rightarrow> bytes + Process" where
  "Process_Write d p =
     (case proc_io_error p of
        Some e \<Rightarrow> Inl (''pty write: '' @ e)
      | None \<Rightarrow> Inr (p\<lparr>pr_input := pr_input p @ d\<rparr>))"

definition Process_Resize :: "int \<Rightarrow> int \<Rightarrow> Process \<Rightarrow> bytes + Process" where
  "Process_Resize cols rows p =
     (case proc_io_error p of
        Some e \<Rightarrow> Inl (''pty resize: '' @ e)
      | None \<Rightarrow> Inr (p\<lparr>pr_winsize := (word_of_int cols, word_of_int rows)\<rparr>))"

definition Process_Close :: "Process \<Rightarrow> Process" where
  "Process_Close p = p\<lparr>pr_open := False\<rparr>"

section \<open>The managed session\<close>

text \<open>\<^verbatim>\<open>NoneEmulator\<close> (emulator.go) or an emulator of the configured factory.\<close>

datatype 'e emulator = NoneEmulator | FactoryEmulator 'e

record 'e ext =
  x_spawn :: "SpawnOptions \<Rightarrow> bytes + Process"
  x_create :: "bytes \<Rightarrow> int \<Rightarrow> int \<Rightarrow> 'e"
  x_process :: "bytes \<Rightarrow> 'e \<Rightarrow> 'e option"
  x_snapshot :: "'e \<Rightarrow> bytes"
  x_resize :: "int \<Rightarrow> int \<Rightarrow> 'e \<Rightarrow> 'e"
  x_setscroll :: "(int \<Rightarrow> 'e \<Rightarrow> 'e) option"
  x_close :: "'e \<Rightarrow> 'e"
  x_grow :: "nat \<Rightarrow> nat"
  x_sha1 :: "bytes \<Rightarrow> bytes"

record 'e managed =
  ms_session :: Session
  ms_process :: Process
  ms_emulator :: "'e emulator"
  ms_buffer :: Buffer
  ms_heap :: heap
  ms_batcher :: Batcher
  ms_history :: "bytes option"
  ms_histClosed :: bool
  ms_lastActivity :: time
  ms_closed :: bool
  ms_emCh :: "bytes list"
  ms_readDone :: bool

definition emu_snapshot :: "'e ext \<Rightarrow> 'e emulator \<Rightarrow> bytes" where
  "emu_snapshot x em = (case em of NoneEmulator \<Rightarrow> [] | FactoryEmulator e \<Rightarrow> x_snapshot x e)"

definition emu_resize :: "'e ext \<Rightarrow> int \<Rightarrow> int \<Rightarrow> 'e emulator \<Rightarrow> 'e emulator" where
  "emu_resize x cols rows em =
     (case em of NoneEmulator \<Rightarrow> NoneEmulator | FactoryEmulator e \<Rightarrow> FactoryEmulator (x_resize x cols rows e))"

text \<open>\<^verbatim>\<open>Process\<close> may panic (\<open>None\<close>); the recovery of \<^verbatim>\<open>emulatorLoop\<close> keeps the emulator as it was left.\<close>

definition emu_process :: "'e ext \<Rightarrow> bytes \<Rightarrow> 'e emulator \<Rightarrow> 'e emulator option" where
  "emu_process x d em =
     (case em of NoneEmulator \<Rightarrow> Some NoneEmulator
               | FactoryEmulator e \<Rightarrow> map_option FactoryEmulator (x_process x d e))"

definition emu_close :: "'e ext \<Rightarrow> 'e emulator \<Rightarrow> 'e emulator" where
  "emu_close x em =
     (case em of NoneEmulator \<Rightarrow> NoneEmulator | FactoryEmulator e \<Rightarrow> FactoryEmulator (x_close x e))"

section \<open>The service state\<close>

definition readChunkSize :: nat where "readChunkSize = 32 * 1024"
definition defaultHighWatermark :: int where "defaultHighWatermark = 4 * 1024 * 1024"
definition defaultLowWatermark :: int where "defaultLowWatermark = 2 * 1024 * 1024"
definition defaultBatchInterval :: duration where "defaultBatchInterval = 16 * 1000000"
definition emulatorChanSize :: nat where "emulatorChanSize = 64"

record CreateOptions =
  co_Shell :: bytes
  co_Args :: "bytes list"
  co_Cols :: int
  co_Rows :: int
  co_Cwd :: bytes
  co_Env :: "bytes list"
  co_HighWatermark :: int
  co_LowWatermark :: int
  co_BatchInterval :: duration
  co_HistoryWriter :: bool

datatype callback = CbExit bytes int | CbDataReady bytes

record 'e service =
  ss_objs :: "(nat, 'e managed) gomap"
  ss_next :: nat
  ss_sessions :: "(bytes, nat) gomap"
  ss_maxSessions :: int
  ss_factory :: bool
  ss_hasOnExit :: bool
  ss_hasOnDataReady :: bool
  ss_tracer :: tracer
  ss_callbacks :: "callback list"

definition new_service :: "int \<Rightarrow> bool \<Rightarrow> tracer \<Rightarrow> 'e service" where
  "new_service maxSessions factory tr =
     \<lparr>ss_objs = [], ss_next = 0, ss_sessions = [], ss_maxSessions = maxSessions,
      ss_factory = factory, ss_hasOnExit = False, ss_hasOnDataReady = False, ss_tracer = tr,
      ss_callbacks = []\<rparr>"

text \<open>Following a pointer and storing through it.\<close>

definition obj :: "'e service \<Rightarrow> nat \<Rightarrow> 'e managed option" where
  "obj s a = gm_get (ss_objs s) a"

definition set_obj :: "nat \<Rightarrow> 'e managed \<Rightarrow> 'e service \<Rightarrow> 'e service" where
  "set_obj a ms s = s\<lparr>ss_objs := gm_put a ms (ss_objs s)\<rparr>"

definition find_session :: "'e service \<Rightarrow> bytes \<Rightarrow> (nat \<times> 'e managed) option" where
  "find_session s sid =
     (case gm_get (ss_sessions s) sid of
        None \<Rightarrow> None
      | Some a \<Rightarrow> map_option (\<lambda>ms. (a, ms)) (obj s a))"

definition set_session :: "('e managed \<Rightarrow> 'e managed) \<Rightarrow> nat \<times> 'e managed \<Rightarrow> 'e service \<Rightarrow> 'e service" where
  "set_session f am s = set_obj (fst am) (f (snd am)) s"

definition emit_if :: "DebugEvent \<Rightarrow> 'e service \<Rightarrow> 'e service" where
  "emit_if ev s = (if Enabled (ss_tracer s) then s\<lparr>ss_tracer := Emit ev (ss_tracer s)\<rparr> else s)"

section \<open>Operations (service.go)\<close>

text \<open>The watermarks, size and interval \<^verbatim>\<open>Create\<close> uses: a non-positive option means the default.\<close>

definition pos_or :: "int \<Rightarrow> int \<Rightarrow> int" where
  "pos_or v d = (if v \<le> 0 then d else v)"

definition svc_Create ::
  "'e ext \<Rightarrow> time \<Rightarrow> bytes \<Rightarrow> CreateOptions \<Rightarrow> 'e service \<Rightarrow> (sess_error + Session) \<times> 'e service" where
  "svc_Create x now sid opts s =
     (if ValidateSessionID sid \<noteq> Inr () then (Inl ErrBadSessionID, s)
      else if gm_get (ss_sessions s) sid \<noteq> None then (Inl ErrSessionExists, s)
      else if ss_maxSessions s > 0 \<and> int (length (ss_sessions s)) \<ge> ss_maxSessions s
      then (Inl ErrMaxSessions, s)
      else
        let cols = pos_or (co_Cols opts) 80;
            rows = pos_or (co_Rows opts) 24;
            highWM = pos_or (co_HighWatermark opts) defaultHighWatermark;
            lowWM = pos_or (co_LowWatermark opts) defaultLowWatermark;
            batchInterval = pos_or (co_BatchInterval opts) defaultBatchInterval
        in case x_spawn x \<lparr>so_Command = co_Shell opts, so_Args = co_Args opts, so_Cols = cols,
                           so_Rows = rows, so_Cwd = co_Cwd opts, so_Env = co_Env opts\<rparr> of
             Inl e \<Rightarrow> (Inl (ErrSpawnPty e), s)
           | Inr proc \<Rightarrow>
               let sess = \<lparr>s_ID = sid, s_Prefix = fst (ExtractPrefix sid), s_State = StateAlive,
                           s_Pid = pr_pid proc, s_Cols = cols, s_Rows = rows, s_Shell = co_Shell opts,
                           s_Cwd = co_Cwd opts, s_ExitCode = 0, s_StartedAt = now, s_EndedAt = 0,
                           s_Metadata = None\<rparr>;
                   ms = \<lparr>ms_session = sess, ms_process = proc,
                         ms_emulator = (if ss_factory s then FactoryEmulator (x_create x sid cols rows)
                                        else NoneEmulator),
                         ms_buffer = newBuffer highWM lowWM sid, ms_heap = h_empty,
                         ms_batcher = newBatcher batchInterval,
                         ms_history = (if co_HistoryWriter opts then Some [] else None),
                         ms_histClosed = False, ms_lastActivity = now, ms_closed = False,
                         ms_emCh = [], ms_readDone = False\<rparr>
               in (Inr sess,
                   s\<lparr>ss_objs := gm_put (ss_next s) ms (ss_objs s), ss_next := Suc (ss_next s),
                     ss_sessions := gm_put sid (ss_next s) (ss_sessions s)\<rparr>))"

definition svc_Get :: "'e service \<Rightarrow> bytes \<Rightarrow> sess_error + Session" where
  "svc_Get s sid =
     (case find_session s sid of None \<Rightarrow> Inl ErrSessionNotFound | Some (a, ms) \<Rightarrow> Inr (ms_session ms))"

definition svc_List :: "'e service \<Rightarrow> Session list" where
  "svc_List s = List.map_filter (\<lambda>(sid, a). map_option ms_session (obj s a)) (ss_sessions s)"

text \<open>SIGHUP to the process group (only a live process has one), then \<^verbatim>\<open>closeOnce\<close>.\<close>

definition hangup :: "Process \<Rightarrow> Process" where
  "hangup p = (if pr_running p then p\<lparr>pr_hup := True\<rparr> else p)"

definition close_once :: "'e managed \<Rightarrow> 'e managed" where
  "close_once ms =
     (if ms_closed ms then ms
      else ms\<lparr>ms_process := Process_Close (ms_process ms), ms_closed := True\<rparr>)"

definition kill_ms :: "'e managed \<Rightarrow> 'e managed" where
  "kill_ms ms =
     close_once (ms\<lparr>ms_batcher := Stop (ms_batcher ms), ms_process := hangup (ms_process ms)\<rparr>)"

definition svc_Kill :: "bytes \<Rightarrow> 'e service \<Rightarrow> (sess_error + unit) \<times> 'e service" where
  "svc_Kill sid s =
     (case find_session s sid of
        None \<Rightarrow> (Inl ErrSessionNotFound, s)
      | Some am \<Rightarrow>
          (Inr (), set_session kill_ms am (s\<lparr>ss_sessions := gm_del sid (ss_sessions s)\<rparr>)))"

definition update_session :: "(Session \<Rightarrow> Session) \<Rightarrow> 'e managed \<Rightarrow> 'e managed" where
  "update_session f ms = ms\<lparr>ms_session := f (ms_session ms)\<rparr>"

definition svc_Attach :: "bytes \<Rightarrow> 'e service \<Rightarrow> (sess_error + unit) \<times> 'e service" where
  "svc_Attach sid s =
     (case find_session s sid of
        None \<Rightarrow> (Inl ErrSessionNotFound, s)
      | Some am \<Rightarrow>
          (Inr (), if s_State (ms_session (snd am)) = StateDetached
                   then set_session (update_session (\<lambda>z. z\<lparr>s_State := StateAlive\<rparr>)) am s else s))"

definition svc_Detach :: "bytes \<Rightarrow> 'e service \<Rightarrow> (sess_error + unit) \<times> 'e service" where
  "svc_Detach sid s =
     (case find_session s sid of
        None \<Rightarrow> (Inl ErrSessionNotFound, s)
      | Some am \<Rightarrow>
          (Inr (), if s_State (ms_session (snd am)) = StateAlive
                   then set_session (update_session (\<lambda>z. z\<lparr>s_State := StateDetached\<rparr>)) am s else s))"

definition svc_LastActivity :: "'e service \<Rightarrow> bytes \<Rightarrow> sess_error + time" where
  "svc_LastActivity s sid =
     (case find_session s sid of
        None \<Rightarrow> Inl ErrSessionNotFound
      | Some (a, ms) \<Rightarrow>
          Inr (if ms_lastActivity ms = 0 then s_StartedAt (ms_session ms) else ms_lastActivity ms))"

definition svc_Resize ::
  "'e ext \<Rightarrow> bytes \<Rightarrow> int \<Rightarrow> int \<Rightarrow> 'e service \<Rightarrow> (sess_error + unit) \<times> 'e service" where
  "svc_Resize x sid cols rows s =
     (case find_session s sid of
        None \<Rightarrow> (Inl ErrSessionNotFound, s)
      | Some am \<Rightarrow>
          (case Process_Resize cols rows (ms_process (snd am)) of
             Inl e \<Rightarrow> (Inl (ErrResizePty e), s)
           | Inr p \<Rightarrow>
               (Inr (), set_session
                  (\<lambda>ms. ms\<lparr>ms_process := p, ms_emulator := emu_resize x cols rows (ms_emulator ms),
                           ms_session := (ms_session ms)\<lparr>s_Cols := cols, s_Rows := rows\<rparr>\<rparr>) am s)))"

definition svc_UpdateEmulatorScrollback ::
  "'e ext \<Rightarrow> bytes \<Rightarrow> int \<Rightarrow> 'e service \<Rightarrow> (sess_error + unit) \<times> 'e service" where
  "svc_UpdateEmulatorScrollback x sid n s =
     (case find_session s sid of
        None \<Rightarrow> (Inl ErrSessionNotFound, s)
      | Some am \<Rightarrow>
          (case ms_emulator (snd am) of
             NoneEmulator \<Rightarrow> (Inl ErrScrollbackNotConfigurable, s)
           | FactoryEmulator e \<Rightarrow>
               (case x_setscroll x of
                  None \<Rightarrow> (Inl ErrScrollbackNotConfigurable, s)
                | Some f \<Rightarrow>
                    (Inr (), set_session (\<lambda>ms. ms\<lparr>ms_emulator := FactoryEmulator (f n e)\<rparr>) am s))))"

definition svc_WriteInput :: "bytes \<Rightarrow> bytes \<Rightarrow> 'e service \<Rightarrow> (sess_error + unit) \<times> 'e service" where
  "svc_WriteInput sid data s =
     (case find_session s sid of
        None \<Rightarrow> (Inl ErrSessionNotFound, s)
      | Some am \<Rightarrow>
          (case Process_Write data (ms_process (snd am)) of
             Inl e \<Rightarrow> (Inl (ErrWritePty e), s)
           | Inr p \<Rightarrow> (Inr (), set_session (\<lambda>ms. ms\<lparr>ms_process := p\<rparr>) am s)))"

definition svc_Snapshot :: "'e ext \<Rightarrow> 'e service \<Rightarrow> bytes \<Rightarrow> sess_error + bytes" where
  "svc_Snapshot x s sid =
     (case find_session s sid of
        None \<Rightarrow> Inl ErrSessionNotFound
      | Some (a, ms) \<Rightarrow> Inr (emu_snapshot x (ms_emulator ms)))"

definition svc_MetaSet :: "bytes \<Rightarrow> bytes \<Rightarrow> bytes \<Rightarrow> 'e service \<Rightarrow> (sess_error + unit) \<times> 'e service" where
  "svc_MetaSet sid key val s =
     (case find_session s sid of
        None \<Rightarrow> (Inl ErrSessionNotFound, s)
      | Some am \<Rightarrow>
          (Inr (), set_session (update_session (\<lambda>z. z\<lparr>s_Metadata :=
             Some (gm_put key val (case s_Metadata z of None \<Rightarrow> [] | Some m \<Rightarrow> m))\<rparr>)) am s))"

text \<open>Reading a missing key of a Go map, or any key of a nil map, yields the empty string.\<close>

definition svc_MetaGet :: "'e service \<Rightarrow> bytes \<Rightarrow> bytes \<Rightarrow> sess_error + bytes" where
  "svc_MetaGet s sid key =
     (case find_session s sid of
        None \<Rightarrow> Inl ErrSessionNotFound
      | Some (a, ms) \<Rightarrow>
          Inr (case s_Metadata (ms_session ms) of
                 None \<Rightarrow> []
               | Some m \<Rightarrow> (case gm_get m key of None \<Rightarrow> [] | Some v \<Rightarrow> v)))"

definition svc_MetaGetAll :: "'e service \<Rightarrow> bytes \<Rightarrow> sess_error + (bytes, bytes) gomap" where
  "svc_MetaGetAll s sid =
     (case find_session s sid of
        None \<Rightarrow> Inl ErrSessionNotFound
      | Some (a, ms) \<Rightarrow> Inr (case s_Metadata (ms_session ms) of None \<Rightarrow> [] | Some m \<Rightarrow> m))"

text \<open>\<^verbatim>\<open>ReadOutput\<close> drains the buffer; the bytes are those behind the returned slice.\<close>

definition svc_ReadOutput :: "bytes \<Rightarrow> 'e service \<Rightarrow> (sess_error + bytes) \<times> 'e service" where
  "svc_ReadOutput sid s =
     (case find_session s sid of
        None \<Rightarrow> (Inl ErrSessionNotFound, s)
      | Some am \<Rightarrow>
          (case Buffer_Read (ms_buffer (snd am), ms_heap (snd am), ss_tracer s) of
             (out, (b, h, t)) \<Rightarrow>
               (Inr (so_bytes h out),
                (set_session (\<lambda>ms. ms\<lparr>ms_buffer := b, ms_heap := h\<rparr>) am s)\<lparr>ss_tracer := t\<rparr>)))"

section \<open>Goroutines (service.go)\<close>

text \<open>\<^verbatim>\<open>hex.EncodeToString\<close>.\<close>

definition hex_digit :: "nat \<Rightarrow> byte" where
  "hex_digit n = (if n < 10 then char_of (48 + n) else char_of (87 + n))"

definition hex :: "bytes \<Rightarrow> bytes" where
  "hex d = concat (map (\<lambda>c. [hex_digit (of_char c div 16), hex_digit (of_char c mod 16)]) d)"

definition chunkEvent ::
  "(bytes \<Rightarrow> bytes) \<Rightarrow> tracer \<Rightarrow> bytes \<Rightarrow> Stage \<Rightarrow> bytes \<Rightarrow> (DebugEvent \<times> tracer) option" where
  "chunkEvent sha1 t sid stage data =
     (case NextSeq t sid of
        None \<Rightarrow> None
      | Some (n, t1) \<Rightarrow>
          let ev = (dbg sid stage)\<lparr>de_Seq := n, de_ByteLen := int (length data)\<rparr>;
              ev1 = (if Tracer_Level t \<ge> LevelChunk
                     then let e1 = ev\<lparr>de_Sha1 := take 8 (hex (sha1 data))\<rparr>
                          in if length data \<le> 64 then e1\<lparr>de_HeadHex := hex data\<rparr>
                             else e1\<lparr>de_HeadHex := hex (take 64 data),
                                     de_TailHex := hex (drop (length data - 64) data)\<rparr>
                     else ev);
              ev2 = (if Tracer_Level t \<ge> LevelFull then ev1\<lparr>de_FullHex := hex data\<rparr> else ev1)
          in Some (ev2, t1))"

definition emit_chunk :: "'e ext \<Rightarrow> bytes \<Rightarrow> bytes \<Rightarrow> 'e service \<Rightarrow> 'e service" where
  "emit_chunk x sid data s =
     (if Enabled (ss_tracer s)
      then case chunkEvent (x_sha1 x) (ss_tracer s) sid StagePtyRead data of
             None \<Rightarrow> s
           | Some (ev, t) \<Rightarrow> s\<lparr>ss_tracer := Emit ev t\<rparr>
      else s)"

text \<open>
  One iteration of \<^verbatim>\<open>readLoop\<close> for the session at address \<open>a\<close>: the kernel returned \<open>data\<close> (at most one
  chunk) and possibly an error. While the buffer is paused nothing is read. A full emulator
  channel drops the chunk for the emulator only.
\<close>

definition feed_chunk :: "bytes \<Rightarrow> time \<Rightarrow> 'e managed \<Rightarrow> 'e managed" where
  "feed_chunk data now ms =
     ms\<lparr>ms_batcher := Add data (ms_batcher ms),
        ms_emCh := (if length (ms_emCh ms) < emulatorChanSize then ms_emCh ms @ [data] else ms_emCh ms),
        ms_history := (if ms_histClosed ms then ms_history ms else map_option (\<lambda>h. h @ data) (ms_history ms)),
        ms_lastActivity := now\<rparr>"

definition readLoop_iter ::
  "'e ext \<Rightarrow> nat \<Rightarrow> bytes \<Rightarrow> bool \<Rightarrow> time \<Rightarrow> 'e service \<Rightarrow> 'e service" where
  "readLoop_iter x a data err now s =
     (case obj s a of
        None \<Rightarrow> s
      | Some ms \<Rightarrow>
          if ms_readDone ms \<or> paused (ms_buffer ms) then s
          else
            let sid = s_ID (ms_session ms);
                s1 = (if data \<noteq> []
                      then emit_if ((dbg sid (if length (ms_emCh ms) < emulatorChanSize
                                              then StageEmulatorIn else StageEmulatorDrop))
                                      \<lparr>de_ByteLen := int (length data)\<rparr>)
                             (emit_chunk x sid data s)
                      else s);
                ms1 = (if data \<noteq> [] then feed_chunk data now ms else ms);
                ms2 = (if err then ms1\<lparr>ms_readDone := True\<rparr> else ms1)
            in set_obj a ms2 s1)"

text \<open>One iteration of \<^verbatim>\<open>emulatorLoop\<close>: a panic of the emulator is recovered.\<close>

definition emulatorLoop_iter :: "'e ext \<Rightarrow> nat \<Rightarrow> 'e service \<Rightarrow> 'e service" where
  "emulatorLoop_iter x a s =
     (case obj s a of
        None \<Rightarrow> s
      | Some ms \<Rightarrow>
          (case ms_emCh ms of
             [] \<Rightarrow> s
           | d # ds \<Rightarrow>
               (case emu_process x d (ms_emulator ms) of
                  None \<Rightarrow> set_obj a (ms\<lparr>ms_emCh := ds\<rparr>) s
                | Some em \<Rightarrow>
                    emit_if ((dbg (s_ID (ms_session ms)) StageEmulatorOut)\<lparr>de_ByteLen := int (length d)\<rparr>)
                      (set_obj a (ms\<lparr>ms_emulator := em, ms_emCh := ds\<rparr>) s))))"

text \<open>
  One iteration of the batcher goroutine with the \<^verbatim>\<open>onFlush\<close> closure \<^verbatim>\<open>Create\<close> installs: write to
  the buffer, then signal that data is ready.
\<close>

definition batcher_iter :: "'e ext \<Rightarrow> nat \<Rightarrow> select_arm \<Rightarrow> 'e service \<Rightarrow> 'e service" where
  "batcher_iter x a arm s =
     (case obj s a of
        None \<Rightarrow> s
      | Some ms \<Rightarrow>
          (case loop_step arm (ms_batcher ms) of
             None \<Rightarrow> s
           | Some (None, bt) \<Rightarrow> set_obj a (ms\<lparr>ms_batcher := bt\<rparr>) s
           | Some (Some d, bt) \<Rightarrow>
               (case Buffer_Write (x_grow x) d (ms_buffer ms, ms_heap ms, ss_tracer s) of
                  (n, (b, h, t)) \<Rightarrow>
                    let s1 = (set_obj a (ms\<lparr>ms_batcher := bt, ms_buffer := b, ms_heap := h\<rparr>) s)\<lparr>ss_tracer := t\<rparr>
                    in if ss_hasOnDataReady s
                       then s1\<lparr>ss_callbacks := ss_callbacks s1 @ [CbDataReady (s_ID (ms_session ms))]\<rparr>
                       else s1)))"

text \<open>\<^verbatim>\<open>waitLoop\<close> after \<^verbatim>\<open>process.Wait\<close> returned \<open>code\<close>.\<close>

definition exit_ms :: "int \<Rightarrow> time \<Rightarrow> 'e managed \<Rightarrow> 'e managed" where
  "exit_ms code now ms =
     (update_session (\<lambda>z. z\<lparr>s_ExitCode := code, s_EndedAt := now, s_State := StateExited\<rparr>) ms)
       \<lparr>ms_process := (ms_process ms)\<lparr>pr_running := False\<rparr>\<rparr>"

definition release_ms :: "'e ext \<Rightarrow> 'e managed \<Rightarrow> 'e managed" where
  "release_ms x ms =
     (let ms1 = close_once (ms\<lparr>ms_batcher := Stop (ms_batcher ms)\<rparr>)
      in ms1\<lparr>ms_histClosed := True, ms_emulator := emu_close x (ms_emulator ms1)\<rparr>)"

definition waitLoop :: "'e ext \<Rightarrow> nat \<Rightarrow> int \<Rightarrow> time \<Rightarrow> 'e service \<Rightarrow> 'e service" where
  "waitLoop x a code now s =
     (case obj s a of
        None \<Rightarrow> s
      | Some ms \<Rightarrow>
          let sid = s_ID (ms_session ms);
              s1 = (set_obj a (exit_ms code now ms) s)\<lparr>ss_sessions := gm_del sid (ss_sessions s)\<rparr>;
              s2 = emit_if ((dbg sid StageSessionClose)\<lparr>de_ExitCode := code\<rparr>) s1;
              s3 = (if Enabled (ss_tracer s2)
                    then s2\<lparr>ss_tracer := (case ResetSeq (ss_tracer s2) sid of None \<Rightarrow> None | Some t \<Rightarrow> t)\<rparr>
                    else s2);
              s4 = set_obj a (release_ms x (exit_ms code now ms)) s3
          in if ss_hasOnExit s
             then s4\<lparr>ss_callbacks := ss_callbacks s4 @ [CbExit sid code]\<rparr>
             else s4)"

section \<open>Reaper and watchdog (reaper.go, watchdog.go)\<close>

text \<open>
  One tick of the reaper over the sessions listed at its start; the ids reported to \<^verbatim>\<open>OnReap\<close> are
  returned. The error of \<^verbatim>\<open>Kill\<close> is ignored, as in the source.
\<close>

fun reaper_loop :: "duration \<Rightarrow> time \<Rightarrow> Session list \<Rightarrow> 'e service \<Rightarrow> bytes list \<times> 'e service" where
  "reaper_loop idleTTL now [] s = ([], s)"
| "reaper_loop idleTTL now (sess # rest) s =
     (if s_State sess \<noteq> StateDetached then reaper_loop idleTTL now rest s
      else case svc_LastActivity s (s_ID sess) of
             Inl _ \<Rightarrow> reaper_loop idleTTL now rest s
           | Inr lastAct \<Rightarrow>
               if now - lastAct < idleTTL then reaper_loop idleTTL now rest s
               else case reaper_loop idleTTL now rest (snd (svc_Kill (s_ID sess) s)) of
                      (ids, s') \<Rightarrow> (s_ID sess # ids, s'))"

definition reaper_tick :: "duration \<Rightarrow> time \<Rightarrow> 'e service \<Rightarrow> bytes list \<times> 'e service" where
  "reaper_tick idleTTL now s = reaper_loop idleTTL now (svc_List s) s"

text \<open>One tick of the watchdog; \<open>alive\<close> is \<^verbatim>\<open>processAlive\<close>, the kernel's answer to signal 0.\<close>

fun watchdog_loop :: "(int \<Rightarrow> bool) \<Rightarrow> Session list \<Rightarrow> 'e service \<Rightarrow> bytes list \<times> 'e service" where
  "watchdog_loop alive [] s = ([], s)"
| "watchdog_loop alive (sess # rest) s =
     (if IsTerminal (s_State sess) then watchdog_loop alive rest s
      else if alive (s_Pid sess) then watchdog_loop alive rest s
      else case watchdog_loop alive rest (snd (svc_Kill (s_ID sess) s)) of
             (ids, s') \<Rightarrow> (s_ID sess # ids, s'))"

definition watchdog_tick :: "(int \<Rightarrow> bool) \<Rightarrow> 'e service \<Rightarrow> bytes list \<times> 'e service" where
  "watchdog_tick alive s = watchdog_loop alive (svc_List s) s"

section \<open>The service invariant\<close>

definition ms_ok :: "'e managed \<Rightarrow> bool" where
  "ms_ok ms \<longleftrightarrow>
     buf_ok (ms_buffer ms) (ms_heap ms) \<and> 0 < lowWatermark (ms_buffer ms) \<and>
     0 < highWatermark (ms_buffer ms) \<and> length (ms_emCh ms) \<le> emulatorChanSize"

definition svc_ok :: "'e service \<Rightarrow> bool" where
  "svc_ok s \<longleftrightarrow>
     gm_ok (ss_sessions s) \<and>
     (\<forall>a ms. obj s a = Some ms \<longrightarrow> a < ss_next s \<and> ms_ok ms) \<and>
     (\<forall>sid a. gm_get (ss_sessions s) sid = Some a \<longrightarrow>
        (\<exists>ms. obj s a = Some ms \<and> s_ID (ms_session ms) = sid \<and>
              s_State (ms_session ms) \<in> {StateAlive, StateDetached})) \<and>
     (\<forall>sid a. gm_get (ss_sessions s) sid = Some a \<longrightarrow> ValidateSessionID sid = Inr ()) \<and>
     (ss_maxSessions s > 0 \<longrightarrow> int (length (ss_sessions s)) \<le> ss_maxSessions s)"

lemma obj_set_obj [simp]: "obj (set_obj a ms s) b = (if b = a then Some ms else obj s b)"
  by (simp add: obj_def set_obj_def)

lemma set_obj_frame [simp, frame_simps]:
  "ss_sessions (set_obj a ms s) = ss_sessions s" "ss_next (set_obj a ms s) = ss_next s"
  "ss_maxSessions (set_obj a ms s) = ss_maxSessions s" "ss_tracer (set_obj a ms s) = ss_tracer s"
  "ss_callbacks (set_obj a ms s) = ss_callbacks s" "ss_hasOnExit (set_obj a ms s) = ss_hasOnExit s"
  "ss_hasOnDataReady (set_obj a ms s) = ss_hasOnDataReady s" "ss_factory (set_obj a ms s) = ss_factory s"
  by (simp_all add: set_obj_def)

lemma emit_if_frame [simp, frame_simps]:
  "ss_objs (emit_if ev s) = ss_objs s" "ss_sessions (emit_if ev s) = ss_sessions s"
  "ss_next (emit_if ev s) = ss_next s" "ss_maxSessions (emit_if ev s) = ss_maxSessions s"
  "ss_callbacks (emit_if ev s) = ss_callbacks s" "ss_hasOnExit (emit_if ev s) = ss_hasOnExit s"
  "ss_hasOnDataReady (emit_if ev s) = ss_hasOnDataReady s"
  by (simp_all add: emit_if_def)

lemma emit_chunk_frame [simp, frame_simps]:
  "ss_objs (emit_chunk x sid d s) = ss_objs s" "ss_sessions (emit_chunk x sid d s) = ss_sessions s"
  "ss_next (emit_chunk x sid d s) = ss_next s" "ss_maxSessions (emit_chunk x sid d s) = ss_maxSessions s"
  "ss_callbacks (emit_chunk x sid d s) = ss_callbacks s"
  by (auto simp: emit_chunk_def split: option.splits)

text \<open>The invariant does not look at the tracer, the callbacks or the flags.\<close>

lemma svc_ok_cong:
  "ss_objs s' = ss_objs s \<Longrightarrow> ss_sessions s' = ss_sessions s \<Longrightarrow> ss_next s' = ss_next s \<Longrightarrow>
   ss_maxSessions s' = ss_maxSessions s \<Longrightarrow> svc_ok s' = svc_ok s"
  by (simp add: svc_ok_def obj_def)

lemma svc_ok_set_obj:
  assumes "svc_ok s" and "obj s a = Some ms" and "ms_ok ms'"
    and "s_ID (ms_session ms') = s_ID (ms_session ms)"
    and "s_State (ms_session ms') = s_State (ms_session ms) \<or>
         s_State (ms_session ms') \<in> {StateAlive, StateDetached}"
  shows "svc_ok (set_obj a ms' s)"
  unfolding svc_ok_def
proof (intro conjI allI impI)
  fix sid b assume r: "gm_get (ss_sessions (set_obj a ms' s)) sid = Some b"
  then have "\<exists>m. obj s b = Some m \<and> s_ID (ms_session m) = sid \<and>
      s_State (ms_session m) \<in> {StateAlive, StateDetached}"
    using assms(1) by (simp add: svc_ok_def)
  then show "\<exists>m. obj (set_obj a ms' s) b = Some m \<and> s_ID (ms_session m) = sid \<and>
      s_State (ms_session m) \<in> {StateAlive, StateDetached}"
    using assms by auto
qed (use assms in \<open>auto simp: svc_ok_def split: if_splits\<close>)

lemma svc_ok_unregister:
  assumes "svc_ok s"
  shows "svc_ok (s\<lparr>ss_sessions := gm_del sid (ss_sessions s)\<rparr>)"
proof -
  have "length (gm_del sid (ss_sessions s)) \<le> length (ss_sessions s)"
    using assms by (intro gm.size_del_le) (simp add: svc_ok_def)
  then show ?thesis using assms by (auto simp: svc_ok_def obj_def split: if_splits)
qed

text \<open>An object nobody maps to may change its state arbitrarily.\<close>

lemma svc_ok_set_dead:
  assumes "svc_ok s" and "obj s a = Some ms" and "ms_ok ms'"
    and dead: "\<And>sid. gm_get (ss_sessions s) sid \<noteq> Some a"
  shows "svc_ok (set_obj a ms' s)"
  unfolding svc_ok_def
proof (intro conjI allI impI)
  fix sid b assume r: "gm_get (ss_sessions (set_obj a ms' s)) sid = Some b"
  with dead have "b \<noteq> a" by auto
  with r assms(1) show "\<exists>m. obj (set_obj a ms' s) b = Some m \<and> s_ID (ms_session m) = sid \<and>
      s_State (ms_session m) \<in> {StateAlive, StateDetached}"
    by (simp add: svc_ok_def)
qed (use assms in \<open>auto simp: svc_ok_def split: if_splits\<close>)

lemma svc_ok_obj: "svc_ok s \<Longrightarrow> obj s a = Some ms \<Longrightarrow> ms_ok ms"
  by (simp add: svc_ok_def)

lemma registered_ID:
  "svc_ok s \<Longrightarrow> gm_get (ss_sessions s) sid = Some a \<Longrightarrow> obj s a = Some ms \<Longrightarrow> s_ID (ms_session ms) = sid"
  unfolding svc_ok_def by fastforce

lemma find_session_SomeD:
  "find_session s sid = Some am \<Longrightarrow>
   gm_get (ss_sessions s) sid = Some (fst am) \<and> obj s (fst am) = Some (snd am)"
  by (auto simp: find_session_def split: option.splits)

lemma find_session_ok:
  assumes "svc_ok s"
  shows "find_session s sid = None \<longleftrightarrow> gm_get (ss_sessions s) sid = None"
  using assms by (fastforce simp: find_session_def svc_ok_def split: option.splits)

lemma find_session_ID:
  assumes "svc_ok s" and "find_session s sid = Some am"
  shows "s_ID (ms_session (snd am)) = sid"
    and "s_State (ms_session (snd am)) \<in> {StateAlive, StateDetached}"
  using assms find_session_SomeD [OF assms(2)] by (fastforce simp: svc_ok_def)+

lemma svc_ok_set_session:
  assumes "svc_ok s" and "find_session s sid = Some am"
    and "\<And>ms. ms_ok ms \<Longrightarrow> ms_ok (f ms)" and "s_ID (ms_session (f (snd am))) = s_ID (ms_session (snd am))"
    and "s_State (ms_session (f (snd am))) = s_State (ms_session (snd am)) \<or>
         s_State (ms_session (f (snd am))) \<in> {StateAlive, StateDetached}"
  shows "svc_ok (set_session f am s)"
  unfolding set_session_def
  using assms find_session_SomeD [OF assms(2)] svc_ok_obj [OF assms(1)]
  by (intro svc_ok_set_obj [where ms = "snd am"]) auto

section \<open>Every operation keeps the invariant\<close>

lemma new_service_ok: "svc_ok (new_service n f t)"
  by (simp add: svc_ok_def new_service_def obj_def)

lemma pos_or_pos: "0 < d \<Longrightarrow> 0 < pos_or v d"
  by (simp add: pos_or_def)

lemma newBuffer_ok [simp]: "buf_ok (newBuffer h l sid) heap"
  by (simp add: newBuffer_def buf_ok_def so_ok_def so_arrs_def)

lemma Create_ok [inv_intros]:
  assumes "svc_ok s"
  shows "svc_ok (snd (svc_Create x now sid opts s))"
proof (cases "svc_Create x now sid opts s")
  case (Pair r s')
  show ?thesis
  proof (cases r)
    case (Inl e)
    with Pair assms show ?thesis
      by (auto simp: svc_Create_def Let_def split: if_splits sum.splits)
  next
    case (Inr sess)
    with Pair have valid: "ValidateSessionID sid = Inr ()"
      and fresh: "gm_get (ss_sessions s) sid = None"
      and room: "ss_maxSessions s > 0 \<Longrightarrow> int (length (ss_sessions s)) < ss_maxSessions s"
      by (auto simp: svc_Create_def Let_def split: if_splits sum.splits)
    from Inr Pair obtain ms where s': "s' = s\<lparr>ss_objs := gm_put (ss_next s) ms (ss_objs s),
        ss_next := Suc (ss_next s), ss_sessions := gm_put sid (ss_next s) (ss_sessions s)\<rparr>"
      and ms: "ms_ok ms" "s_ID (ms_session ms) = sid" "s_State (ms_session ms) = StateAlive"
      by (auto simp: svc_Create_def Let_def ms_ok_def newBuffer_def [of "pos_or _ _"] pos_or_pos
          defaultHighWatermark_def defaultLowWatermark_def buf_ok_def so_ok_def so_arrs_def
          split: if_splits sum.splits)
    have len: "length (gm_put sid (ss_next s) (ss_sessions s)) = Suc (length (ss_sessions s))"
      using assms fresh by (simp add: gm.size_put svc_ok_def)
    have old: "a < ss_next s" if "obj s a = Some m" for a m
      using assms that by (simp add: svc_ok_def)
    have fresh_obj: "obj s (ss_next s) = None" using old by fastforce
    have obj': "obj s' b = (if b = ss_next s then Some ms else obj s b)" for b
      by (simp add: s' obj_def)
    have reg: "\<exists>m. obj s b = Some m \<and> s_ID (ms_session m) = i \<and> s_State (ms_session m) \<in> {StateAlive, StateDetached}"
      if "gm_get (ss_sessions s) i = Some b" for i b
      using assms that by (simp add: svc_ok_def)
    have "svc_ok s'"
      unfolding svc_ok_def obj'
    proof (intro conjI allI impI)
      fix i b assume "gm_get (ss_sessions s') i = Some b"
      then show "\<exists>m. (if b = ss_next s then Some ms else obj s b) = Some m \<and> s_ID (ms_session m) = i \<and>
          s_State (ms_session m) \<in> {StateAlive, StateDetached}"
        using ms reg [of i b] old by (auto simp: s' split: if_splits)
    qed (use assms ms valid room old len in \<open>auto simp: svc_ok_def s' less_Suc_eq split: if_splits\<close>)
    with Pair show ?thesis by simp
  qed
qed

lemma close_once_ok [simp]: "ms_ok (close_once ms) = ms_ok ms"
  "ms_session (close_once ms) = ms_session ms"
  by (simp_all add: close_once_def ms_ok_def)

lemma kill_ms_ok [simp]: "ms_ok (kill_ms ms) = ms_ok ms" "ms_session (kill_ms ms) = ms_session ms"
  by (simp_all add: kill_ms_def ms_ok_def close_once_def)

lemma update_session_ok [simp]: "ms_ok (update_session f ms) = ms_ok ms"
  "ms_session (update_session f ms) = f (ms_session ms)"
  by (simp_all add: update_session_def ms_ok_def)

lemma find_after_unregister:
  "find_session (s\<lparr>ss_sessions := gm_del sid (ss_sessions s)\<rparr>) sid' =
     (if sid' = sid then None else find_session s sid')"
  by (auto simp: find_session_def obj_def split: option.splits)

lemma Kill_ok [inv_intros]:
  assumes "svc_ok s"
  shows "svc_ok (snd (svc_Kill sid s))"
proof (cases "find_session s sid")
  case None
  with assms show ?thesis by (simp add: svc_Kill_def)
next
  case (Some am)
  let ?s1 = "s\<lparr>ss_sessions := gm_del sid (ss_sessions s)\<rparr>"
  have "svc_ok ?s1" using assms by (rule svc_ok_unregister)
  moreover have "obj ?s1 (fst am) = Some (snd am)"
    using find_session_SomeD [OF Some] by (simp add: obj_def)
  ultimately have "svc_ok (set_obj (fst am) (kill_ms (snd am)) ?s1)"
    by (intro svc_ok_set_obj [where ms = "snd am"]) (auto intro: svc_ok_obj)
  with Some show ?thesis by (simp add: svc_Kill_def set_session_def)
qed

lemma Attach_ok [inv_intros]: "svc_ok s \<Longrightarrow> svc_ok (snd (svc_Attach sid s))"
  by (auto simp: svc_Attach_def split: option.splits intro: svc_ok_set_session)

lemma Detach_ok [inv_intros]: "svc_ok s \<Longrightarrow> svc_ok (snd (svc_Detach sid s))"
  by (auto simp: svc_Detach_def split: option.splits intro: svc_ok_set_session)

lemma Resize_ok [inv_intros]: "svc_ok s \<Longrightarrow> svc_ok (snd (svc_Resize x sid cols rows s))"
  by (auto simp: svc_Resize_def ms_ok_def split: option.splits sum.splits intro!: svc_ok_set_session)

lemma UpdateEmulatorScrollback_ok [inv_intros]:
  "svc_ok s \<Longrightarrow> svc_ok (snd (svc_UpdateEmulatorScrollback x sid n s))"
  by (auto simp: svc_UpdateEmulatorScrollback_def ms_ok_def split: option.splits emulator.splits
      intro!: svc_ok_set_session)

lemma WriteInput_ok [inv_intros]: "svc_ok s \<Longrightarrow> svc_ok (snd (svc_WriteInput sid d s))"
  by (auto simp: svc_WriteInput_def ms_ok_def split: option.splits sum.splits intro!: svc_ok_set_session)

lemma MetaSet_ok [inv_intros]: "svc_ok s \<Longrightarrow> svc_ok (snd (svc_MetaSet sid k v s))"
  by (auto simp: svc_MetaSet_def split: option.splits intro!: svc_ok_set_session)

lemma Buffer_Read_frame:
  assumes "Buffer_Read (b, h, t) = (out, (b', h', t'))"
  shows "h' = h" "lowWatermark b' = lowWatermark b" "highWatermark b' = highWatermark b"
  using assms by (auto simp: Buffer_Read_def Let_def split: if_splits)

lemma Buffer_Read_buf_ok:
  "buf_ok b h \<Longrightarrow> Buffer_Read (b, h, t) = (out, (b', h', t')) \<Longrightarrow> buf_ok b' h'"
  by (erule Buffer_Read_spec [where t = t]) auto

lemma Buffer_Write_frame:
  assumes "Buffer_Write grow p (b, h, t) = (n, (b', h', t'))"
  shows "lowWatermark b' = lowWatermark b" "highWatermark b' = highWatermark b"
  using assms by (auto simp: Buffer_Write_def Let_def split: if_splits prod.splits)

lemma Buffer_Write_buf_ok:
  "buf_ok b h \<Longrightarrow> Buffer_Write grow p (b, h, t) = (n, (b', h', t')) \<Longrightarrow> buf_ok b' h'"
  by (erule Buffer_Write_spec [where grow = grow and p = p and t = t]) auto

lemma ReadOutput_ok [inv_intros]:
  assumes "svc_ok s"
  shows "svc_ok (snd (svc_ReadOutput sid s))"
proof (cases "find_session s sid")
  case None
  with assms show ?thesis by (simp add: svc_ReadOutput_def)
next
  case (Some am)
  obtain out b h t where r: "Buffer_Read (ms_buffer (snd am), ms_heap (snd am), ss_tracer s) = (out, (b, h, t))"
    by (metis prod_cases4)
  let ?ms' = "(snd am)\<lparr>ms_buffer := b, ms_heap := h\<rparr>"
  have o: "obj s (fst am) = Some (snd am)" using find_session_SomeD [OF Some] by simp
  have "ms_ok ?ms'"
    using svc_ok_obj [OF assms o] Buffer_Read_frame [OF r] Buffer_Read_buf_ok [OF _ r]
    by (simp add: ms_ok_def)
  then have "svc_ok (set_obj (fst am) ?ms' s)"
    using assms o by (intro svc_ok_set_obj [where ms = "snd am"]) auto
  then have "svc_ok ((set_obj (fst am) ?ms' s)\<lparr>ss_tracer := t\<rparr>)"
    by (subst svc_ok_cong [where s = "set_obj (fst am) ?ms' s"]) simp_all
  with Some r show ?thesis by (simp add: svc_ReadOutput_def set_session_def)
qed

lemma feed_chunk_ok [simp]: "ms_ok ms \<Longrightarrow> ms_ok (feed_chunk d now ms)"
  "ms_session (feed_chunk d now ms) = ms_session ms"
  by (auto simp: feed_chunk_def ms_ok_def)

lemma readLoop_ok [inv_intros]:
  assumes "svc_ok s"
  shows "svc_ok (readLoop_iter x a d err now s)"
proof (cases "obj s a")
  case None
  with assms show ?thesis by (simp add: readLoop_iter_def)
next
  case (Some ms)
  have m: "ms_ok ms" using assms Some by (rule svc_ok_obj)
  have step: "svc_ok (set_obj a ms' s1)"
    if f: "ss_objs s1 = ss_objs s" "ss_sessions s1 = ss_sessions s" "ss_next s1 = ss_next s"
      "ss_maxSessions s1 = ss_maxSessions s"
      and "ms_ok ms'" "ms_session ms' = ms_session ms" for s1 :: "'a service" and ms'
  proof -
    have "svc_ok s1" using assms svc_ok_cong [OF f] by simp
    moreover have "obj s1 a = Some ms" using Some f(1) by (simp add: obj_def)
    ultimately show ?thesis using that by (intro svc_ok_set_obj [where ms = ms]) auto
  qed
  have "ms_ok (ms\<lparr>ms_readDone := True\<rparr>)" "ms_ok ((feed_chunk d now ms)\<lparr>ms_readDone := True\<rparr>)"
    using m by (auto simp: ms_ok_def feed_chunk_def)
  with Some assms m show ?thesis
    unfolding readLoop_iter_def Let_def by (auto intro!: step)
qed

lemma emulatorLoop_ok [inv_intros]:
  assumes "svc_ok s"
  shows "svc_ok (emulatorLoop_iter x a s)"
proof (cases "obj s a")
  case None
  with assms show ?thesis by (simp add: emulatorLoop_iter_def)
next
  case (Some ms)
  have m: "ms_ok ms" using assms Some by (rule svc_ok_obj)
  have upd: "svc_ok (set_obj a (ms\<lparr>ms_emulator := em, ms_emCh := ds\<rparr>) s)"
    if "ms_emCh ms = d # ds" for d ds em
    using assms Some m that by (intro svc_ok_set_obj [where ms = ms]) (auto simp: ms_ok_def)
  have upd0: "svc_ok (set_obj a (ms\<lparr>ms_emCh := ds\<rparr>) s)" if "ms_emCh ms = d # ds" for d ds
    using assms Some m that by (intro svc_ok_set_obj [where ms = ms]) (auto simp: ms_ok_def)
  have em: "svc_ok (emit_if ev s1) = svc_ok s1" for ev and s1 :: "'a service"
    by (rule svc_ok_cong) simp_all
  show ?thesis
    using Some assms upd upd0 by (auto simp: emulatorLoop_iter_def em split: list.splits option.splits)
qed

lemma batcher_ok [inv_intros]:
  assumes "svc_ok s"
  shows "svc_ok (batcher_iter x a arm s)"
proof (cases "obj s a")
  case None
  with assms show ?thesis by (simp add: batcher_iter_def)
next
  case (Some ms)
  have m: "ms_ok ms" using assms Some by (rule svc_ok_obj)
  show ?thesis
  proof (cases "loop_step arm (ms_batcher ms)")
    case None
    with Some assms show ?thesis by (simp add: batcher_iter_def)
  next
    case (Some rb)
    obtain r bt where rb: "rb = (r, bt)" by (cases rb)
    show ?thesis
    proof (cases r)
      case None
      have "svc_ok (set_obj a (ms\<lparr>ms_batcher := bt\<rparr>) s)"
        using assms \<open>obj s a = Some ms\<close> m by (intro svc_ok_set_obj [where ms = ms]) (auto simp: ms_ok_def)
      with None rb Some \<open>obj s a = Some ms\<close> show ?thesis by (simp add: batcher_iter_def)
    next
      case (Some d)
      obtain n b h t where w: "Buffer_Write (x_grow x) d (ms_buffer ms, ms_heap ms, ss_tracer s) = (n, (b, h, t))"
        by (metis prod_cases4)
      let ?ms' = "ms\<lparr>ms_batcher := bt, ms_buffer := b, ms_heap := h\<rparr>"
      have "ms_ok ?ms'"
        using m Buffer_Write_frame [OF w] Buffer_Write_buf_ok [OF _ w] by (simp add: ms_ok_def)
      then have base: "svc_ok (set_obj a ?ms' s)"
        using assms \<open>obj s a = Some ms\<close> by (intro svc_ok_set_obj [where ms = ms]) auto
      have "svc_ok (batcher_iter x a arm s) = svc_ok (set_obj a ?ms' s)"
        using \<open>obj s a = Some ms\<close> \<open>loop_step arm (ms_batcher ms) = Some rb\<close> rb Some w
        by (intro svc_ok_cong) (simp_all add: batcher_iter_def Let_def)
      with base show ?thesis by simp
    qed
  qed
qed

lemma release_exit_ms_ok: "ms_ok ms \<Longrightarrow> ms_ok (release_ms x (exit_ms code now ms))"
  by (simp add: release_ms_def exit_ms_def update_session_def Let_def ms_ok_def close_once_def)

lemma waitLoop_eq:
  assumes "obj s a = Some ms"
  shows "\<exists>t. waitLoop x a code now s =
     (set_obj a (release_ms x (exit_ms code now ms)) s)
       \<lparr>ss_sessions := gm_del (s_ID (ms_session ms)) (ss_sessions s), ss_tracer := t,
        ss_callbacks := ss_callbacks s @ (if ss_hasOnExit s then [CbExit (s_ID (ms_session ms)) code] else [])\<rparr>"
proof -
  have upd: "gm_put a y (gm_put a z m) = gm_put a y m" for y z and m :: "(nat, 'a managed) gomap"
    by (induction m) auto
  show ?thesis
    using assms
    by (intro exI [of _ "ss_tracer (waitLoop x a code now s)"], cases s)
       (auto simp: waitLoop_def Let_def set_obj_def emit_if_def upd obj_def)
qed

text \<open>A registered session is registered under its own id, so an unregistered id frees the object.\<close>

lemma unregistered_after_del:
  assumes "svc_ok s" and "obj s a = Some ms"
  shows "gm_get (gm_del (s_ID (ms_session ms)) (ss_sessions s)) sid \<noteq> Some a"
proof
  assume "gm_get (gm_del (s_ID (ms_session ms)) (ss_sessions s)) sid = Some a"
  then have "sid \<noteq> s_ID (ms_session ms)" "gm_get (ss_sessions s) sid = Some a"
    by (auto split: if_splits)
  moreover from this(2) assms have "s_ID (ms_session ms) = sid" by (simp add: registered_ID)
  ultimately show False by simp
qed

lemma waitLoop_ok [inv_intros]:
  assumes "svc_ok s"
  shows "svc_ok (waitLoop x a code now s)"
proof (cases "obj s a")
  case None
  with assms show ?thesis by (simp add: waitLoop_def)
next
  case (Some ms)
  let ?s1 = "s\<lparr>ss_sessions := gm_del (s_ID (ms_session ms)) (ss_sessions s)\<rparr>"
  let ?ms' = "release_ms x (exit_ms code now ms)"
  obtain t where w: "waitLoop x a code now s = (set_obj a ?ms' s)
       \<lparr>ss_sessions := gm_del (s_ID (ms_session ms)) (ss_sessions s), ss_tracer := t,
        ss_callbacks := ss_callbacks s @ (if ss_hasOnExit s then [CbExit (s_ID (ms_session ms)) code] else [])\<rparr>"
    using waitLoop_eq [OF Some] by blast
  have "svc_ok (set_obj a ?ms' ?s1)"
    using Some svc_ok_obj [OF assms Some] unregistered_after_del [OF assms Some]
    by (intro svc_ok_set_dead [where ms = ms] svc_ok_unregister assms)
       (auto simp: obj_def release_exit_ms_ok)
  then show ?thesis
    unfolding w by (subst svc_ok_cong [where s = "set_obj a ?ms' ?s1"]) (simp_all add: set_obj_def)
qed

lemma reaper_loop_ok: "svc_ok s \<Longrightarrow> svc_ok (snd (reaper_loop ttl now ss s))"
proof (induction ss arbitrary: s)
  case (Cons z ss)
  then show ?case
    using Cons.IH [OF Kill_ok [OF Cons.prems, of "s_ID z"]]
    by (auto split: sum.splits prod.splits)
qed simp

lemma watchdog_loop_ok: "svc_ok s \<Longrightarrow> svc_ok (snd (watchdog_loop alive ss s))"
proof (induction ss arbitrary: s)
  case (Cons z ss)
  then show ?case
    using Cons.IH [OF Kill_ok [OF Cons.prems, of "s_ID z"]]
    by (auto split: prod.splits)
qed simp

lemma reaper_ok [inv_intros]: "svc_ok s \<Longrightarrow> svc_ok (snd (reaper_tick ttl now s))"
  by (simp add: reaper_tick_def reaper_loop_ok)

lemma watchdog_ok [inv_intros]: "svc_ok s \<Longrightarrow> svc_ok (snd (watchdog_tick alive s))"
  by (simp add: watchdog_tick_def watchdog_loop_ok)

section \<open>Runs of the service\<close>

text \<open>
  Any interleaving of client calls, goroutine iterations and ticks. Each step may meet a
  different environment (\<open>x\<close>) and time.
\<close>

inductive svc_step :: "'e service \<Rightarrow> 'e service \<Rightarrow> bool" where
  st_create: "svc_step s (snd (svc_Create x now sid opts s))"
| st_kill: "svc_step s (snd (svc_Kill sid s))"
| st_attach: "svc_step s (snd (svc_Attach sid s))"
| st_detach: "svc_step s (snd (svc_Detach sid s))"
| st_resize: "svc_step s (snd (svc_Resize x sid cols rows s))"
| st_scroll: "svc_step s (snd (svc_UpdateEmulatorScrollback x sid n s))"
| st_input: "svc_step s (snd (svc_WriteInput sid d s))"
| st_meta: "svc_step s (snd (svc_MetaSet sid k v s))"
| st_output: "svc_step s (snd (svc_ReadOutput sid s))"
| st_read: "svc_step s (readLoop_iter x a d err now s)"
| st_emulate: "svc_step s (emulatorLoop_iter x a s)"
| st_batch: "svc_step s (batcher_iter x a arm s)"
| st_exit: "svc_step s (waitLoop x a code now s)"
| st_reap: "svc_step s (snd (reaper_tick ttl now s))"
| st_watch: "svc_step s (snd (watchdog_tick alive s))"

inductive svc_reach :: "int \<Rightarrow> 'e service \<Rightarrow> bool" for n where
  sr_new: "svc_reach n (new_service n f t)"
| sr_step: "svc_reach n s \<Longrightarrow> svc_step s s' \<Longrightarrow> svc_reach n s'"

lemma svc_step_ok: "svc_step s s' \<Longrightarrow> svc_ok s \<Longrightarrow> svc_ok s'"
  by (induction rule: svc_step.induct) (auto intro: inv_intros)

lemma svc_reach_ok: "svc_reach n s \<Longrightarrow> svc_ok s"
  by (induction rule: svc_reach.induct) (auto intro: new_service_ok svc_step_ok)

section \<open>What the calls do\<close>

lemma find_session_set_obj:
  "find_session (set_obj a ms s) sid =
     (case gm_get (ss_sessions s) sid of
        None \<Rightarrow> None
      | Some b \<Rightarrow> if b = a then Some (a, ms) else map_option (\<lambda>m. (b, m)) (obj s b))"
  by (auto simp: find_session_def split: option.splits)

lemma find_set_session:
  assumes "svc_ok s" and "find_session s sid = Some am"
  shows "find_session (set_session f am s) sid' =
     (if sid' = sid then Some (fst am, f (snd am)) else find_session s sid')"
proof -
  have a: "gm_get (ss_sessions s) sid = Some (fst am)" "obj s (fst am) = Some (snd am)"
    using find_session_SomeD [OF assms(2)] by auto
  have "gm_get (ss_sessions s) sid' \<noteq> Some (fst am)" if "sid' \<noteq> sid"
    using registered_ID [OF assms(1) _ a(2)] a(1) that by metis
  with a show ?thesis
    by (auto simp: set_session_def find_session_set_obj find_session_def split: option.splits)
qed

lemma Kill_find:
  assumes "svc_ok s"
  shows "find_session (snd (svc_Kill sid s)) sid' = (if sid' = sid then None else find_session s sid')"
proof (cases "find_session s sid")
  case None
  then show ?thesis by (auto simp: svc_Kill_def)
next
  case (Some am)
  let ?s1 = "s\<lparr>ss_sessions := gm_del sid (ss_sessions s)\<rparr>"
  have a: "gm_get (ss_sessions s) sid = Some (fst am)" "obj s (fst am) = Some (snd am)"
    using find_session_SomeD [OF Some] by auto
  have "gm_get (ss_sessions ?s1) sid' \<noteq> Some (fst am)"
    using registered_ID [OF assms _ a(2), of sid'] registered_ID [OF assms a] by auto
  then have "find_session (set_obj (fst am) ms ?s1) sid' = find_session ?s1 sid'" for ms
    by (auto simp: find_session_set_obj find_session_def split: option.splits)
  with Some show ?thesis
    by (simp add: svc_Kill_def set_session_def find_after_unregister)
qed

lemma svc_List_iff:
  assumes "svc_ok s"
  shows "z \<in> set (svc_List s) \<longleftrightarrow> (\<exists>a ms. find_session s (s_ID z) = Some (a, ms) \<and> ms_session ms = z)"
proof -
  have get: "(sid, a) \<in> set (ss_sessions s) \<longleftrightarrow> gm_get (ss_sessions s) sid = Some a" for sid a
    using assms by (simp add: svc_ok_def gm_get_iff_mem)
  show ?thesis
  proof
    assume "z \<in> set (svc_List s)"
    then obtain sid a ms where "gm_get (ss_sessions s) sid = Some a" "obj s a = Some ms" "ms_session ms = z"
      by (auto simp: svc_List_def set_map_filter get)
    moreover from this assms have "s_ID z = sid" by (metis registered_ID)
    ultimately show "\<exists>a ms. find_session s (s_ID z) = Some (a, ms) \<and> ms_session ms = z"
      by (simp add: find_session_def)
  next
    assume "\<exists>a ms. find_session s (s_ID z) = Some (a, ms) \<and> ms_session ms = z"
    then obtain a ms where "gm_get (ss_sessions s) (s_ID z) = Some a" "obj s a = Some ms" "ms_session ms = z"
      by (auto dest: find_session_SomeD)
    then have "(s_ID z, a) \<in> set (ss_sessions s)" "map_option ms_session (obj s a) = Some z"
      by (simp_all add: get)
    then show "z \<in> set (svc_List s)"
      unfolding svc_List_def set_map_filter by force
  qed
qed

text \<open>The reaper: what it reports, it killed; what it kills was detached and idle.\<close>

lemma reaper_loop_spec:
  assumes "svc_ok s" and "reaper_loop ttl now zs s = (ids, s')"
  shows "find_session s' sid = (if sid \<in> set ids then None else find_session s sid)"
    and "sid \<in> set ids \<Longrightarrow> \<exists>z \<in> set zs. s_ID z = sid \<and> s_State z = StateDetached
           \<and> (\<exists>t. svc_LastActivity s sid = Inr t \<and> ttl \<le> now - t)"
    and "z \<in> set zs \<Longrightarrow> s_State z = StateDetached \<Longrightarrow> svc_LastActivity s (s_ID z) = Inr t \<Longrightarrow>
         ttl \<le> now - t \<Longrightarrow> s_ID z \<in> set ids"
proof -
  have "(\<forall>sid. find_session s' sid = (if sid \<in> set ids then None else find_session s sid)) \<and>
    (\<forall>sid \<in> set ids. \<exists>z \<in> set zs. s_ID z = sid \<and> s_State z = StateDetached
           \<and> (\<exists>t. svc_LastActivity s sid = Inr t \<and> ttl \<le> now - t)) \<and>
    (\<forall>z \<in> set zs. \<forall>t. s_State z = StateDetached \<and> svc_LastActivity s (s_ID z) = Inr t \<and>
         ttl \<le> now - t \<longrightarrow> s_ID z \<in> set ids)"
    using assms
  proof (induction zs arbitrary: s ids)
    case (Cons z zs)
    show ?case
    proof (cases "\<exists>t. s_State z = StateDetached \<and> svc_LastActivity s (s_ID z) = Inr t \<and> ttl \<le> now - t")
      case False
      then have "reaper_loop ttl now zs s = (ids, s')"
        using Cons.prems(2) by (auto split: if_splits sum.splits)
      note IH = Cons.IH [OF Cons.prems(1) this]
      with False show ?thesis by (auto split: if_splits)
    next
      case True
      let ?k = "snd (svc_Kill (s_ID z) s)"
      obtain ids1 where r: "reaper_loop ttl now zs ?k = (ids1, s')" and ids: "ids = s_ID z # ids1"
        using True Cons.prems(2) by (auto split: if_splits sum.splits prod.splits)
      note IH = Cons.IH [OF Kill_ok [OF Cons.prems(1)] r]
      have act: "svc_LastActivity ?k sid = (if sid = s_ID z then Inl ErrSessionNotFound else svc_LastActivity s sid)" for sid
        by (simp add: svc_LastActivity_def Kill_find [OF Cons.prems(1)])
      have not_z: "svc_LastActivity ?k sid = Inr t \<Longrightarrow> sid \<noteq> s_ID z \<and> svc_LastActivity s sid = Inr t" for sid t
        by (simp add: act split: if_splits)
      have 1: "\<forall>sid. find_session s' sid = (if sid \<in> set ids then None else find_session s sid)"
        using IH by (simp add: ids Kill_find [OF Cons.prems(1)])
      have 2: "\<forall>sid \<in> set ids1. \<exists>z \<in> set (z # zs). s_ID z = sid \<and> s_State z = StateDetached
           \<and> (\<exists>t. svc_LastActivity s sid = Inr t \<and> ttl \<le> now - t)"
        using IH not_z by (meson list.set_intros(2))
      have 3: "\<forall>y \<in> set zs. \<forall>t. s_State y = StateDetached \<and> svc_LastActivity s (s_ID y) = Inr t \<and>
         ttl \<le> now - t \<longrightarrow> s_ID y \<in> set ids"
      proof (intro ballI allI impI)
        fix y t assume y: "y \<in> set zs"
          and h: "s_State y = StateDetached \<and> svc_LastActivity s (s_ID y) = Inr t \<and> ttl \<le> now - t"
        show "s_ID y \<in> set ids"
        proof (cases "s_ID y = s_ID z")
          case False
          with h have "svc_LastActivity ?k (s_ID y) = Inr t" by (simp add: act)
          with IH y h show ?thesis by (auto simp: ids)
        qed (simp add: ids)
      qed
      from 1 2 3 True show ?thesis by (auto simp: ids)
    qed
  qed simp
  then show "find_session s' sid = (if sid \<in> set ids then None else find_session s sid)"
    and "sid \<in> set ids \<Longrightarrow> \<exists>z \<in> set zs. s_ID z = sid \<and> s_State z = StateDetached
           \<and> (\<exists>t. svc_LastActivity s sid = Inr t \<and> ttl \<le> now - t)"
    and "z \<in> set zs \<Longrightarrow> s_State z = StateDetached \<Longrightarrow> svc_LastActivity s (s_ID z) = Inr t \<Longrightarrow>
         ttl \<le> now - t \<Longrightarrow> s_ID z \<in> set ids"
    by blast+
qed

section \<open>The output pipeline\<close>

text \<open>
  The bytes of a session that were read from the terminal and not yet drained: first those in
  the buffer, then those in the batch.
\<close>

definition pipeline :: "'e managed \<Rightarrow> bytes" where
  "pipeline ms = so_bytes (ms_heap ms) (b_data (ms_buffer ms)) @ bt_buf (ms_batcher ms)"

lemma pipeline_feed: "pipeline (feed_chunk d now ms) = pipeline ms @ d"
  by (simp add: pipeline_def feed_chunk_def Add_def Let_def)

lemma readLoop_pipeline:
  assumes "obj s a = Some ms"
  shows "\<exists>ms'. obj (readLoop_iter x a d err now s) a = Some ms' \<and>
     pipeline ms' = pipeline ms @ (if ms_readDone ms \<or> paused (ms_buffer ms) then [] else d)"
proof -
  have "pipeline (m\<lparr>ms_readDone := b\<rparr>) = pipeline m" for m :: "'a managed" and b
    by (simp add: pipeline_def)
  with assms show ?thesis by (auto simp: readLoop_iter_def Let_def pipeline_feed)
qed

lemma doFlush_bytes: "doFlush b = (r, b') \<Longrightarrow> (case r of None \<Rightarrow> [] | Some d \<Rightarrow> d) @ bt_buf b' = bt_buf b"
  by (auto simp: doFlush_def split: if_splits)

lemma loop_step_bytes:
  "loop_step arm b = Some (r, b') \<Longrightarrow> (case r of None \<Rightarrow> [] | Some d \<Rightarrow> d) @ bt_buf b' = bt_buf b"
  by (auto simp: loop_step_def doFlush_def split: if_splits select_arm.splits)

lemma batcher_pipeline:
  assumes "svc_ok s" and "obj s a = Some ms"
  shows "\<exists>ms'. obj (batcher_iter x a arm s) a = Some ms' \<and> pipeline ms' = pipeline ms"
proof (cases "loop_step arm (ms_batcher ms)")
  case None
  with assms show ?thesis by (simp add: batcher_iter_def)
next
  case (Some rb)
  obtain r bt where rb: "rb = (r, bt)" by (cases rb)
  note bytes = loop_step_bytes [OF Some [unfolded rb]]
  have ok: "buf_ok (ms_buffer ms) (ms_heap ms)"
    using svc_ok_obj [OF assms] by (simp add: ms_ok_def)
  show ?thesis
  proof (cases r)
    case None
    with assms Some rb bytes show ?thesis
      by (auto simp: batcher_iter_def pipeline_def)
  next
    case (Some d)
    obtain b h t where w: "Buffer_Write (x_grow x) d (ms_buffer ms, ms_heap ms, ss_tracer s) = (length d, (b, h, t))"
      and "buf_abs (b, h, t) = a_write d (buf_abs (ms_buffer ms, ms_heap ms, ss_tracer s))"
      by (rule Buffer_Write_spec [OF ok, where grow = "x_grow x" and p = d and t = "ss_tracer s"])
    then have data: "so_bytes h (b_data b) = so_bytes (ms_heap ms) (b_data (ms_buffer ms)) @ d"
      by (simp add: buf_abs_def a_write_def Let_def)
    have "obj (batcher_iter x a arm s) a = Some (ms\<lparr>ms_batcher := bt, ms_buffer := b, ms_heap := h\<rparr>)"
      using assms \<open>loop_step arm (ms_batcher ms) = Some rb\<close> rb Some w
      by (simp add: batcher_iter_def Let_def obj_def set_obj_def)
    then show ?thesis using data bytes Some by (auto simp: pipeline_def)
  qed
qed

lemma ReadOutput_pipeline:
  assumes "svc_ok s" and "find_session s sid = Some (a, ms)"
  shows "\<exists>ms' out. fst (svc_ReadOutput sid s) = Inr out \<and>
     find_session (snd (svc_ReadOutput sid s)) sid = Some (a, ms') \<and>
     out @ pipeline ms' = pipeline ms \<and> \<not> (out \<noteq> [] \<and> paused (ms_buffer ms'))"
proof -
  have o: "obj s a = Some ms" and g: "gm_get (ss_sessions s) sid = Some a"
    using find_session_SomeD [OF assms(2)] by auto
  have ok: "buf_ok (ms_buffer ms) (ms_heap ms)" "0 < lowWatermark (ms_buffer ms)"
    using svc_ok_obj [OF assms(1) o] by (auto simp: ms_ok_def)
  obtain b t out where r: "Buffer_Read (ms_buffer ms, ms_heap ms, ss_tracer s) = (out, (b, ms_heap ms, t))"
    and abs: "(so_bytes (ms_heap ms) out, buf_abs (b, ms_heap ms, t))
       = a_read (buf_abs (ms_buffer ms, ms_heap ms, ss_tracer s))"
    by (rule Buffer_Read_spec [OF ok(1), where t = "ss_tracer s"])
  let ?ms' = "ms\<lparr>ms_buffer := b, ms_heap := ms_heap ms\<rparr>"
  have "svc_ReadOutput sid s = (Inr (so_bytes (ms_heap ms) out), (set_obj a ?ms' s)\<lparr>ss_tracer := t\<rparr>)"
    using assms(2) r by (simp add: svc_ReadOutput_def set_session_def)
  moreover have "find_session ((set_obj a ?ms' s)\<lparr>ss_tracer := t\<rparr>) sid = Some (a, ?ms')"
    using g by (simp add: find_session_def obj_def set_obj_def)
  moreover have "so_bytes (ms_heap ms) out = so_bytes (ms_heap ms) (b_data (ms_buffer ms))"
    "so_bytes (ms_heap ms) (b_data b) = []"
    using abs by (auto simp: buf_abs_def a_read_def a_readn_def split: if_splits)
  moreover have "so_bytes (ms_heap ms) out \<noteq> [] \<longrightarrow> \<not> paused b"
    using abs ok(2) by (auto simp: buf_abs_def a_read_def a_readn_def split: if_splits)
  ultimately show ?thesis by (auto simp: pipeline_def)
qed

lemma map_filter_total: "(\<And>x. x \<in> set xs \<Longrightarrow> f x \<noteq> None) \<Longrightarrow> length (List.map_filter f xs) = length xs"
  by (induction xs) (auto simp: List.map_filter_simps split: option.splits)

lemma len_svc_List: "svc_ok s \<Longrightarrow> length (svc_List s) = length (ss_sessions s)"
  unfolding svc_List_def
  by (rule map_filter_total) (fastforce simp: svc_ok_def gm_get_iff_mem)

section \<open>Runs of one session's goroutines\<close>

text \<open>
  What happens to the output of one session: the read loop gets a chunk, the batcher's loop takes
  an arm, the emulator consumes a chunk, a client drains. \<open>run_pipe\<close> returns what was read from the
  terminal, what the drains returned, and the final service.
\<close>

datatype pipe_ev = PRead bytes bool time | PBatch select_arm | PEmulate | PDrain

fun step_pipe :: "'e ext \<Rightarrow> bytes \<Rightarrow> nat \<Rightarrow> pipe_ev \<Rightarrow> 'e service \<Rightarrow> bytes \<times> bytes \<times> 'e service" where
  "step_pipe x sid a (PRead d err now) s =
     ((case obj s a of
         None \<Rightarrow> []
       | Some ms \<Rightarrow> if ms_readDone ms \<or> paused (ms_buffer ms) then [] else d),
      [], readLoop_iter x a d err now s)"
| "step_pipe x sid a (PBatch arm) s = ([], [], batcher_iter x a arm s)"
| "step_pipe x sid a PEmulate s = ([], [], emulatorLoop_iter x a s)"
| "step_pipe x sid a PDrain s =
     (case svc_ReadOutput sid s of (r, s') \<Rightarrow> ([], case r of Inl _ \<Rightarrow> [] | Inr out \<Rightarrow> out, s'))"

fun run_pipe :: "'e ext \<Rightarrow> bytes \<Rightarrow> nat \<Rightarrow> pipe_ev list \<Rightarrow> 'e service \<Rightarrow> bytes \<times> bytes \<times> 'e service" where
  "run_pipe x sid a [] s = ([], [], s)"
| "run_pipe x sid a (e # es) s =
     (case step_pipe x sid a e s of (rd, out, s1) \<Rightarrow>
      case run_pipe x sid a es s1 of (rd', out', s2) \<Rightarrow> (rd @ rd', out @ out', s2))"

lemma loop_iters_sessions:
  "ss_sessions (readLoop_iter x a d err now s) = ss_sessions s"
  "ss_sessions (batcher_iter x a arm s) = ss_sessions s"
  "ss_sessions (emulatorLoop_iter x a s) = ss_sessions s"
  by (auto simp: readLoop_iter_def batcher_iter_def emulatorLoop_iter_def Let_def
      split: option.splits prod.splits list.splits)

lemma emulator_pipeline:
  "obj s a = Some ms \<Longrightarrow> \<exists>ms'. obj (emulatorLoop_iter x a s) a = Some ms' \<and> pipeline ms' = pipeline ms"
  by (auto simp: emulatorLoop_iter_def pipeline_def obj_def [of "emit_if _ _"] simp flip: obj_def
      split: list.splits option.splits)

lemma step_pipe_bytes:
  assumes "svc_ok s" and "find_session s sid = Some (a, ms)" and "step_pipe x sid a e s = (rd, out, s')"
  shows "svc_ok s' \<and> (\<exists>ms'. find_session s' sid = Some (a, ms') \<and> pipeline ms @ rd = out @ pipeline ms')"
proof -
  have o: "obj s a = Some ms" and g: "gm_get (ss_sessions s) sid = Some a"
    using find_session_SomeD [OF assms(2)] by auto
  have lift: "find_session s1 sid = Some (a, m)" if "ss_sessions s1 = ss_sessions s" "obj s1 a = Some m" for s1 m
    using that g by (simp add: find_session_def)
  show ?thesis
  proof (cases e)
    case (PRead d err now)
    with readLoop_pipeline [OF o, of x d err now] assms o lift [OF loop_iters_sessions(1)] show ?thesis
      by (auto intro!: inv_intros)
  next
    case (PBatch arm)
    with batcher_pipeline [OF assms(1) o, of x arm] assms lift [OF loop_iters_sessions(2)] show ?thesis
      by (auto intro!: inv_intros)
  next
    case PEmulate
    with emulator_pipeline [OF o, of x] assms lift [OF loop_iters_sessions(3)] show ?thesis
      by (auto intro!: inv_intros)
  next
    case PDrain
    have "svc_ok (snd (svc_ReadOutput sid s))" using assms(1) by (rule inv_intros)
    with PDrain ReadOutput_pipeline [OF assms(1,2)] assms(3) show ?thesis
      by (auto split: prod.splits)
  qed
qed

lemma run_pipe_bytes:
  assumes "svc_ok s" and "find_session s sid = Some (a, ms)" and "run_pipe x sid a es s = (rd, out, s')"
  shows "svc_ok s' \<and> (\<exists>ms'. find_session s' sid = Some (a, ms') \<and> pipeline ms @ rd = out @ pipeline ms')"
  using assms
proof (induction es arbitrary: s ms rd out)
  case (Cons e es)
  obtain rd1 out1 s1 where st: "step_pipe x sid a e s = (rd1, out1, s1)" by (cases "step_pipe x sid a e s")
  obtain rd2 out2 where r: "run_pipe x sid a es s1 = (rd2, out2, s')" and eq: "rd = rd1 @ rd2" "out = out1 @ out2"
    using Cons.prems(3) st by (auto split: prod.splits)
  obtain ms1 where 1: "svc_ok s1" "find_session s1 sid = Some (a, ms1)" "pipeline ms @ rd1 = out1 @ pipeline ms1"
    using step_pipe_bytes [OF Cons.prems(1,2) st] by blast
  obtain ms' where 2: "svc_ok s'" "find_session s' sid = Some (a, ms')" "pipeline ms1 @ rd2 = out2 @ pipeline ms'"
    using Cons.IH [OF 1(1,2) r] by blast
  have "pipeline ms @ rd = out @ pipeline ms'"
    using 1(3) 2(3) by (metis append.assoc eq)
  with 2 show ?case by blast
qed simp

lemma set_session_max [simp]: "ss_maxSessions (set_session f am s) = ss_maxSessions s"
  by (simp add: set_session_def)

lemma Kill_max [simp]: "ss_maxSessions (snd (svc_Kill sid s)) = ss_maxSessions s"
  by (simp add: svc_Kill_def split: option.splits)

lemma ticks_max [simp]:
  "ss_maxSessions (snd (reaper_loop ttl now zs s)) = ss_maxSessions s"
  "ss_maxSessions (snd (watchdog_loop alive zs s)) = ss_maxSessions s"
  by (induction zs arbitrary: s) (auto split: sum.splits prod.splits, (metis Kill_max snd_conv)+)

lemma waitLoop_max [simp]: "ss_maxSessions (waitLoop x a code now s) = ss_maxSessions s"
proof (cases "obj s a")
  case (Some ms)
  show ?thesis using waitLoop_eq [OF Some, of x code now] by auto
qed (simp add: waitLoop_def)

lemma loop_iters_max [simp]:
  "ss_maxSessions (readLoop_iter x a d err now s) = ss_maxSessions s"
  "ss_maxSessions (batcher_iter x a arm s) = ss_maxSessions s"
  "ss_maxSessions (emulatorLoop_iter x a s) = ss_maxSessions s"
  by (auto simp: readLoop_iter_def batcher_iter_def emulatorLoop_iter_def Let_def
      split: option.splits prod.splits list.splits)

lemma svc_step_max: "svc_step s s' \<Longrightarrow> ss_maxSessions s' = ss_maxSessions s"
proof (induction rule: svc_step.induct)
  case (st_create s x now sid opts)
  show ?case by (auto simp: svc_Create_def Let_def split: sum.splits)
qed (auto simp: svc_Attach_def svc_Detach_def svc_Resize_def svc_UpdateEmulatorScrollback_def
    svc_WriteInput_def svc_MetaSet_def svc_ReadOutput_def reaper_tick_def watchdog_tick_def
    split: option.splits sum.splits emulator.splits prod.splits)

lemma svc_reach_max: "svc_reach n s \<Longrightarrow> ss_maxSessions s = n"
  by (induction rule: svc_reach.induct) (auto simp: new_service_def svc_step_max)

lemma watchdog_loop_spec:
  assumes "svc_ok s" and "watchdog_loop alive zs s = (ids, s')"
  shows "ids = map s_ID (filter (\<lambda>z. \<not> IsTerminal (s_State z) \<and> \<not> alive (s_Pid z)) zs) \<and>
     find_session s' = (\<lambda>sid. if sid \<in> set ids then None else find_session s sid)"
  using assms
proof (induction zs arbitrary: s ids)
  case (Cons z zs)
  show ?case
  proof (cases "\<not> IsTerminal (s_State z) \<and> \<not> alive (s_Pid z)")
    case True
    then obtain ids1 where r: "watchdog_loop alive zs (snd (svc_Kill (s_ID z) s)) = (ids1, s')"
      and "ids = s_ID z # ids1"
      using Cons.prems(2) by (auto split: prod.splits)
    with Cons.IH [OF Kill_ok [OF Cons.prems(1)] r] True show ?thesis
      by (auto simp: fun_eq_iff Kill_find [OF Cons.prems(1)])
  next
    case False
    with Cons show ?thesis by (auto split: if_splits)
  qed
qed auto

section \<open>A sample environment\<close>

text \<open>A concrete kernel and no emulator, at which the witnesses instantiate the properties.\<close>

definition sample_proc :: Process where
  "sample_proc = \<lparr>pr_pid = 42, pr_winsize = (80, 24), pr_input = [], pr_open = True, pr_running = True,
     pr_hup = False, pr_fault = None\<rparr>"

definition sample_ext :: "unit ext" where
  "sample_ext = \<lparr>x_spawn = (\<lambda>o'. Inr sample_proc), x_create = (\<lambda>i c r. ()), x_process = (\<lambda>d e. Some ()),
     x_snapshot = (\<lambda>e. []), x_resize = (\<lambda>c r e. ()), x_setscroll = None, x_close = (\<lambda>e. ()),
     x_grow = (\<lambda>n. n), x_sha1 = (\<lambda>d. [])\<rparr>"

definition sample_opts :: CreateOptions where
  "sample_opts = \<lparr>co_Shell = ''sh'', co_Args = [], co_Cols = 0, co_Rows = 0, co_Cwd = [], co_Env = [],
     co_HighWatermark = 0, co_LowWatermark = 0, co_BatchInterval = 0, co_HistoryWriter = False\<rparr>"

definition sample_create :: "bytes \<Rightarrow> unit service \<Rightarrow> unit service" where
  "sample_create sid s = snd (svc_Create sample_ext 1 sid sample_opts s)"

definition sample_svc :: "unit service" where
  "sample_svc = sample_create ''a'' (new_service 3 False None)"

lemma valid_a: "ValidateSessionID ''a'' = Inr ()"
  by (simp add: ValidateSessionID_iff) (simp add: id_byte_def isAllowedIDRune_def)

lemma sample_svc_reach: "svc_reach 3 sample_svc"
  unfolding sample_svc_def sample_create_def by (intro sr_step [OF sr_new st_create])

lemma sample_svc_ok: "svc_ok sample_svc"
  using sample_svc_reach by (rule svc_reach_ok)

lemma sample_find: "\<exists>ms. find_session sample_svc ''a'' = Some (0, ms) \<and> s_State (ms_session ms) = StateAlive
    \<and> pr_running (ms_process ms) \<and> pr_open (ms_process ms) \<and> pipeline ms = [] \<and> ms_readDone ms = False
    \<and> paused (ms_buffer ms) = False \<and> pr_fault (ms_process ms) = None"
  by (simp add: sample_svc_def sample_create_def svc_Create_def valid_a new_service_def sample_ext_def
      Let_def find_session_def obj_def gm_get_Cons sample_proc_def pipeline_def newBuffer_def newBatcher_def)

section \<open>Properties\<close>

text \<open>(C7) In every state the service can reach, under any interleaving of client calls, goroutine
iterations, reaper and watchdog ticks, and any behaviour of the kernel and the emulator: ids are
unique and valid, every registered id points to a session object of that id that has not exited,
and a positive session limit is never exceeded.\<close>

theorem session_registry_invariant:
  assumes "svc_reach n s"
  shows "distinct (map fst (ss_sessions s)) \<and>
    list_all (\<lambda>(sid, a). ValidateSessionID sid = Inr () \<and>
       (case obj s a of
          None \<Rightarrow> False
        | Some ms \<Rightarrow> s_ID (ms_session ms) = sid \<and> \<not> IsTerminal (s_State (ms_session ms)))) (ss_sessions s) \<and>
    (if n > 0 then int (length (ss_sessions s)) \<le> n else True)"
proof -
  have ok: "svc_ok s" using svc_reach_ok [OF assms] .
  then have "gm_get (ss_sessions s) sid = Some a \<longleftrightarrow> (sid, a) \<in> set (ss_sessions s)" for sid a
    by (simp add: svc_ok_def gm_get_iff_mem)
  with ok show ?thesis
    using svc_reach_max [OF assms]
    by (fastforce simp: svc_ok_def gm_ok_def list_all_iff IsTerminal_def split: option.splits)
qed

theorem session_registry_invariant_witness:
  "svc_reach 3 sample_svc \<and> int (length (ss_sessions sample_svc)) \<le> 3"
  using session_registry_invariant [OF sample_svc_reach] sample_svc_reach by simp


text \<open>(C19) \<^verbatim>\<open>Create\<close>, branch by branch: a failed call changes nothing and names its cause (checked in the
source's order); a successful one registers exactly one new live session, under the given id,
with the spawned process and the defaults filled in, and leaves all others as they were.\<close>

theorem session_create_outcome:
  assumes "svc_ok s" and "svc_Create x now sid opts s = (r, s')"
  shows "case r of
      Inl e \<Rightarrow> s' = s \<and>
        (e = ErrBadSessionID \<longleftrightarrow> ValidateSessionID sid \<noteq> Inr ()) \<and>
        (e = ErrSessionExists \<longleftrightarrow> ValidateSessionID sid = Inr () \<and> find_session s sid \<noteq> None) \<and>
        (e = ErrMaxSessions \<longleftrightarrow> ValidateSessionID sid = Inr () \<and> find_session s sid = None
           \<and> 0 < ss_maxSessions s \<and> ss_maxSessions s \<le> int (length (svc_List s)))
    | Inr z \<Rightarrow> ValidateSessionID sid = Inr () \<and> find_session s sid = None \<and>
        s_ID z = sid \<and> s_State z = StateAlive \<and> 0 < s_Cols z \<and> 0 < s_Rows z \<and>
        (\<exists>ms. ms_session ms = z \<and> find_session s' = (find_session s)(sid \<mapsto> (ss_next s, ms)))"
proof -
  have reg: "find_session s sid = None \<longleftrightarrow> gm_get (ss_sessions s) sid = None"
    using find_session_ok [OF assms(1)] .
  have len: "length (svc_List s) = length (ss_sessions s)" by (rule len_svc_List [OF assms(1)])
  show ?thesis
  proof (cases r)
    case (Inl e)
    with assms(2) reg len show ?thesis
      by (auto simp: svc_Create_def Let_def split: if_splits sum.splits)
  next
    case (Inr z)
    have old: "obj s a = Some m \<Longrightarrow> a < ss_next s" for a m using assms(1) by (simp add: svc_ok_def)
    have pos: "0 < pos_or v 80" "0 < pos_or v 24" for v by (simp_all add: pos_or_def)
    from Inr assms(2) obtain ms where s': "s' = s\<lparr>ss_objs := gm_put (ss_next s) ms (ss_objs s),
        ss_next := Suc (ss_next s), ss_sessions := gm_put sid (ss_next s) (ss_sessions s)\<rparr>"
      and ms: "ms_session ms = z" "s_ID z = sid" "s_State z = StateAlive" "0 < s_Cols z" "0 < s_Rows z"
      and v: "ValidateSessionID sid = Inr ()" "gm_get (ss_sessions s) sid = None"
      by (auto simp: svc_Create_def Let_def pos split: if_splits sum.splits)
    have "a \<noteq> ss_next s" if "gm_get (ss_sessions s) i = Some a" for i a
      using assms(1) that old by (metis find_session_SomeD find_session_ok not_None_eq nat_less_le prod.collapse fst_conv option.inject)
    then have "find_session s' = (find_session s)(sid \<mapsto> (ss_next s, ms))"
      by (auto simp: fun_eq_iff s' find_session_def obj_def split: option.splits)
    with Inr ms v reg show ?thesis by auto
  qed
qed

theorem session_create_outcome_witness:
  "fst (svc_Create sample_ext 5 ''a'' sample_opts sample_svc) = Inl ErrSessionExists \<and>
   snd (svc_Create sample_ext 5 ''a'' sample_opts sample_svc) = sample_svc"
proof -
  have "fst (svc_Create sample_ext 5 ''a'' sample_opts sample_svc) = Inl ErrSessionExists"
    using sample_find find_session_SomeD by (fastforce simp: svc_Create_def valid_a)
  with session_create_outcome [OF sample_svc_ok prod.collapse [symmetric], of sample_ext 5 "''a''" sample_opts]
  show ?thesis by simp
qed





text \<open>The reaper's tick kills exactly the detached sessions that have been idle for at least the TTL,
reports exactly those, and leaves every other session alone.\<close>

lemma reaper_kills_exactly_idle_detached:
  assumes "svc_ok s" and "reaper_tick ttl now s = (ids, s')"
  shows "(sid \<in> set ids \<longleftrightarrow> (\<exists>z t. svc_Get s sid = Inr z \<and> s_State z = StateDetached \<and>
            svc_LastActivity s sid = Inr t \<and> ttl \<le> now - t)) \<and>
         find_session s' sid = (if sid \<in> set ids then None else find_session s sid)"
proof -
  note spec = reaper_loop_spec [OF assms(1) assms(2) [unfolded reaper_tick_def]]
  have list: "z \<in> set (svc_List s) \<longleftrightarrow> svc_Get s (s_ID z) = Inr z" for z
    using svc_List_iff [OF assms(1), of z] by (auto simp: svc_Get_def split: option.splits)
  have id: "svc_Get s i = Inr z \<Longrightarrow> s_ID z = i" for i z
    using find_session_ID [OF assms(1)] by (fastforce simp: svc_Get_def split: option.splits)
  show ?thesis
    using spec(1) [of sid] spec(2) [of sid] spec(3) list id by metis
qed

text \<open>The watchdog's tick kills exactly the registered sessions whose process is gone and leaves every
other session alone.\<close>

lemma watchdog_kills_exactly_dead:
  assumes "svc_ok s" and "watchdog_tick alive s = (ids, s')"
  shows "(sid \<in> set ids \<longleftrightarrow> (\<exists>z. svc_Get s sid = Inr z \<and> \<not> alive (s_Pid z))) \<and>
         find_session s' sid = (if sid \<in> set ids then None else find_session s sid)"
proof -
  have list: "z \<in> set (svc_List s) \<longleftrightarrow> svc_Get s (s_ID z) = Inr z" for z
    using svc_List_iff [OF assms(1), of z] by (auto simp: svc_Get_def split: option.splits)
  have id: "svc_Get s i = Inr z \<Longrightarrow> s_ID z = i \<and> \<not> IsTerminal (s_State z)" for i z
    using find_session_ID [OF assms(1)]
    by (fastforce simp: svc_Get_def IsTerminal_def split: option.splits)
  note spec = watchdog_loop_spec [OF assms(1) assms(2) [unfolded watchdog_tick_def]]
  have "sid \<in> set ids \<longleftrightarrow> (\<exists>z \<in> set (svc_List s). s_ID z = sid \<and> \<not> IsTerminal (s_State z) \<and> \<not> alive (s_Pid z))"
    unfolding spec [THEN conjunct1] by auto
  then have "sid \<in> set ids \<longleftrightarrow> (\<exists>z. svc_Get s sid = Inr z \<and> \<not> alive (s_Pid z))"
    using list id by metis
  with spec [THEN conjunct2] show ?thesis by simp
qed

text \<open>(C3) A session's output reaches its reader complete, in order and without duplicates: however the
read loop, the batcher, the emulator and the draining client interleave, the bytes read from
the terminal (after those already queued) are the bytes the drains returned followed by the
bytes still queued.\<close>

theorem session_output_in_order:
  assumes "svc_ok s" and "find_session s sid = Some (a, ms)" and "run_pipe x sid a evs s = (rd, out, s')"
  shows "case find_session s' sid of
      None \<Rightarrow> False
    | Some (b, ms') \<Rightarrow> b = a \<and> pipeline ms @ rd = out @ pipeline ms'"
  using run_pipe_bytes [OF assms] by auto

theorem session_output_in_order_witness:
  "case run_pipe sample_ext ''a'' 0 [PRead ''hi'' False 2, PBatch SelTick, PRead ''!'' True 3, PDrain] sample_svc of
     (rd, out, s') \<Rightarrow> \<exists>ms'. find_session s' ''a'' = Some (0, ms') \<and> rd = out @ pipeline ms'"
proof -
  obtain ms where ms: "find_session sample_svc ''a'' = Some (0, ms)" "pipeline ms = []"
    using sample_find by auto
  obtain rd out s' where r: "run_pipe sample_ext ''a'' 0
      [PRead ''hi'' False 2, PBatch SelTick, PRead ''!'' True 3, PDrain] sample_svc = (rd, out, s')"
    by (rule prod_cases3)
  from session_output_in_order [OF sample_svc_ok ms(1) r] ms(2) r show ?thesis
    by (auto split: option.splits)
qed

text \<open>(C35) An exiting process unregisters whatever session currently has its id, even a newer one: after
\<^verbatim>\<open>Kill\<close> and a new \<^verbatim>\<open>Create\<close> under the same id, the exit of the old process removes the new
session from the registry while its process keeps running, out of reach of every call.\<close>

theorem session_exit_removes_namesake:
  assumes "svc_ok s" and "find_session s sid = Some (a, ms)" and "obj s b = Some old" and "b \<noteq> a"
    and "s_ID (ms_session old) = sid"
  shows "find_session (waitLoop x b code now s) sid = None \<and> obj (waitLoop x b code now s) a = Some ms"
proof -
  obtain t where w: "waitLoop x b code now s = (set_obj b (release_ms x (exit_ms code now old)) s)
       \<lparr>ss_sessions := gm_del sid (ss_sessions s), ss_tracer := t,
        ss_callbacks := ss_callbacks s @ (if ss_hasOnExit s then [CbExit sid code] else [])\<rparr>"
    using waitLoop_eq [OF assms(3), of x code now] assms(5) by auto
  have "obj s a = Some ms" using find_session_SomeD [OF assms(2)] by simp
  then show ?thesis using assms(4) by (simp add: w find_session_def obj_def set_obj_def)
qed

theorem session_exit_removes_namesake_witness:
  "let s = sample_create ''a'' (snd (svc_Kill ''a'' sample_svc))
   in svc_Get s ''a'' \<noteq> Inl ErrSessionNotFound \<and>
      svc_Get (waitLoop sample_ext 0 0 9 s) ''a'' = Inl ErrSessionNotFound"
proof -
  let ?s = "sample_create ''a'' (snd (svc_Kill ''a'' sample_svc))"
  note eqs = sample_svc_def sample_create_def svc_Create_def valid_a new_service_def sample_ext_def Let_def
    find_session_def obj_def gm_get_Cons svc_Kill_def set_session_def set_obj_def
  have ok: "svc_ok ?s"
    unfolding sample_create_def by (intro Create_ok Kill_ok sample_svc_ok)
  have "\<exists>ms old. find_session ?s ''a'' = Some (1, ms) \<and> obj ?s 0 = Some old \<and> s_ID (ms_session old) = ''a''"
    by (simp add: eqs)
  then obtain ms old where "find_session ?s ''a'' = Some (1, ms)" "obj ?s 0 = Some old" "s_ID (ms_session old) = ''a''"
    by blast
  with session_exit_removes_namesake [OF ok, of "''a''" 1 ms 0 old sample_ext 0 9] show ?thesis
    by (simp add: svc_Get_def Let_def)
qed

text \<open>The recorded size and the kernel's window size agree after a successful resize exactly when both
dimensions fit in 16 bits; larger or negative values are recorded as given but truncated in the
kernel. A failed resize changes nothing.\<close>

lemma session_resize_truncates:
  assumes "svc_ok s" and "find_session s sid = Some (a, ms)"
  shows "case svc_Resize x sid cols rows s of
      (Inl e, s') \<Rightarrow> s' = s
    | (Inr u, s') \<Rightarrow>
        (case find_session s' sid of
           None \<Rightarrow> False
         | Some (b, ms') \<Rightarrow> b = a \<and> s_Cols (ms_session ms') = cols \<and> s_Rows (ms_session ms') = rows \<and>
             (uint (fst (pr_winsize (ms_process ms'))) = cols \<and> uint (snd (pr_winsize (ms_process ms'))) = rows
              \<longleftrightarrow> (0 \<le> cols \<and> cols < 2 ^ 16) \<and> (0 \<le> rows \<and> rows < 2 ^ 16)))"
proof -
  have fit: "uint (word_of_int v :: 16 word) = v \<longleftrightarrow> 0 \<le> v \<and> v < 2 ^ 16" for v
    by (auto simp: uint_word_of_int dest: sym intro: mod_pos_pos_trivial)
  have "find_session (set_session f (a, ms) s) sid = Some (a, f ms)" for f
    using find_set_session [OF assms] by simp
  then show ?thesis
    using assms(2) by (auto simp: svc_Resize_def Process_Resize_def fit split: option.splits sum.splits)
qed

text \<open>Metadata written for a session is what is read back for that key; other keys, other sessions and
unknown sessions are not affected.\<close>

lemma session_meta_roundtrip:
  assumes "svc_ok s"
  shows "case svc_MetaSet sid k v s of
      (Inl e, s') \<Rightarrow> s' = s \<and> svc_Get s sid = Inl ErrSessionNotFound
    | (Inr u, s') \<Rightarrow> svc_MetaGet s' sid' k' =
        (if sid' = sid \<and> k' = k then Inr v else svc_MetaGet s sid' k')"
proof (cases "find_session s sid")
  case (Some am)
  show ?thesis
    using find_set_session [OF assms Some] Some
    by (auto simp: case_prod_beta svc_MetaSet_def svc_MetaGet_def update_session_def split: option.splits)
qed (simp add: svc_MetaSet_def svc_Get_def)

end
