(* ===== verification/Files.thy ===== *)
theory Files
  imports Prelude "HOL-Library.List_Lexorder" "HOL-Library.Char_ord"
begin

text \<open>
  The part of the packages \<^verbatim>\<open>os\<close> and \<^verbatim>\<open>path/filepath\<close> that wmux uses for its token, history, recording and
  command files. A path is its list of components; the file system is a map from paths to nodes,
  the set of paths on which the kernel refuses access, and for some paths the number of bytes
  that still fit (a write past it fails after a partial write, as on a full disk).
\<close>

section \<open>Paths\<close>

type_synonym path = "bytes list"

text \<open>\<^verbatim>\<open>filepath.Join\<close> onto an absolute path: empty and \<^verbatim>\<open>.\<close> components vanish, \<^verbatim>\<open>..\<close> goes up.\<close>

fun add_component :: "bytes \<Rightarrow> path \<Rightarrow> path" where
  "add_component c p = (if c = [] \<or> c = ''.'' then p else if c = ''..'' then butlast p else p @ [c])"

definition Join :: "path \<Rightarrow> bytes \<Rightarrow> path" where
  "Join p name = fold add_component (split_byte (CHR ''/'') name) p"

section \<open>The file system\<close>

datatype node = FileN bytes | DirN

datatype io_error = ErrNotExist | ErrIO

record fs =
  fs_nodes :: "(path, node) gomap"
  fs_deny :: "path list"
  fs_room :: "(path, nat) gomap"

definition fs_get :: "fs \<Rightarrow> path \<Rightarrow> node option" where
  "fs_get f p = gm_get (fs_nodes f) p"

definition fs_put :: "path \<Rightarrow> node \<Rightarrow> fs \<Rightarrow> fs" where
  "fs_put p n f = f\<lparr>fs_nodes := gm_put p n (fs_nodes f)\<rparr>"

definition fs_del :: "path \<Rightarrow> fs \<Rightarrow> fs" where
  "fs_del p f = f\<lparr>fs_nodes := gm_del p (fs_nodes f)\<rparr>"

text \<open>The root always exists.\<close>

definition is_dir :: "fs \<Rightarrow> path \<Rightarrow> bool" where
  "is_dir f p \<longleftrightarrow> p = [] \<or> fs_get f p = Some DirN"

definition ReadFile :: "path \<Rightarrow> fs \<Rightarrow> io_error + bytes" where
  "ReadFile p f =
     (if p \<in> set (fs_deny f) then Inl ErrIO
      else case fs_get f p of
             None \<Rightarrow> Inl ErrNotExist
           | Some DirN \<Rightarrow> Inl ErrIO
           | Some (FileN d) \<Rightarrow> Inr d)"

definition can_create :: "path \<Rightarrow> fs \<Rightarrow> bool" where
  "can_create p f \<longleftrightarrow> p \<noteq> [] \<and> p \<notin> set (fs_deny f) \<and> is_dir f (butlast p) \<and> fs_get f p \<noteq> Some DirN"

text \<open>\<^verbatim>\<open>os.OpenFile\<close> with \<^verbatim>\<open>O_CREATE|O_WRONLY|O_TRUNC\<close>.\<close>

definition OpenTrunc :: "path \<Rightarrow> fs \<Rightarrow> io_error + fs" where
  "OpenTrunc p f = (if can_create p f then Inr (fs_put p (FileN []) f) else Inl ErrIO)"

text \<open>
  \<^verbatim>\<open>(*os.File).Write\<close> on an open file: the bytes written and whether it failed. A file that was
  unlinked in the meantime swallows the bytes.
\<close>

definition file_write :: "path \<Rightarrow> bytes \<Rightarrow> fs \<Rightarrow> (nat \<times> bool) \<times> fs" where
  "file_write p d f =
     (case fs_get f p of
        Some (FileN old) \<Rightarrow>
          (case gm_get (fs_room f) p of
             None \<Rightarrow> ((length d, False), fs_put p (FileN (old @ d)) f)
           | Some r \<Rightarrow>
               let n = min r (length d)
               in ((n, n < length d),
                   (fs_put p (FileN (old @ take n d)) f)\<lparr>fs_room := gm_put p (r - n) (fs_room f)\<rparr>))
      | _ \<Rightarrow> ((length d, False), f))"

definition WriteFile :: "path \<Rightarrow> bytes \<Rightarrow> fs \<Rightarrow> (io_error + unit) \<times> fs" where
  "WriteFile p d f =
     (case OpenTrunc p f of
        Inl e \<Rightarrow> (Inl e, f)
      | Inr f1 \<Rightarrow> (case file_write p d f1 of ((n, bad), f2) \<Rightarrow> (if bad then Inl ErrIO else Inr (), f2)))"

definition Rename :: "path \<Rightarrow> path \<Rightarrow> fs \<Rightarrow> (io_error + unit) \<times> fs" where
  "Rename old new f =
     (if new \<in> set (fs_deny f) then (Inl ErrIO, f)
      else case fs_get f old of
             Some (FileN d) \<Rightarrow>
               if is_dir f new \<or> \<not> is_dir f (butlast new) then (Inl ErrIO, f)
               else (Inr (), fs_put new (FileN d) (fs_del old f))
           | _ \<Rightarrow> (Inl ErrNotExist, f))"

definition Remove :: "path \<Rightarrow> fs \<Rightarrow> fs" where
  "Remove p f = fs_del p f"

definition RemoveAll :: "path \<Rightarrow> fs \<Rightarrow> (io_error + unit) \<times> fs" where
  "RemoveAll p f =
     (if p \<in> set (fs_deny f) then (Inl ErrIO, f)
      else (Inr (), f\<lparr>fs_nodes := filter (\<lambda>(q, n). \<not> prefix p q) (fs_nodes f)\<rparr>))"

text \<open>\<^verbatim>\<open>os.MkdirAll\<close>: every missing ancestor becomes a directory.\<close>

fun mkdirs :: "path list \<Rightarrow> fs \<Rightarrow> (io_error + unit) \<times> fs" where
  "mkdirs [] f = (Inr (), f)"
| "mkdirs (p # ps) f =
     (if is_dir f p then mkdirs ps f
      else case fs_get f p of
             Some _ \<Rightarrow> (Inl ErrIO, f)
           | None \<Rightarrow> if p \<in> set (fs_deny f) then (Inl ErrIO, f) else mkdirs ps (fs_put p DirN f))"

definition MkdirAll :: "path \<Rightarrow> fs \<Rightarrow> (io_error + unit) \<times> fs" where
  "MkdirAll p f = mkdirs (prefixes p) f"

text \<open>\<^verbatim>\<open>os.ReadDir\<close>: the entries of a directory, sorted by name, with their nodes.\<close>

definition ReadDir :: "path \<Rightarrow> fs \<Rightarrow> io_error + (bytes \<times> node) list" where
  "ReadDir p f =
     (if p \<in> set (fs_deny f) then Inl ErrIO
      else if \<not> is_dir f p then Inl ErrNotExist
      else Inr (sort_key fst (map (\<lambda>(q, n). (last q, n))
             (filter (\<lambda>(q, n). q \<noteq> [] \<and> butlast q = p) (fs_nodes f)))))"

section \<open>Laws\<close>

lemma fs_get_put [simp]: "fs_get (fs_put p n f) q = (if q = p then Some n else fs_get f q)"
  by (simp add: fs_get_def fs_put_def)

lemma fs_get_del [simp]: "fs_get (fs_del p f) q = (if q = p then None else fs_get f q)"
  by (simp add: fs_get_def fs_del_def)

lemma fs_put_frame [simp, frame_simps]:
  "fs_deny (fs_put p n f) = fs_deny f" "fs_room (fs_put p n f) = fs_room f"
  "fs_deny (fs_del p f) = fs_deny f" "fs_room (fs_del p f) = fs_room f"
  by (simp_all add: fs_put_def fs_del_def)

lemma fs_get_room [simp]: "fs_get (f\<lparr>fs_room := r\<rparr>) p = fs_get f p"
  by (simp add: fs_get_def)

text \<open>A file store: what was written without error is what is read, and nothing else changes.\<close>

locale file_store =
  fixes rd :: "'p \<Rightarrow> 'f \<Rightarrow> 'e + 'd" and wr :: "'p \<Rightarrow> 'd \<Rightarrow> 'f \<Rightarrow> ('e + unit) \<times> 'f"
  assumes rd_wr: "wr p d f = (Inr (), f') \<Longrightarrow> rd p f' = Inr d"
    and rd_wr_other: "q \<noteq> p \<Longrightarrow> rd q (snd (wr p d f)) = rd q f"
begin

lemma last_write_wins:
  "wr p d f = (Inr (), f1) \<Longrightarrow> wr p d' f1 = (Inr (), f2) \<Longrightarrow> rd p f2 = Inr d'"
  by (rule rd_wr)

lemma writes_elsewhere:
  "p \<notin> set (map fst ws) \<Longrightarrow> rd p (fold (\<lambda>(q, d) f. snd (wr q d f)) ws f) = rd p f"
  by (induction ws arbitrary: f) (auto simp: rd_wr_other)

end

lemma file_write_get:
  "fs_get (snd (file_write p d f)) q =
     (case fs_get f p of
        Some (FileN old) \<Rightarrow> if q = p then Some (FileN (old @ take (fst (fst (file_write p d f))) d)) else fs_get f q
      | _ \<Rightarrow> fs_get f q)"
  by (auto simp: file_write_def Let_def split: option.splits node.splits)

lemma file_write_ok:
  "fs_get f p = Some (FileN old) \<Longrightarrow> file_write p d f = ((n, False), f') \<Longrightarrow> n = length d"
  by (auto simp: file_write_def Let_def split: option.splits)

lemma file_write_le: "fst (fst (file_write p d f)) \<le> length d"
  by (auto simp: file_write_def Let_def split: option.splits node.splits)

lemma file_write_deny [simp]: "fs_deny (snd (file_write p d f)) = fs_deny f"
  by (auto simp: file_write_def Let_def split: option.splits node.splits)

lemma OpenTrunc_Inr: "OpenTrunc p f = Inr f' \<longleftrightarrow> can_create p f \<and> f' = fs_put p (FileN []) f"
  by (auto simp: OpenTrunc_def)

lemma WriteFile_ok_get:
  assumes "WriteFile p d f = (Inr (), f')"
  shows "fs_get f' q = (if q = p then Some (FileN d) else fs_get f q)" and "fs_deny f' = fs_deny f"
    and "p \<notin> set (fs_deny f)"
proof -
  let ?f1 = "fs_put p (FileN []) f"
  from assms have c: "can_create p f" and w: "fst (file_write p d ?f1) = (fst (fst (file_write p d ?f1)), False)"
    "f' = snd (file_write p d ?f1)"
    by (auto simp: WriteFile_def OpenTrunc_def split: if_splits prod.splits)
  have "fst (fst (file_write p d ?f1)) = length d"
    using w by (intro file_write_ok [of ?f1 p "[]" d _ f']) (auto simp: prod_eq_iff)
  then show "fs_get f' q = (if q = p then Some (FileN d) else fs_get f q)"
    by (simp add: w(2) file_write_get)
  from w c show "fs_deny f' = fs_deny f" "p \<notin> set (fs_deny f)" by (simp_all add: can_create_def)
qed

lemma snd_WriteFile:
  "snd (WriteFile p d f) = (if can_create p f then snd (file_write p d (fs_put p (FileN []) f)) else f)"
  by (simp add: WriteFile_def OpenTrunc_def split: prod.splits)

lemma WriteFile_other:
  assumes "q \<noteq> p"
  shows "fs_get (snd (WriteFile p d f)) q = fs_get f q" and "fs_deny (snd (WriteFile p d f)) = fs_deny f"
  using assms by (simp_all add: snd_WriteFile file_write_get)

interpretation disk: file_store ReadFile WriteFile
proof unfold_locales
  show "ReadFile p f' = Inr d" if "WriteFile p d f = (Inr (), f')" for p d f f'
    using WriteFile_ok_get [OF that] by (simp add: ReadFile_def)
  show "ReadFile q (snd (WriteFile p d f)) = ReadFile q f" if "q \<noteq> p" for q p d f
    using WriteFile_other [OF that] by (simp add: ReadFile_def)
qed

lemma Rename_get:
  assumes "Rename old new f = (Inr (), f')"
  shows "\<exists>d. fs_get f old = Some (FileN d) \<and> f' = fs_put new (FileN d) (fs_del old f) \<and> new \<notin> set (fs_deny f)"
  using assms by (auto simp: Rename_def split: if_splits option.splits node.splits)

lemma RemoveAll_get:
  assumes "RemoveAll p f = (Inr (), f')" and "gm_ok (fs_nodes f)"
  shows "fs_get f' q = (if prefix p q then None else fs_get f q)" and "gm_ok (fs_nodes f')"
proof -
  have f': "f' = f\<lparr>fs_nodes := filter (\<lambda>(q, n). \<not> prefix p q) (fs_nodes f)\<rparr>"
    using assms(1) by (simp add: RemoveAll_def split: if_splits)
  have "map_of (filter (\<lambda>(q, n). \<not> prefix p q) m) q = (if prefix p q then None else map_of m q)" for m :: "(path \<times> node) list"
    by (induction m) auto
  then show "fs_get f' q = (if prefix p q then None else fs_get f q)"
    by (simp add: f' fs_get_def gm_get_def)
  from assms(2) show "gm_ok (fs_nodes f')"
    by (simp add: f' gm_ok_def distinct_map inj_on_def)
qed

end
