(* ===== verification/Auth.thy ===== *)
theory Auth
  imports Files
begin

text \<open>
  Token authentication (\<^verbatim>\<open>internal/platform/auth/token.go\<close>). The random source is a list of the bytes it
  will deliver; a shorter list is a source that fails.
\<close>

definition TokenSize :: nat where "TokenSize = 32"

datatype auth_error = ErrInvalidToken | ErrGenerate | ErrLoad io_error | ErrSave io_error

definition Generate :: "bytes \<Rightarrow> auth_error + bytes" where
  "Generate rnd = (if length rnd < TokenSize then Inl ErrGenerate else Inr (take TokenSize rnd))"

definition SaveToFile :: "bytes \<Rightarrow> path \<Rightarrow> fs \<Rightarrow> (auth_error + unit) \<times> fs" where
  "SaveToFile token p f =
     (case WriteFile p token f of (Inl e, f') \<Rightarrow> (Inl (ErrSave e), f') | (Inr u, f') \<Rightarrow> (Inr (), f'))"

definition LoadFromFile :: "path \<Rightarrow> fs \<Rightarrow> auth_error + bytes" where
  "LoadFromFile p f =
     (case ReadFile p f of
        Inl e \<Rightarrow> Inl (ErrLoad e)
      | Inr data \<Rightarrow> if length data \<noteq> TokenSize then Inl ErrInvalidToken else Inr data)"

text \<open>
  \<^verbatim>\<open>subtle.ConstantTimeCompare\<close>: 0 for different lengths, else every pair of bytes is folded with
  exclusive or into one accumulator, which is zero exactly for equal inputs.
\<close>

definition byte_word :: "byte \<Rightarrow> 8 word" where
  "byte_word c = of_nat (of_char c)"

definition ConstantTimeCompare :: "bytes \<Rightarrow> bytes \<Rightarrow> int" where
  "ConstantTimeCompare x y =
     (if length x \<noteq> length y then 0
      else if fold (\<lambda>(a, b) v. or v (xor (byte_word a) (byte_word b))) (zip x y) (0 :: 8 word) = 0 then 1 else 0)"

definition Verify :: "bytes \<Rightarrow> bytes \<Rightarrow> bool" where
  "Verify stored candidate =
     (if length candidate \<noteq> TokenSize then False else ConstantTimeCompare stored candidate = 1)"

definition Ensure :: "bytes \<Rightarrow> path \<Rightarrow> fs \<Rightarrow> (auth_error + bytes) \<times> fs" where
  "Ensure rnd p f =
     (case LoadFromFile p f of
        Inr token \<Rightarrow> (Inr token, f)
      | Inl e \<Rightarrow>
          if e \<noteq> ErrLoad ErrNotExist \<and> e \<noteq> ErrInvalidToken then (Inl e, f)
          else case Generate rnd of
                 Inl e' \<Rightarrow> (Inl e', f)
               | Inr token \<Rightarrow>
                   (case SaveToFile token p f of
                      (Inl e', f') \<Rightarrow> (Inl e', f')
                    | (Inr u, f') \<Rightarrow> (Inr token, f')))"

section \<open>Comparison\<close>

lemma or_eq_0_iff: "or a b = 0 \<longleftrightarrow> a = 0 \<and> b = (0 :: 8 word)"
  by (auto simp: bit_eq_iff bit_simps)

lemma byte_word_inj: "byte_word a = byte_word b \<longleftrightarrow> a = b"
proof
  assume "byte_word a = byte_word b"
  then have "unat (byte_word a) = unat (byte_word b)" by simp
  then have "(of_char a :: nat) = of_char b"
    by (simp add: byte_word_def unat_of_nat take_bit_nat_eq_self)
  then show "a = b" by simp
qed simp

lemma xor_eq_0_iff: "xor a b = 0 \<longleftrightarrow> a = (b :: 8 word)"
  by (auto simp: bit_eq_iff bit_simps)

lemma compare_fold:
  "length x = length y \<Longrightarrow>
   fold (\<lambda>(a, b) v. or v (xor (byte_word a) (byte_word b))) (zip x y) (v :: 8 word) = 0 \<longleftrightarrow> v = 0 \<and> x = y"
  by (induction x y arbitrary: v rule: list_induct2) (auto simp: or_eq_0_iff xor_eq_0_iff byte_word_inj)

lemma ConstantTimeCompare_iff: "ConstantTimeCompare x y = 1 \<longleftrightarrow> x = y"
  by (auto simp: ConstantTimeCompare_def compare_fold)

lemma Verify_iff: "Verify stored candidate \<longleftrightarrow> length candidate = TokenSize \<and> stored = candidate"
  by (auto simp: Verify_def ConstantTimeCompare_iff)

section \<open>Tokens on disk\<close>

lemma SaveToFile_Load:
  assumes "SaveToFile t p f = (Inr (), f')"
  shows "LoadFromFile p f' = (if length t = TokenSize then Inr t else Inl ErrInvalidToken)"
proof -
  have "WriteFile p t f = (Inr (), f')"
    using assms by (auto simp: SaveToFile_def split: prod.splits sum.splits)
  from disk.rd_wr [OF this] show ?thesis by (simp add: LoadFromFile_def)
qed

lemma Ensure_spec:
  assumes "Ensure rnd p f = (Inr t, f')"
  shows "length t = TokenSize \<and> LoadFromFile p f' = Inr t \<and> (LoadFromFile p f = Inr t \<or> t = take TokenSize rnd)"
proof (cases "LoadFromFile p f")
  case (Inr t0)
  with assms show ?thesis
    by (auto simp: Ensure_def LoadFromFile_def split: sum.splits if_splits)
next
  case (Inl e)
  with assms have g: "Generate rnd = Inr t" and s: "SaveToFile t p f = (Inr (), f')"
    by (auto simp: Ensure_def split: sum.splits prod.splits if_splits)
  from g have t: "t = take TokenSize rnd" "length t = TokenSize"
    by (auto simp: Generate_def split: if_splits)
  with SaveToFile_Load [OF s] show ?thesis by simp
qed

section \<open>Properties\<close>

text \<open>Authentication accepts exactly the stored token: whatever \<^verbatim>\<open>Ensure\<close> returned is 32 bytes long, is
what a later load reads back from the file, and a candidate verifies against it if and only if
the two are byte for byte equal; a second \<^verbatim>\<open>Ensure\<close> returns the same token and leaves the file alone.\<close>

lemma auth_token_roundtrip:
  assumes "Ensure rnd p f = (Inr t, f')"
  shows "length t = TokenSize \<and> LoadFromFile p f' = Inr t \<and>
    (Verify t candidate \<longleftrightarrow> candidate = t) \<and> Ensure rnd2 p f' = (Inr t, f')"
  using Ensure_spec [OF assms] by (auto simp: Verify_iff Ensure_def)

end
