(* ===== verification/EventBus.thy ===== *)
theory EventBus
  imports Prelude
begin

text \<open>
  The in-process event bus (\<^verbatim>\<open>internal/platform/event\<close>: entity.go, service.go). Subscriptions are
  objects shared by their owner and the bus, so they live in a store by address. A send on a
  closed channel and the close of a closed channel panic: the value \<open>None\<close>.
\<close>

section \<open>Event types (entity.go)\<close>

datatype EvType =
    SessionCreated | SessionAttached | SessionDetached | SessionExited | SessionIdle | SessionKilled
  | ResizeEv | CwdChanged | Notification | OutputFlood | RecordingLimitReached | ShellReady
  | CommandPromptShown | CommandStarted | CommandFinished | OtherType int

fun EvType_String :: "EvType \<Rightarrow> bytes" where
  "EvType_String SessionCreated = ''session.created''"
| "EvType_String SessionAttached = ''session.attached''"
| "EvType_String SessionDetached = ''session.detached''"
| "EvType_String SessionExited = ''session.exited''"
| "EvType_String SessionIdle = ''session.idle''"
| "EvType_String SessionKilled = ''session.killed''"
| "EvType_String ResizeEv = ''resize''"
| "EvType_String CwdChanged = ''cwd.changed''"
| "EvType_String Notification = ''notification''"
| "EvType_String OutputFlood = ''output.flood''"
| "EvType_String RecordingLimitReached = ''recording.limit_reached''"
| "EvType_String ShellReady = ''shell.ready''"
| "EvType_String CommandPromptShown = ''command.prompt_shown''"
| "EvType_String CommandStarted = ''command.started''"
| "EvType_String CommandFinished = ''command.finished''"
| "EvType_String (OtherType n) = ''unknown''"

definition typeFromString :: "bytes \<Rightarrow> EvType option" where
  "typeFromString s =
     (if s = ''session.created'' then Some SessionCreated
      else if s = ''session.attached'' then Some SessionAttached
      else if s = ''session.detached'' then Some SessionDetached
      else if s = ''session.exited'' then Some SessionExited
      else if s = ''session.idle'' then Some SessionIdle
      else if s = ''session.killed'' then Some SessionKilled
      else if s = ''resize'' then Some ResizeEv
      else if s = ''cwd.changed'' then Some CwdChanged
      else if s = ''notification'' then Some Notification
      else if s = ''output.flood'' then Some OutputFlood
      else if s = ''recording.limit_reached'' then Some RecordingLimitReached
      else if s = ''shell.ready'' then Some ShellReady
      else if s = ''command.prompt_shown'' then Some CommandPromptShown
      else if s = ''command.started'' then Some CommandStarted
      else if s = ''command.finished'' then Some CommandFinished
      else None)"

definition EvType_MarshalJSON :: "EvType \<Rightarrow> bytes" where
  "EvType_MarshalJSON t = [CHR 0x22] @ EvType_String t @ [CHR 0x22]"

definition EvType_UnmarshalJSON :: "bytes \<Rightarrow> bytes + EvType" where
  "EvType_UnmarshalJSON data =
     (if length data < 2 \<or> data ! 0 \<noteq> CHR 0x22 \<or> data ! (length data - 1) \<noteq> CHR 0x22
      then Inl ''event: type must be a JSON string''
      else let s = take (length data - 2) (drop 1 data)
           in case typeFromString s of None \<Rightarrow> Inl (''event: unknown type '' @ s) | Some t \<Rightarrow> Inr t)"

datatype pval = VStr bytes | VInt int | VBool bool | VTime time

record BusEvent =
  be_Type :: EvType
  be_SessionID :: bytes
  be_Payload :: "(bytes, pval) gomap"

section \<open>The bus (service.go)\<close>

definition subscriberBufferSize :: nat where "subscriberBufferSize = 256"

record Subscription =
  sb_ch :: "BusEvent list"
  sb_closed :: bool
  sb_filter :: "EvType list option"
  sb_once :: bool

record Bus =
  bus_subs :: "nat list"
  bus_closed :: bool
  bus_store :: "(nat, Subscription) gomap"
  bus_next :: nat

definition NewBus :: Bus where
  "NewBus = \<lparr>bus_subs = [], bus_closed = False, bus_store = [], bus_next = 0\<rparr>"

definition bus_subscribe :: "EvType list option \<Rightarrow> Bus \<Rightarrow> nat \<times> Bus" where
  "bus_subscribe flt b =
     (let a = bus_next b;
          sub = \<lparr>sb_ch = [], sb_closed = False, sb_filter = flt, sb_once = False\<rparr>
      in if bus_closed b
         then (a, b\<lparr>bus_next := Suc a, bus_store := gm_put a (sub\<lparr>sb_closed := True\<rparr>) (bus_store b)\<rparr>)
         else (a, b\<lparr>bus_next := Suc a, bus_store := gm_put a sub (bus_store b), bus_subs := bus_subs b @ [a]\<rparr>))"

definition Subscribe :: "Bus \<Rightarrow> nat \<times> Bus" where
  "Subscribe b = bus_subscribe None b"

definition SubscribeTypes :: "EvType list \<Rightarrow> Bus \<Rightarrow> nat \<times> Bus" where
  "SubscribeTypes types b = bus_subscribe (Some types) b"

text \<open>A non-blocking send: a panic on a closed channel, a drop on a full one.\<close>

definition wants :: "Subscription \<Rightarrow> BusEvent \<Rightarrow> bool" where
  "wants s e = (case sb_filter s of None \<Rightarrow> True | Some ts \<Rightarrow> be_Type e \<in> set ts)"

definition send_event :: "BusEvent \<Rightarrow> Subscription \<Rightarrow> Subscription option" where
  "send_event e s =
     (if \<not> wants s e then Some s
      else if sb_closed s then None
      else if length (sb_ch s) < subscriberBufferSize then Some (s\<lparr>sb_ch := sb_ch s @ [e]\<rparr>)
      else Some s)"

fun publish_loop :: "BusEvent \<Rightarrow> nat list \<Rightarrow> (nat, Subscription) gomap \<Rightarrow> (nat, Subscription) gomap option" where
  "publish_loop e [] st = Some st"
| "publish_loop e (a # as) st =
     (case gm_get st a of
        None \<Rightarrow> None
      | Some s \<Rightarrow>
          (case send_event e s of None \<Rightarrow> None | Some s' \<Rightarrow> publish_loop e as (gm_put a s' st)))"

definition Publish :: "BusEvent \<Rightarrow> Bus \<Rightarrow> Bus option" where
  "Publish e b =
     (if bus_closed b then Some b
      else map_option (\<lambda>st. b\<lparr>bus_store := st\<rparr>) (publish_loop e (bus_subs b) (bus_store b)))"

definition close_chan :: "Subscription \<Rightarrow> Subscription option" where
  "close_chan s = (if sb_closed s then None else Some (s\<lparr>sb_closed := True\<rparr>))"

text \<open>\<^verbatim>\<open>Close\<close> detaches the list of subscriptions under the lock and closes them afterwards, one by one.\<close>

definition close_begin :: "Bus \<Rightarrow> nat list \<times> Bus" where
  "close_begin b =
     (if bus_closed b then ([], b) else (bus_subs b, b\<lparr>bus_closed := True, bus_subs := []\<rparr>))"

definition close_sub :: "nat \<Rightarrow> Bus \<Rightarrow> Bus option" where
  "close_sub a b =
     (case gm_get (bus_store b) a of
        None \<Rightarrow> None
      | Some s \<Rightarrow>
          if sb_once s then Some b
          else map_option (\<lambda>s'. b\<lparr>bus_store := gm_put a s' (bus_store b)\<rparr>) (close_chan (s\<lparr>sb_once := True\<rparr>)))"

fun close_subs :: "nat list \<Rightarrow> Bus \<Rightarrow> Bus option" where
  "close_subs [] b = Some b"
| "close_subs (a # as) b = (case close_sub a b of None \<Rightarrow> None | Some b' \<Rightarrow> close_subs as b')"

definition Bus_Close :: "Bus \<Rightarrow> Bus option" where
  "Bus_Close b = (case close_begin b of (as, b') \<Rightarrow> close_subs as b')"

definition removeSub :: "nat \<Rightarrow> Bus \<Rightarrow> Bus" where
  "removeSub a b = b\<lparr>bus_subs := remove1 a (bus_subs b)\<rparr>"

definition Unsubscribe :: "nat \<Rightarrow> Bus \<Rightarrow> Bus option" where
  "Unsubscribe a b =
     (case gm_get (bus_store b) a of
        None \<Rightarrow> None
      | Some s \<Rightarrow>
          if sb_once s then Some b
          else map_option (\<lambda>s'. (removeSub a b)\<lparr>bus_store := gm_put a s' (bus_store b)\<rparr>)
                 (close_chan (s\<lparr>sb_once := True\<rparr>)))"

text \<open>A receive: an event, or nothing on an empty channel.\<close>

definition receive :: "nat \<Rightarrow> Bus \<Rightarrow> BusEvent option \<times> Bus" where
  "receive a b =
     (case gm_get (bus_store b) a of
        Some s \<Rightarrow> (case sb_ch s of
                    [] \<Rightarrow> (None, b)
                  | e # es \<Rightarrow> (Some e, b\<lparr>bus_store := gm_put a (s\<lparr>sb_ch := es\<rparr>) (bus_store b)\<rparr>))
      | None \<Rightarrow> (None, b))"

section \<open>Runs and the invariant\<close>

text \<open>
  A run, with the subscriptions a concurrent \<^verbatim>\<open>Close\<close> still has to close. Subscribing is only done
  while the bus is open here; the other case is the subject of a theorem of its own.
\<close>

inductive bus_step :: "Bus \<times> nat list \<Rightarrow> Bus \<times> nat list \<Rightarrow> bool" where
  bst_subscribe: "\<not> bus_closed b \<Longrightarrow> bus_step (b, pend) (snd (bus_subscribe flt b), pend)"
| bst_publish: "Publish e b = Some b' \<Longrightarrow> bus_step (b, pend) (b', pend)"
| bst_unsubscribe: "Unsubscribe a b = Some b' \<Longrightarrow> bus_step (b, pend) (b', pend)"
| bst_close: "close_begin b = (as, b') \<Longrightarrow> bus_step (b, pend) (b', pend @ as)"
| bst_close_sub: "close_sub a b = Some b' \<Longrightarrow> bus_step (b, a # pend) (b', pend)"
| bst_receive: "bus_step (b, pend) (snd (receive a b), pend)"

inductive bus_reach :: "Bus \<times> nat list \<Rightarrow> bool" where
  bur_new: "bus_reach (NewBus, [])"
| bur_step: "bus_reach c \<Longrightarrow> bus_step c c' \<Longrightarrow> bus_reach c'"

definition bus_inv :: "Bus \<times> nat list \<Rightarrow> bool" where
  "bus_inv = (\<lambda>(b, pend).
     distinct (bus_subs b) \<and>
     (\<forall>a \<in> set (bus_subs b). \<exists>s. gm_get (bus_store b) a = Some s \<and> \<not> sb_once s) \<and>
     (\<forall>a \<in> set pend. gm_get (bus_store b) a \<noteq> None) \<and>
     (\<forall>a s. gm_get (bus_store b) a = Some s \<longrightarrow>
        a < bus_next b \<and> sb_closed s = sb_once s \<and> length (sb_ch s) \<le> subscriberBufferSize) \<and>
     (if bus_closed b then bus_subs b = [] else pend = []))"

lemma publish_loop_spec:
  assumes "distinct as" and "\<And>a. a \<in> set as \<Longrightarrow> \<exists>s. gm_get st a = Some s \<and> \<not> sb_closed s"
  shows "\<exists>st'. publish_loop e as st = Some st' \<and>
     (\<forall>a. gm_get st' a = (if a \<in> set as then map_option (\<lambda>s. the (send_event e s)) (gm_get st a) else gm_get st a))"
  using assms
proof (induction as arbitrary: st)
  case (Cons a as)
  obtain s where s: "gm_get st a = Some s" "\<not> sb_closed s" using Cons.prems(2) by auto
  then obtain s' where s': "send_event e s = Some s'"
    by (cases "send_event e s") (auto simp: send_event_def split: if_splits)
  have "\<exists>z. gm_get (gm_put a s' st) x = Some z \<and> \<not> sb_closed z" if "x \<in> set as" for x
    using Cons.prems that by auto
  from Cons.IH [OF _ this] Cons.prems(1) obtain st' where
    "publish_loop e as (gm_put a s' st) = Some st'"
    "\<forall>x. gm_get st' x = (if x \<in> set as then map_option (\<lambda>s. the (send_event e s)) (gm_get (gm_put a s' st) x)
        else gm_get (gm_put a s' st) x)"
    by auto
  with s s' Cons.prems(1) show ?case by auto
qed simp

lemma send_event_fields:
  "\<not> sb_closed s \<Longrightarrow> length (sb_ch s) \<le> subscriberBufferSize \<Longrightarrow>
   sb_closed (the (send_event e s)) = sb_closed s \<and> sb_once (the (send_event e s)) = sb_once s \<and>
   length (sb_ch (the (send_event e s))) \<le> subscriberBufferSize"
  by (simp add: send_event_def)

lemma Publish_spec:
  assumes "bus_inv (b, pend)"
  shows "\<exists>b'. Publish e b = Some b' \<and> bus_inv (b', pend) \<and>
    (if bus_closed b then b' = b
     else \<forall>a. gm_get (bus_store b') a =
            (if a \<in> set (bus_subs b) then map_option (\<lambda>s. the (send_event e s)) (gm_get (bus_store b) a)
             else gm_get (bus_store b) a))"
proof (cases "bus_closed b")
  case True
  with assms show ?thesis by (simp add: Publish_def)
next
  case False
  have "distinct (bus_subs b)" and ex: "\<And>a. a \<in> set (bus_subs b) \<Longrightarrow> \<exists>s. gm_get (bus_store b) a = Some s \<and> \<not> sb_closed s"
    using assms by (fastforce simp: bus_inv_def)+
  from publish_loop_spec [OF this] obtain st' where st': "publish_loop e (bus_subs b) (bus_store b) = Some st'"
    "\<forall>a. gm_get st' a = (if a \<in> set (bus_subs b) then map_option (\<lambda>s. the (send_event e s)) (gm_get (bus_store b) a)
       else gm_get (bus_store b) a)"
    by blast
  have "bus_inv (b\<lparr>bus_store := st'\<rparr>, pend)"
    using assms st'(2) ex by (fastforce simp: bus_inv_def send_event_fields)
  with False st' show ?thesis by (simp add: Publish_def)
qed

lemma close_sub_total:
  assumes "bus_inv (b, a # pend)"
  shows "\<exists>b'. close_sub a b = Some b'"
  using assms by (fastforce simp: bus_inv_def close_sub_def close_chan_def split: option.splits)

lemma bus_inv_subscribe:
  assumes "bus_inv (b, pend)" and "\<not> bus_closed b"
  shows "bus_inv (snd (bus_subscribe flt b), pend)"
proof -
  have fresh: "gm_get (bus_store b) (bus_next b) = None"
    using assms(1) by (fastforce simp: bus_inv_def)
  then have "bus_next b \<notin> set (bus_subs b)" using assms(1) by (force simp: bus_inv_def)
  with assms fresh show ?thesis
    by (auto simp: bus_inv_def bus_subscribe_def Let_def less_Suc_eq split: if_splits)
qed

lemma bus_inv_step: "bus_step c c' \<Longrightarrow> bus_inv c \<Longrightarrow> bus_inv c'"
proof (induction rule: bus_step.induct)
  case (bst_subscribe b pend flt)
  then show ?case by (simp add: bus_inv_subscribe)
next
  case (bst_publish e b b' pend)
  then show ?case using Publish_spec [OF bst_publish.prems, of e] by auto
next
  case (bst_unsubscribe a b b' pend)
  then show ?case
    by (auto simp: bus_inv_def Unsubscribe_def close_chan_def removeSub_def split: option.splits if_splits)
next
  case (bst_close b as b' pend)
  then show ?case by (auto simp: bus_inv_def close_begin_def split: if_splits)
next
  case (bst_close_sub a b b' pend)
  then show ?case
    by (auto simp: bus_inv_def close_sub_def close_chan_def split: option.splits if_splits)
next
  case (bst_receive b pend a)
  then show ?case by (fastforce simp: bus_inv_def receive_def split: option.splits list.splits)
qed

lemma bus_reach_inv: "bus_reach c \<Longrightarrow> bus_inv c"
proof (induction rule: bus_reach.induct)
  case bur_new
  show ?case by (simp add: bus_inv_def NewBus_def)
qed (auto intro: bus_inv_step)

lemma Unsubscribe_total:
  assumes "bus_inv (b, pend)" and "gm_get (bus_store b) a \<noteq> None"
  shows "Unsubscribe a b \<noteq> None"
  using assms by (fastforce simp: bus_inv_def Unsubscribe_def close_chan_def split: option.splits)

lemma typeFromString_String:
  "typeFromString (EvType_String t) = (case t of OtherType n \<Rightarrow> None | _ \<Rightarrow> Some t)"
  by (cases t) (simp_all add: typeFromString_def)

section \<open>Properties\<close>

text \<open>While nobody subscribes to a closed bus, no interleaving of subscribing, publishing, receiving,
unsubscribing (any number of times) and closing panics: publishing always succeeds, and so do
unsubscribing an existing subscription and every close a \<^verbatim>\<open>Close\<close> still has to do. Publishing
appends the event to exactly the open subscriptions that want it and have room, in order, and
never blocks.\<close>

lemma bus_publish_delivers:
  assumes "bus_reach (b, pend)"
  shows "case Publish e b of
      None \<Rightarrow> False
    | Some b' \<Rightarrow> gm_get (bus_store b') a =
        (case gm_get (bus_store b) a of
           None \<Rightarrow> None
         | Some s \<Rightarrow> Some (if a \<in> set (bus_subs b) \<and> wants s e \<and> length (sb_ch s) < subscriberBufferSize
                          then s\<lparr>sb_ch := sb_ch s @ [e]\<rparr> else s)) \<and>
       (if gm_get (bus_store b) a = None then True else Unsubscribe a b \<noteq> None) \<and>
       (case pend of [] \<Rightarrow> True | c # cs \<Rightarrow> close_sub c b \<noteq> None)"
proof -
  have inv: "bus_inv (b, pend)" using assms by (rule bus_reach_inv)
  have opened: "\<not> sb_closed s" if "x \<in> set (bus_subs b)" "gm_get (bus_store b) x = Some s" for x s
    using inv that by (fastforce simp: bus_inv_def)
  have closed: "bus_subs b = []" if "bus_closed b" using inv that by (simp add: bus_inv_def)
  have pend: "case pend of [] \<Rightarrow> True | c # cs \<Rightarrow> close_sub c b \<noteq> None"
    using close_sub_total [of b] inv by (auto split: list.splits)
  have unsub: "if gm_get (bus_store b) a = None then True else Unsubscribe a b \<noteq> None"
    using Unsubscribe_total [OF inv] by auto
  obtain b' where b': "Publish e b = Some b'" "if bus_closed b then b' = b
     else \<forall>a. gm_get (bus_store b') a =
            (if a \<in> set (bus_subs b) then map_option (\<lambda>s. the (send_event e s)) (gm_get (bus_store b) a)
             else gm_get (bus_store b) a)"
    using Publish_spec [OF inv] by blast
  have "gm_get (bus_store b') a =
        (case gm_get (bus_store b) a of
           None \<Rightarrow> None
         | Some s \<Rightarrow> Some (if a \<in> set (bus_subs b) \<and> wants s e \<and> length (sb_ch s) < subscriberBufferSize
                          then s\<lparr>sb_ch := sb_ch s @ [e]\<rparr> else s))"
    using b'(2) opened [of a] closed by (auto simp: send_event_def split: option.splits if_splits)
  with b'(1) pend unsub show ?thesis by simp
qed

text \<open>Subscribing to a bus that is already closed yields a subscription whose channel was closed outside
its \<^verbatim>\<open>once\<close>: the first \<^verbatim>\<open>Unsubscribe\<close> of it closes the channel a second time and panics.\<close>

lemma bus_subscribe_closed_panics:
  "case Bus_Close NewBus of
     None \<Rightarrow> False
   | Some b \<Rightarrow> (case bus_subscribe flt b of (a, b') \<Rightarrow> Unsubscribe a b' = None)"
  by (simp add: Bus_Close_def NewBus_def close_begin_def bus_subscribe_def Let_def Unsubscribe_def
      close_chan_def gm_get_Cons)

text \<open>The JSON form of an event type reads back as the same type for every named type, and an unnamed
one is written as \<^verbatim>\<open>unknown\<close>, which no reader accepts.\<close>

lemma event_type_json_roundtrip:
  "EvType_UnmarshalJSON (EvType_MarshalJSON t) =
     (case t of OtherType n \<Rightarrow> Inl ''event: unknown type unknown'' | _ \<Rightarrow> Inr t)"
proof -
  have "take (length (EvType_MarshalJSON t) - 2) (drop 1 (EvType_MarshalJSON t)) = EvType_String t"
    by (simp add: EvType_MarshalJSON_def)
  moreover have "EvType_MarshalJSON t ! (length (EvType_MarshalJSON t) - 1) = CHR 0x22"
    by (simp add: EvType_MarshalJSON_def nth_append)
  moreover have "EvType_MarshalJSON t ! 0 = CHR 0x22" "\<not> length (EvType_MarshalJSON t) < 2"
    by (simp_all add: EvType_MarshalJSON_def)
  ultimately have "EvType_UnmarshalJSON (EvType_MarshalJSON t)
      = (case typeFromString (EvType_String t) of
           None \<Rightarrow> Inl (''event: unknown type '' @ EvType_String t) | Some u \<Rightarrow> Inr u)"
    unfolding EvType_UnmarshalJSON_def Let_def by presburger
  then show ?thesis by (simp add: typeFromString_String split: EvType.splits)
qed

end
