(* ===== verification/Osc.thy ===== *)
theory Osc
  imports Prelude
begin

text \<open>
  Scanning terminal output for escape sequences (\<^verbatim>\<open>internal/daemon/osc.go\<close>, \<^verbatim>\<open>da.go\<close> and
  \<^verbatim>\<open>parseOSC133Value\<close> of service.go). The path component that \<^verbatim>\<open>net/url.Parse\<close> finds in an OSC 7 value is a
  parameter \<open>url\<close> (\<open>None\<close> for a parse error).
\<close>

section \<open>OSC sequences (osc.go)\<close>

datatype OSCType = OSCTypeCwd | OSCTypeNotification | OSCTypeShellReady | OSCType133

record OSCResult =
  osc_Type :: OSCType
  osc_Value :: bytes
  osc_Offset :: nat

definition ESC :: byte where "ESC = CHR 0x1b"
definition BEL :: byte where "BEL = CHR 0x07"

definition oscIntroducer :: bytes where "oscIntroducer = [ESC, CHR '']'']"
definition oscTerminatorST :: bytes where "oscTerminatorST = [ESC, CHR 0x5c]"

definition pickOSCEnd :: "int \<Rightarrow> int \<Rightarrow> int" where
  "pickOSCEnd endST endBEL =
     (if endST \<ge> 0 \<and> endBEL \<ge> 0 \<and> endST < endBEL then endST
      else if endST \<ge> 0 \<and> endBEL \<ge> 0 then endBEL
      else if endST \<ge> 0 then endST
      else if endBEL \<ge> 0 then endBEL
      else -1)"

text \<open>The body of the loop for one sequence: the kind and value of the result it appends, if any.\<close>

definition osc_kind :: "(bytes \<Rightarrow> bytes option) \<Rightarrow> bytes \<Rightarrow> (OSCType \<times> bytes) option" where
  "osc_kind url body =
     (case index_byte (CHR '';'') body of
        None \<Rightarrow> None
      | Some semicolon \<Rightarrow>
          let oscNum = take semicolon body; oscValue = drop (semicolon + 1) body in
          if oscNum = ''7'' then
            (case url oscValue of
               None \<Rightarrow> None
             | Some p \<Rightarrow> if p = [] then None else Some (OSCTypeCwd, p))
          else if oscNum = ''9'' then Some (OSCTypeNotification, oscValue)
          else if oscNum = ''99'' then
            (let parts = splitn_byte 2 (CHR '';'') oscValue
             in Some (OSCTypeNotification, if length parts = 2 then parts ! 1 else oscValue))
          else if oscNum = ''133'' then Some (OSCType133, oscValue)
          else if oscNum = ''777'' then
            (let parts = splitn_byte 3 (CHR '';'') oscValue
             in if length parts \<ge> 2 \<and> parts ! 0 = ''wmux'' \<and> parts ! 1 = ''shell-ready''
                then Some (OSCTypeShellReady, ''shell-ready'')
                else Some (OSCTypeNotification,
                           if length parts = 3 then parts ! 2
                           else if length parts = 2 then parts ! 1 else oscValue))
          else None)"

definition osc_result :: "(bytes \<Rightarrow> bytes option) \<Rightarrow> bytes \<Rightarrow> nat \<Rightarrow> OSCResult option" where
  "osc_result url body off =
     map_option (\<lambda>(t, v). \<lparr>osc_Type = t, osc_Value = v, osc_Offset = off\<rparr>) (osc_kind url body)"

text \<open>
  The loop of \<^verbatim>\<open>ParseOSC\<close>, on the data from the cursor on; \<open>base\<close> is the cursor. After the string
  terminator the cursor only advances past its first byte, as in the source.
\<close>

function parse_osc :: "(bytes \<Rightarrow> bytes option) \<Rightarrow> nat \<Rightarrow> bytes \<Rightarrow> OSCResult list" where
  "parse_osc url base data =
     (case index_of oscIntroducer data of
        None \<Rightarrow> []
      | Some idx \<Rightarrow>
          let rest = drop (idx + 2) data;
              fin = pickOSCEnd (go_index (index_of oscTerminatorST rest)) (go_index (index_byte BEL rest))
          in if fin < 0 then []
             else (case osc_result url (take (nat fin) rest) (base + idx) of None \<Rightarrow> [] | Some r \<Rightarrow> [r])
                  @ parse_osc url (base + idx + 2 + nat fin + 1) (drop (nat fin + 1) rest))"
  by pat_completeness auto
termination
proof (relation "measure (\<lambda>(url, base, data). length data)", goal_cases)
  case (2 url base data idx rest fin)
  then have "idx + 2 \<le> length data"
    using index_of_Some [of oscIntroducer data idx] by (simp add: oscIntroducer_def)
  then show ?case by (simp add: 2(2))
qed simp

declare parse_osc.simps [simp del]

definition ParseOSC :: "(bytes \<Rightarrow> bytes option) \<Rightarrow> bytes \<Rightarrow> OSCResult list" where
  "ParseOSC url data = parse_osc url 0 data"

text \<open>The first byte of an OSC 133 value and, for \<^verbatim>\<open>D\<close>, the exit code.\<close>

definition parseOSC133Value :: "bytes \<Rightarrow> byte \<times> int" where
  "parseOSC133Value v =
     (if v = [] then (CHR 0x00, 0)
      else let code = hd v in
        if code = CHR ''D'' \<and> length v > 2
        then let rest = drop 2 v;
                 rest' = (case index_byte (CHR '';'') rest of None \<Rightarrow> rest | Some semi \<Rightarrow> take semi rest)
             in (code, fst (Atoi rest'))
        else (code, 0))"

section \<open>Device attribute requests (da.go)\<close>

datatype DAType = DATypeDA1 | DATypeDA2

fun DAType_String :: "DAType \<Rightarrow> bytes" where
  "DAType_String DATypeDA1 = ''DA1''"
| "DAType_String DATypeDA2 = ''DA2''"

definition da2Seq0 :: bytes where "da2Seq0 = ESC # ''[>0c''"
definition da2Seq :: bytes where "da2Seq = ESC # ''[>c''"
definition da1Seq0 :: bytes where "da1Seq0 = ESC # ''[0c''"
definition da1Seq :: bytes where "da1Seq = ESC # ''[c''"

text \<open>The \<^verbatim>\<open>switch\<close> at an escape byte: the request recognised, if any, and how far to advance.\<close>

definition da_match :: "bytes \<Rightarrow> DAType option \<times> nat" where
  "da_match tail =
     (if prefix da2Seq0 tail then (Some DATypeDA2, length da2Seq0)
      else if prefix da2Seq tail then (Some DATypeDA2, length da2Seq)
      else if prefix da1Seq0 tail then (Some DATypeDA1, length da1Seq0)
      else if prefix da1Seq tail then (Some DATypeDA1, length da1Seq)
      else (None, 1))"

lemmas da_seqs = da2Seq0_def da2Seq_def da1Seq0_def da1Seq_def

lemma da_match_pos: "0 < snd (da_match t)"
  by (simp add: da_match_def da_seqs)

function ParseDA :: "bytes \<Rightarrow> DAType list" where
  "ParseDA data =
     (case index_byte ESC data of
        None \<Rightarrow> []
      | Some idx \<Rightarrow>
          let tail = drop idx data
          in (case fst (da_match tail) of None \<Rightarrow> [] | Some t \<Rightarrow> [t]) @ ParseDA (drop (snd (da_match tail)) tail))"
  by pat_completeness auto
termination
proof (relation "measure length", goal_cases)
  case (2 data idx tail)
  from index_byte_Some [OF 2(1)] da_match_pos [of tail] have "0 < snd (da_match tail) + idx" "0 < length data"
    by auto
  then show ?case by (simp add: 2(2) diff_less)
qed simp

declare ParseDA.simps [simp del]

definition DA1Response :: bytes where "DA1Response = ESC # ''[?62;22c''"
definition DA2Response :: bytes where "DA2Response = ESC # ''[>1;0;0c''"

section \<open>Where results are found\<close>

lemma osc_result_offset: "osc_result url body off = Some r \<Longrightarrow> osc_Offset r = off"
  by (auto simp: osc_result_def)

lemma parse_osc_offsets:
  "list_all (\<lambda>r. base \<le> osc_Offset r \<and> prefix oscIntroducer (drop (osc_Offset r - base) data)) (parse_osc url base data)
   \<and> sorted_wrt (\<lambda>r r'. osc_Offset r < osc_Offset r') (parse_osc url base data)"
proof (induction url base data rule: parse_osc.induct)
  case (1 url base data)
  show ?case
  proof (cases "index_of oscIntroducer data")
    case None
    then show ?thesis by (subst (1 2) parse_osc.simps) simp
  next
    case (Some idx)
    let ?rest = "drop (idx + 2) data"
    let ?fin = "pickOSCEnd (go_index (index_of oscTerminatorST ?rest)) (go_index (index_byte BEL ?rest))"
    show ?thesis
    proof (cases "?fin < 0")
      case True
      with Some show ?thesis by (subst (1 2) parse_osc.simps) (simp add: Let_def)
    next
      case False
      let ?base' = "base + idx + 2 + nat ?fin + 1" and ?data' = "drop (nat ?fin + 1) ?rest"
      let ?here = "case osc_result url (take (nat ?fin) ?rest) (base + idx) of None \<Rightarrow> [] | Some r \<Rightarrow> [r]"
      have eq: "parse_osc url base data = ?here @ parse_osc url ?base' ?data'"
        using Some False by (subst parse_osc.simps) (simp add: Let_def)
      note IH = 1 [OF Some refl refl False]
      have here: "osc_Offset r = base + idx" if "r \<in> set ?here" for r
        using that osc_result_offset [of url _ "base + idx" r] by (auto split: option.splits)
      have later: "?base' \<le> osc_Offset r \<and> prefix oscIntroducer (drop (osc_Offset r - base) data)"
        if "r \<in> set (parse_osc url ?base' ?data')" for r
      proof -
        from IH that have "?base' \<le> osc_Offset r" "prefix oscIntroducer (drop (osc_Offset r - ?base') ?data')"
          by (auto simp: list_all_iff)
        moreover from this(1) have "osc_Offset r - base = osc_Offset r - ?base' + (nat ?fin + 1) + (idx + 2)"
          by linarith
        then have "drop (osc_Offset r - ?base') ?data' = drop (osc_Offset r - base) data"
          by (simp only: drop_drop add.assoc)
        ultimately show ?thesis by simp
      qed
      have "length ?here \<le> 1" by (auto split: option.splits)
      then have "sorted_wrt (\<lambda>r r'. osc_Offset r < osc_Offset r') ?here" by (cases ?here) auto
      moreover have "osc_Offset r < osc_Offset r'" if "r \<in> set ?here" "r' \<in> set (parse_osc url ?base' ?data')" for r r'
        using here [OF that(1)] later [OF that(2)] by simp
      ultimately have "sorted_wrt (\<lambda>r r'. osc_Offset r < osc_Offset r') (?here @ parse_osc url ?base' ?data')"
        using IH unfolding sorted_wrt_append by blast
      moreover have "base \<le> osc_Offset r \<and> prefix oscIntroducer (drop (osc_Offset r - base) data)"
        if "r \<in> set (?here @ parse_osc url ?base' ?data')" for r
        using that here [of r] later [of r] index_of_Some [OF Some] by fastforce
      ultimately show ?thesis unfolding eq by (simp add: list_all_iff)
    qed
  qed
qed

lemma index_of_after:
  assumes "\<And>j. j < length pre \<Longrightarrow> \<not> prefix s (drop j pre @ t)" and "prefix s t" and "s \<noteq> []"
  shows "index_of s (pre @ t) = Some (length pre)"
  using assms(1)
proof (induction pre)
  case Nil
  with assms(2,3) show ?case by (cases t) auto
next
  case (Cons x pre)
  have "\<not> prefix s (x # pre @ t)" using Cons.prems [of 0] by simp
  moreover have "index_of s (pre @ t) = Some (length pre)"
    using Cons.prems by (intro Cons.IH) (metis Suc_less_eq drop_Suc_Cons length_Cons)
  ultimately show ?case by simp
qed

text \<open>A text with no introducer does not get one from a following escape byte.\<close>

lemma index_of_intro:
  assumes "\<not> contains_sub pre oscIntroducer"
  shows "index_of oscIntroducer (pre @ oscIntroducer @ t) = Some (length pre)"
proof (rule index_of_after)
  fix j assume j: "j < length pre"
  have none: "\<not> prefix oscIntroducer (drop j pre)"
    using assms j by (metis contains_sub_def index_of_None less_imp_le)
  obtain a as where d: "drop j pre = a # as" using j by (metis Cons_nth_drop_Suc)
  show "\<not> prefix oscIntroducer (drop j pre @ oscIntroducer @ t)"
    using none by (cases as) (auto simp: d oscIntroducer_def ESC_def)
qed (auto simp: oscIntroducer_def)

lemma index_of_absent: "hd s \<notin> set v \<Longrightarrow> s \<noteq> [] \<Longrightarrow> j < length v \<Longrightarrow> \<not> prefix s (drop j v @ t)"
  by (cases s) (auto simp: Cons_nth_drop_Suc [symmetric])

lemma osc_result_shift:
  "osc_result url b (k + off) = map_option (\<lambda>r. r\<lparr>osc_Offset := k + osc_Offset r\<rparr>) (osc_result url b off)"
  by (cases "osc_kind url b") (auto simp: osc_result_def)

lemma parse_osc_shift:
  "parse_osc url (k + base) data = map (\<lambda>r. r\<lparr>osc_Offset := k + osc_Offset r\<rparr>) (parse_osc url base data)"
proof (induction url base data rule: parse_osc.induct)
  case (1 url base data)
  show ?case
  proof (cases "index_of oscIntroducer data")
    case None
    then show ?thesis by (simp add: parse_osc.simps)
  next
    case (Some idx)
    let ?rest = "drop (idx + 2) data"
    let ?fin = "pickOSCEnd (go_index (index_of oscTerminatorST ?rest)) (go_index (index_byte BEL ?rest))"
    show ?thesis
    proof (cases "?fin < 0")
      case True
      with Some show ?thesis by (simp add: parse_osc.simps Let_def)
    next
      case False
      note IH = 1 [OF Some refl refl False]
      have eq: "parse_osc url b data =
          (case osc_result url (take (nat ?fin) ?rest) (b + idx) of None \<Rightarrow> [] | Some r \<Rightarrow> [r])
          @ parse_osc url (b + idx + 2 + nat ?fin + 1) (drop (nat ?fin + 1) ?rest)" for b
        using Some False by (subst parse_osc.simps) (simp add: Let_def)
      show ?thesis
        using IH unfolding eq by (simp only: add.assoc osc_result_shift map_append) (auto split: option.splits)
    qed
  qed
qed

text \<open>A complete sequence is found where it stands, and scanning goes on behind it.\<close>

lemma parse_osc_found:
  assumes "\<not> contains_sub pre oscIntroducer" and "ESC \<notin> set body" and "BEL \<notin> set body"
  shows "parse_osc url 0 (pre @ oscIntroducer @ body @ [BEL] @ rest) =
     (case osc_result url body (length pre) of None \<Rightarrow> [] | Some r \<Rightarrow> [r])
     @ map (\<lambda>r. r\<lparr>osc_Offset := length pre + length body + 3 + osc_Offset r\<rparr>) (parse_osc url 0 rest)"
proof -
  let ?d = "pre @ oscIntroducer @ body @ [BEL] @ rest" and ?t = "body @ [BEL] @ rest"
  have i: "index_of oscIntroducer ?d = Some (length pre)" using index_of_intro [OF assms(1)] .
  have r: "drop (length pre + 2) ?d = ?t" by (simp add: oscIntroducer_def)
  have bel: "index_byte BEL ?t = Some (length body)" using index_byte_append [OF assms(3), of rest] by simp
  have st: "j > length body" if "index_of oscTerminatorST ?t = Some j" for j
  proof (rule ccontr)
    assume "\<not> length body < j"
    moreover have "prefix oscTerminatorST (drop j ?t)" using index_of_Some [OF that] by simp
    moreover have "\<not> prefix oscTerminatorST (drop j body @ [BEL] @ rest)" if "j < length body"
      using assms(2) that by (intro index_of_absent) (auto simp: oscTerminatorST_def)
    moreover have "\<not> prefix oscTerminatorST ([BEL] @ rest)" by (simp add: oscTerminatorST_def ESC_def BEL_def)
    ultimately show False by (cases "j = length body") auto
  qed
  have p: "pickOSCEnd (go_index (index_of oscTerminatorST ?t)) (go_index (index_byte BEL ?t)) = int (length body)"
    using st bel by (cases "index_of oscTerminatorST ?t") (force simp: pickOSCEnd_def go_index_def)+
  have "parse_osc url 0 ?d = (case osc_result url body (length pre) of None \<Rightarrow> [] | Some r \<Rightarrow> [r])
      @ parse_osc url (length pre + 2 + length body + 1) rest"
    by (subst parse_osc.simps) (simp only: i r p option.case Let_def, simp)
  also have "length pre + 2 + length body + 1 = (length pre + length body + 3) + 0" by simp
  finally show ?thesis by (simp only: parse_osc_shift)
qed

section \<open>Device attributes, byte by byte\<close>

text \<open>The reference: look for a request at every byte.\<close>

fun da_scan :: "bytes \<Rightarrow> DAType list" where
  "da_scan [] = []"
| "da_scan (c # cs) = (case fst (da_match (c # cs)) of None \<Rightarrow> [] | Some t \<Rightarrow> [t]) @ da_scan cs"

lemma da_match_ESC: "c \<noteq> ESC \<Longrightarrow> da_match (c # cs) = (None, 1)"
  by (simp add: da_match_def da_seqs)

lemma da_scan_skip: "ESC \<notin> set xs \<Longrightarrow> da_scan (xs @ ys) = da_scan ys"
  by (induction xs) (auto simp: da_match_ESC)

lemma da_match_tail:
  "\<exists>xs. cs = xs @ drop (snd (da_match (c # cs)) - 1) cs \<and> ESC \<notin> set xs"
proof -
  have "\<exists>xs. cs = xs @ drop (length s - 1) cs \<and> ESC \<notin> set xs"
    if "prefix s (c # cs)" "s \<noteq> []" "ESC \<notin> set (tl s)" for s
    using that by (cases s) (auto simp: prefix_def)
  moreover have "s \<noteq> [] \<and> ESC \<notin> set (tl s)" if "s \<in> {da2Seq0, da2Seq, da1Seq0, da1Seq}" for s
    using that by (auto simp: da_seqs ESC_def)
  ultimately have *: "prefix s (c # cs) \<Longrightarrow> s \<in> {da2Seq0, da2Seq, da1Seq0, da1Seq} \<Longrightarrow>
      \<exists>xs. cs = xs @ drop (length s - 1) cs \<and> ESC \<notin> set xs" for s
    by blast
  show ?thesis
    using * [of da2Seq0] * [of da2Seq] * [of da1Seq0] * [of da1Seq] by (auto simp: da_match_def)
qed

lemma ParseDA_scan: "ParseDA data = da_scan data"
proof (induction data rule: ParseDA.induct)
  case (1 data)
  show ?case
  proof (cases "index_byte ESC data")
    case None
    then have "ESC \<notin> set data" by simp
    from da_scan_skip [OF this, of "[]"] None show ?thesis
      by (subst ParseDA.simps) (simp del: index_byte_None)
  next
    case (Some idx)
    let ?tail = "drop idx data"
    note i = index_byte_Some [OF Some]
    obtain cs where t: "?tail = ESC # cs" using i by (metis Cons_nth_drop_Suc)
    have "da_scan data = da_scan ?tail"
      using da_scan_skip [of "take idx data" ?tail] i by simp
    also have "\<dots> = (case fst (da_match ?tail) of None \<Rightarrow> [] | Some t \<Rightarrow> [t]) @ da_scan cs"
      by (simp add: t)
    also have "da_scan cs = da_scan (drop (snd (da_match ?tail) - 1) cs)"
      using da_match_tail [of cs ESC] da_scan_skip t by metis
    also have "drop (snd (da_match ?tail) - 1) cs = drop (snd (da_match ?tail)) ?tail"
      using da_match_pos [of ?tail] by (simp add: t drop_Cons')
    finally show ?thesis
      using 1 [OF Some refl] Some by (subst ParseDA.simps) (simp add: Let_def)
  qed
qed

section \<open>Properties\<close>

text \<open>Every sequence \<^verbatim>\<open>ParseOSC\<close> reports starts at its offset with the introducer \<^verbatim>\<open>ESC ]\<close>, and the offsets
are strictly increasing, whatever the data.\<close>

lemma osc_offsets_sound:
  "list_all (\<lambda>r. prefix oscIntroducer (drop (osc_Offset r) data)) (ParseOSC url data) \<and>
   sorted_wrt (\<lambda>r r'. osc_Offset r < osc_Offset r') (ParseOSC url data)"
  using parse_osc_offsets [of 0 data url] by (simp add: ParseOSC_def)

text \<open>A complete shell-integration marker is always found, with its value and position, and the rest of
the data is scanned independently of it. Its code byte and exit status are read back as they
were written.\<close>

lemma osc133_marker_found:
  assumes "\<not> contains_sub pre oscIntroducer" and "in_int64 e"
  shows "ParseOSC url (pre @ oscIntroducer @ ''133;D;'' @ Itoa e @ [BEL] @ rest) =
      \<lparr>osc_Type = OSCType133, osc_Value = ''D;'' @ Itoa e, osc_Offset = length pre\<rparr>
      # map (\<lambda>r. r\<lparr>osc_Offset := length pre + length (''133;D;'' @ Itoa e) + 3 + osc_Offset r\<rparr>) (ParseOSC url rest)
    \<and> parseOSC133Value (''D;'' @ Itoa e) = (CHR ''D'', e)"
proof -
  have digits: "c \<noteq> ESC \<and> c \<noteq> BEL \<and> c \<noteq> CHR '';''" if "c \<in> set (Itoa e)" for c
    using that nat_digits_digit [of c "nat e"] nat_digits_digit [of c "nat (- e)"]
    by (auto simp: Itoa_def digit_val_def Let_def ESC_def BEL_def split: if_splits)
  let ?body = "''133;D;'' @ Itoa e"
  have "ESC \<notin> set ?body" "BEL \<notin> set ?body" using digits by (auto simp: ESC_def BEL_def)
  note found = parse_osc_found [OF assms(1) this, of url rest]
  have res: "osc_result url ?body (length pre) = Some \<lparr>osc_Type = OSCType133, osc_Value = ''D;'' @ Itoa e, osc_Offset = length pre\<rparr>"
    by (simp add: osc_result_def osc_kind_def Let_def)
  have "CHR '';'' \<notin> set (Itoa e)" using digits by auto
  then have "index_byte (CHR '';'') (Itoa e) = None" by simp
  moreover have "Itoa e \<noteq> []" by (simp add: Itoa_def)
  ultimately have "parseOSC133Value (''D;'' @ Itoa e) = (CHR ''D'', e)"
    using Atoi_Itoa [OF assms(2)] by (simp add: parseOSC133Value_def Let_def del: index_byte_None)
  with found res show ?thesis by (simp add: ParseOSC_def)
qed

text \<open>The scanner for device attribute requests, which jumps from escape byte to escape byte and skips
recognised sequences, finds exactly what a scan for a request at every single byte finds.\<close>

lemma da_scanner_equals_reference: "ParseDA data = da_scan data"
  by (rule ParseDA_scan)

end
