(* ===== verification/Ansi.thy ===== *)
theory Ansi
  imports Osc
begin

text \<open>
  Rendering terminal output (\<^verbatim>\<open>internal/platform/ansi\<close>: strip.go, html.go). The index loops of the source are
  recursions on the rest of the data.
\<close>

section \<open>Stripping escape sequences (strip.go)\<close>

definition in_range :: "nat \<Rightarrow> nat \<Rightarrow> byte \<Rightarrow> bool" where
  "in_range lo hi c \<longleftrightarrow> lo \<le> of_char c \<and> of_char c \<le> hi"

text \<open>A CSI sequence ends after a byte in 0x40-0x7E, an OSC sequence after BEL or \<^verbatim>\<open>ESC \\<close>.\<close>

fun skip_csi :: "bytes \<Rightarrow> bytes" where
  "skip_csi [] = []"
| "skip_csi (b # bs) = (if in_range 0x40 0x7E b then bs else skip_csi bs)"

fun skip_osc :: "bytes \<Rightarrow> bytes" where
  "skip_osc [] = []"
| "skip_osc (b # bs) =
     (if b = BEL then bs
      else if b = ESC \<and> bs \<noteq> [] \<and> hd bs = CHR 0x5c then tl bs
      else skip_osc bs)"

lemma length_skip_csi: "length (skip_csi bs) \<le> length bs"
  by (induction bs) auto

lemma length_skip_osc: "length (skip_osc bs) \<le> length bs"
  by (induction bs) auto

function Strip :: "bytes \<Rightarrow> bytes" where
  "Strip [] = []"
| "Strip (c # cs) =
     (if c = ESC then
        (case cs of
           [] \<Rightarrow> []
         | k # r \<Rightarrow> if k = CHR ''['' then Strip (skip_csi r)
                     else if k = CHR '']'' then Strip (skip_osc r)
                     else Strip r)
      else c # Strip cs)"
  by pat_completeness auto
termination
  by (relation "measure length") (auto simp: less_Suc_eq_le intro: le_SucI length_skip_csi length_skip_osc)

section \<open>Graphic attributes (html.go)\<close>

definition basic16 :: "bytes list" where
  "basic16 =
     [''#000000'', ''#aa0000'', ''#00aa00'', ''#aa5500'', ''#0000aa'', ''#aa00aa'', ''#00aaaa'', ''#aaaaaa'',
      ''#555555'', ''#ff5555'', ''#55ff55'', ''#ffff55'', ''#5555ff'', ''#ff55ff'', ''#55ffff'', ''#ffffff'']"

record sgrState =
  bold :: bool
  italic :: bool
  underline :: bool
  fg :: bytes
  bg :: bytes

definition sgr_reset :: sgrState where
  "sgr_reset = \<lparr>bold = False, italic = False, underline = False, fg = [], bg = []\<rparr>"

fun join_semi :: "bytes list \<Rightarrow> bytes" where
  "join_semi [] = []"
| "join_semi [p] = p"
| "join_semi (p # q # ps) = p @ '';'' @ join_semi (q # ps)"

definition style :: "sgrState \<Rightarrow> bytes" where
  "style s =
     join_semi
       ((if bold s then [''font-weight:bold''] else [])
        @ (if italic s then [''font-style:italic''] else [])
        @ (if underline s then [''text-decoration:underline''] else [])
        @ (if fg s \<noteq> [] then [''color:'' @ fg s] else [])
        @ (if bg s \<noteq> [] then [''background-color:'' @ bg s] else []))"

definition rgb :: "int \<Rightarrow> int \<Rightarrow> int \<Rightarrow> bytes" where
  "rgb r g b = ''rgb('' @ Itoa r @ '','' @ Itoa g @ '','' @ Itoa b @ '')''"

definition color256 :: "int \<Rightarrow> bytes" where
  "color256 idx =
     (if idx < 0 \<or> idx > 255 then []
      else if idx < 16 then basic16 ! nat idx
      else if idx < 232 then
        (let i = idx - 16 in rgb ((i div 36) * 51) (((i div 6) mod 6) * 51) ((i mod 6) * 51))
      else (let v = (idx - 232) * 10 + 8 in rgb v v v))"

text \<open>
  An extended colour after code 38 or 48: the colour, if the parameters are complete, and the
  codes left.
\<close>

definition ext_color :: "bytes list \<Rightarrow> bytes option \<times> bytes list" where
  "ext_color codes =
     (case codes of
        [] \<Rightarrow> (None, [])
      | m # rest \<Rightarrow>
          let mode = fst (Atoi m) in
          if mode = 5 \<and> rest \<noteq> [] then (Some (color256 (fst (Atoi (hd rest)))), tl rest)
          else if mode = 2 \<and> length rest \<ge> 3
          then (Some (rgb (fst (Atoi (rest ! 0))) (fst (Atoi (rest ! 1))) (fst (Atoi (rest ! 2)))), drop 3 rest)
          else (None, rest))"

lemma length_ext_color: "length (snd (ext_color codes)) \<le> length codes"
  by (auto simp: ext_color_def Let_def split: list.splits)

definition simple_sgr :: "int \<Rightarrow> sgrState \<Rightarrow> sgrState" where
  "simple_sgr n s =
     (if n = 0 then sgr_reset
      else if n = 1 then s\<lparr>bold := True\<rparr>
      else if n = 3 then s\<lparr>italic := True\<rparr>
      else if n = 4 then s\<lparr>underline := True\<rparr>
      else if n = 22 then s\<lparr>bold := False\<rparr>
      else if n = 23 then s\<lparr>italic := False\<rparr>
      else if n = 24 then s\<lparr>underline := False\<rparr>
      else if n \<ge> 30 \<and> n \<le> 37 then s\<lparr>fg := basic16 ! nat (n - 30)\<rparr>
      else if n = 39 then s\<lparr>fg := []\<rparr>
      else if n \<ge> 40 \<and> n \<le> 47 then s\<lparr>bg := basic16 ! nat (n - 40)\<rparr>
      else if n = 49 then s\<lparr>bg := []\<rparr>
      else if n \<ge> 90 \<and> n \<le> 97 then s\<lparr>fg := basic16 ! nat (n - 90 + 8)\<rparr>
      else if n \<ge> 100 \<and> n \<le> 107 then s\<lparr>bg := basic16 ! nat (n - 100 + 8)\<rparr>
      else s)"

function apply_codes :: "bytes list \<Rightarrow> sgrState \<Rightarrow> sgrState" where
  "apply_codes [] s = s"
| "apply_codes (c # codes) s =
     (case Atoi c of
        (n, Some e) \<Rightarrow> apply_codes codes s
      | (n, None) \<Rightarrow>
          if n = 38 then
            (case ext_color codes of (col, rest) \<Rightarrow>
               apply_codes rest (case col of None \<Rightarrow> s | Some v \<Rightarrow> s\<lparr>fg := v\<rparr>))
          else if n = 48 then
            (case ext_color codes of (col, rest) \<Rightarrow>
               apply_codes rest (case col of None \<Rightarrow> s | Some v \<Rightarrow> s\<lparr>bg := v\<rparr>))
          else apply_codes codes (simple_sgr n s))"
  by pat_completeness auto
termination
  by (relation "measure (\<lambda>(codes, s). length codes)")
     (auto simp: less_Suc_eq_le, (metis length_ext_color snd_conv)+)

definition applySGR :: "sgrState \<Rightarrow> bytes \<Rightarrow> sgrState" where
  "applySGR s params = (if params = [] then sgr_reset else apply_codes (split_byte (CHR '';'') params) s)"

section \<open>Conversion to HTML (html.go)\<close>

text \<open>\<^verbatim>\<open>html.EscapeString\<close> of one byte.\<close>

definition EscapeByte :: "byte \<Rightarrow> bytes" where
  "EscapeByte c =
     (if c = CHR ''&'' then ''&amp;'' else if c = CHR 0x27 then ''&#39;''
      else if c = CHR ''<'' then ''&lt;'' else if c = CHR ''>'' then ''&gt;''
      else if c = CHR 0x22 then ''&#34;'' else [c])"

definition html_open :: bytes where
  "html_open = ''<pre style='' @ [CHR 0x22] @ ''font-family:monospace;background:#000;color:#aaa;padding:8px'' @ [CHR 0x22] @ ''>''"

definition open_span :: "sgrState \<Rightarrow> bytes" where
  "open_span s = (if style s = [] then [] else ''<span style='' @ [CHR 0x22] @ style s @ [CHR 0x22] @ ''>'')"

definition flush_span :: "bool \<Rightarrow> bytes" where
  "flush_span spanOpen = (if spanOpen then ''</span>'' else [])"

definition csi_params :: "bytes \<Rightarrow> bytes" where
  "csi_params r =
     (let ps = takeWhile (in_range 0x30 0x3F) r
      in ps @ takeWhile (in_range 0x20 0x2F) (drop (length ps) r))"

function html_loop :: "sgrState \<Rightarrow> bool \<Rightarrow> bytes \<Rightarrow> bytes" where
  "html_loop st spanOpen [] = flush_span spanOpen"
| "html_loop st spanOpen (c # cs) =
     (if c \<noteq> ESC then EscapeByte c @ html_loop st spanOpen cs
      else case cs of
             [] \<Rightarrow> flush_span spanOpen
           | k # r \<Rightarrow>
               if k = CHR ''['' then
                 (let params = csi_params r in
                  case drop (length params) r of
                    [] \<Rightarrow> flush_span spanOpen
                  | finalByte # rest \<Rightarrow>
                      if finalByte = CHR ''m''
                      then let st' = applySGR st params
                           in flush_span spanOpen @ open_span st' @ html_loop st' (style st' \<noteq> []) rest
                      else html_loop st spanOpen rest)
               else if k = CHR '']'' then html_loop st spanOpen (skip_osc r)
               else html_loop st spanOpen r)"
  by pat_completeness auto
termination
proof (relation "measure (\<lambda>(st, o', d). length d)", goal_cases)
  case (3 st spanOpen c cs k r params finalByte rest st')
  from arg_cong [OF 3(5), of length] show ?case by (simp add: 3(2))
next
  case (4 st spanOpen c cs k r params finalByte rest)
  from arg_cong [OF 4(5), of length] show ?case by (simp add: 4(2))
next
  case (5 st spanOpen c cs k r)
  then show ?case using length_skip_osc [of r] by simp
qed auto

definition ToHTML :: "bytes \<Rightarrow> bytes" where
  "ToHTML data = html_open @ (if data = [] then [] else html_loop sgr_reset False data) @ ''</pre>''"

section \<open>What \<^verbatim>\<open>Strip\<close> leaves\<close>

lemma subseq_skip_csi: "subseq (skip_csi bs) bs"
  by (induction bs) (auto intro: list_emb_Cons)

lemma subseq_skip_osc: "subseq (skip_osc bs) bs"
proof (induction bs rule: skip_osc.induct)
  case (2 b bs)
  then show ?case by (cases bs) (auto intro: list_emb_Cons)
qed simp

lemma Strip_escape:
  "Strip (ESC # k # r) = Strip (if k = CHR ''['' then skip_csi r else if k = CHR '']'' then skip_osc r else r)"
  by simp

lemma Strip_facts: "ESC \<notin> set (Strip d) \<and> subseq (Strip d) d"
proof (induction d rule: length_induct)
  case (1 d)
  show ?case
  proof (cases d)
    case Nil
    then show ?thesis by simp
  next
    case (Cons c cs)
    show ?thesis
    proof (cases "c = ESC \<and> cs \<noteq> []")
      case True
      then obtain k r where cs: "cs = k # r" by (cases cs) auto
      let ?x = "if k = CHR ''['' then skip_csi r else if k = CHR '']'' then skip_osc r else r"
      have "subseq ?x r" by (simp add: subseq_skip_csi subseq_skip_osc)
      moreover have "length ?x < length d" using Cons cs length_skip_csi [of r] length_skip_osc [of r] by auto
      then have "ESC \<notin> set (Strip ?x) \<and> subseq (Strip ?x) ?x" using 1 by blast
      moreover have "subseq r d" using Cons cs by (simp add: list_emb_Cons)
      moreover have "Strip d = Strip ?x" using Cons True cs Strip_escape by simp
      ultimately show ?thesis by (metis subseq_order.trans)
    next
      case False
      have "ESC \<notin> set (Strip cs) \<and> subseq (Strip cs) cs" using 1 Cons by simp
      moreover have "Strip d = (if c = ESC then [] else c # Strip cs)" using False Cons by auto
      ultimately show ?thesis using Cons by auto
    qed
  qed
qed

lemma Strip_id: "ESC \<notin> set d \<Longrightarrow> Strip d = d"
  by (induction d) auto

section \<open>Tokens\<close>

text \<open>The structure behind the generated HTML.\<close>

datatype html_tok = TOpen bytes | TClose | TText byte

fun render_tok :: "html_tok \<Rightarrow> bytes" where
  "render_tok (TOpen s) = ''<span style='' @ [CHR 0x22] @ s @ [CHR 0x22] @ ''>''"
| "render_tok TClose = ''</span>''"
| "render_tok (TText c) = EscapeByte c"

definition safe_attr :: "bytes \<Rightarrow> bool" where
  "safe_attr s \<longleftrightarrow> list_all (\<lambda>c. c \<notin> {CHR 0x22, CHR 0x27, CHR ''<'', CHR ''>'', CHR ''&''}) s"

text \<open>Spans do not nest, every one is closed, and attributes need no escaping.\<close>

fun well_nested :: "bool \<Rightarrow> html_tok list \<Rightarrow> bool" where
  "well_nested o' [] = (\<not> o')"
| "well_nested o' (TOpen s # ts) = (\<not> o' \<and> safe_attr s \<and> well_nested True ts)"
| "well_nested o' (TClose # ts) = (o' \<and> well_nested False ts)"
| "well_nested o' (TText c # ts) = (c \<noteq> ESC \<and> well_nested o' ts)"

definition tok_text :: "html_tok list \<Rightarrow> bytes" where
  "tok_text ts = List.map_filter (\<lambda>t. case t of TText c \<Rightarrow> Some c | _ \<Rightarrow> None) ts"

lemma tok_text_simps [simp]:
  "tok_text [] = []" "tok_text (TOpen s # ts) = tok_text ts" "tok_text (TClose # ts) = tok_text ts"
  "tok_text (TText c # ts) = c # tok_text ts"
  by (simp_all add: tok_text_def List.map_filter_simps)

section \<open>Attributes are safe\<close>

lemma safe_attr_append [simp]: "safe_attr (xs @ ys) = (safe_attr xs \<and> safe_attr ys)"
  by (simp add: safe_attr_def)

lemma safe_attr_Nil [simp]: "safe_attr []"
  by (simp add: safe_attr_def)

lemma safe_Itoa: "safe_attr (Itoa i)"
proof -
  have "c \<notin> {CHR 0x22, CHR 0x27, CHR ''<'', CHR ''>'', CHR ''&''}" if "c \<in> set (nat_digits n)" for c n
    using nat_digits_digit [OF that] by (auto simp: digit_val_def Let_def)
  then show ?thesis by (auto simp: safe_attr_def Itoa_def list_all_iff)
qed

lemma safe_rgb: "safe_attr (rgb r g b)"
  using safe_Itoa [of r] safe_Itoa [of g] safe_Itoa [of b] by (simp add: rgb_def safe_attr_def)

lemma safe_basic16: "i < 16 \<Longrightarrow> safe_attr (basic16 ! i)"
proof -
  have "list_all safe_attr basic16" by (simp add: basic16_def safe_attr_def)
  moreover have "length basic16 = 16" by (simp add: basic16_def)
  ultimately show "i < 16 \<Longrightarrow> safe_attr (basic16 ! i)" by (simp add: list_all_length)
qed

lemma safe_color256: "safe_attr (color256 i)"
  by (auto simp: color256_def Let_def safe_rgb safe_basic16)

definition sgr_ok :: "sgrState \<Rightarrow> bool" where
  "sgr_ok s \<longleftrightarrow> safe_attr (fg s) \<and> safe_attr (bg s)"

lemma ext_color_safe: "ext_color codes = (Some v, rest) \<Longrightarrow> safe_attr v"
  by (auto simp: ext_color_def Let_def safe_rgb safe_color256 split: list.splits if_splits)

lemma simple_sgr_ok: "sgr_ok s \<Longrightarrow> sgr_ok (simple_sgr n s)"
  by (auto simp: sgr_ok_def simple_sgr_def sgr_reset_def intro!: safe_basic16)

lemma apply_codes_ok: "sgr_ok s \<Longrightarrow> sgr_ok (apply_codes codes s)"
proof (induction codes s rule: apply_codes.induct)
  case (2 c codes s)
  obtain col rest where x: "ext_color codes = (col, rest)" by (cases "ext_color codes")
  have "sgr_ok (case col of None \<Rightarrow> s | Some v \<Rightarrow> s\<lparr>fg := v\<rparr>)" "sgr_ok (case col of None \<Rightarrow> s | Some v \<Rightarrow> s\<lparr>bg := v\<rparr>)"
    using 2(5) ext_color_safe x by (auto simp: sgr_ok_def split: option.splits)
  with 2 x simple_sgr_ok show ?case by (auto split: prod.splits option.splits)
qed simp

lemma applySGR_ok: "sgr_ok s \<Longrightarrow> sgr_ok (applySGR s params)"
  by (auto simp: applySGR_def apply_codes_ok) (simp add: sgr_ok_def sgr_reset_def)

lemma join_semi_safe: "list_all safe_attr ps \<Longrightarrow> safe_attr (join_semi ps)"
  by (induction ps rule: join_semi.induct) (auto, simp add: safe_attr_def)

lemma style_safe: "sgr_ok s \<Longrightarrow> safe_attr (style s)"
  unfolding style_def by (rule join_semi_safe) (auto simp: sgr_ok_def, (simp add: safe_attr_def)+)

section \<open>The generated HTML\<close>

function html_toks :: "sgrState \<Rightarrow> bool \<Rightarrow> bytes \<Rightarrow> html_tok list" where
  "html_toks st o' [] = (if o' then [TClose] else [])"
| "html_toks st o' (c # cs) =
     (if c \<noteq> ESC then TText c # html_toks st o' cs
      else case cs of
             [] \<Rightarrow> (if o' then [TClose] else [])
           | k # r \<Rightarrow>
               if k = CHR ''['' then
                 (case drop (length (csi_params r)) r of
                    [] \<Rightarrow> (if o' then [TClose] else [])
                  | b # rest \<Rightarrow>
                      if b = CHR ''m''
                      then let st' = applySGR st (csi_params r)
                           in (if o' then [TClose] else []) @ (if style st' = [] then [] else [TOpen (style st')])
                              @ html_toks st' (style st' \<noteq> []) rest
                      else html_toks st o' rest)
               else if k = CHR '']'' then html_toks st o' (skip_osc r)
               else html_toks st o' r)"
  by pat_completeness auto
termination
proof (relation "measure (\<lambda>(st, o', d). length d)", goal_cases)
  case (3 st o' c cs k r b rest st')
  from arg_cong [OF 3(4), of length] show ?case by (simp add: 3(2))
next
  case (4 st o' c cs k r b rest)
  from arg_cong [OF 4(4), of length] show ?case by (simp add: 4(2))
next
  case (5 st o' c cs k r)
  then show ?case using length_skip_osc [of r] by simp
qed auto

lemma render_close: "concat (map render_tok (if o' then [TClose] else [])) = flush_span o'"
  by (simp add: flush_span_def)

lemma html_loop_toks:
  "html_loop st o' d = concat (map render_tok (html_toks st o' d))"
proof (induction st o' d rule: html_toks.induct)
  case (2 st o' c cs)
  consider "c \<noteq> ESC" | "c = ESC" "cs = []" | k r where "c = ESC" "cs = k # r" by (cases cs) auto
  then show ?case
  proof cases
    case (3 k r)
    show ?thesis
    proof (cases "k = CHR ''[''")
      case True
      show ?thesis
      proof (cases "drop (length (csi_params r)) r")
        case Nil
        with 3 True show ?thesis by (simp add: render_close Let_def)
      next
        case (Cons b rest)
        with 3 True 2(2) [of k r b rest] 2(3) [of k r b rest] show ?thesis
          by (simp add: Let_def flush_span_def open_span_def)
      qed
    next
      case False
      with 3 2(4) [of k r] 2(5) [of k r] show ?thesis by simp
    qed
  qed (use 2 in \<open>auto simp: flush_span_def\<close>)
qed (simp add: flush_span_def)

lemma html_toks_nested: "sgr_ok st \<Longrightarrow> well_nested o' (html_toks st o' d)"
proof (induction st o' d rule: html_toks.induct)
  case (2 st o' c cs)
  consider "c \<noteq> ESC" | "c = ESC" "cs = []" | k r where "c = ESC" "cs = k # r" by (cases cs) auto
  then show ?case
  proof cases
    case (3 k r)
    show ?thesis
    proof (cases "k = CHR ''[''")
      case True
      show ?thesis
      proof (cases "drop (length (csi_params r)) r")
        case (Cons b rest)
        have ok: "sgr_ok (applySGR st (csi_params r))" using 2(6) by (rule applySGR_ok)
        with Cons 3 True 2(2) [of k r b rest] 2(3) [of k r b rest] 2(6) style_safe [OF ok] show ?thesis
          by (auto simp: Let_def)
      qed (use 3 True in simp)
    next
      case False
      with 3 2(4) [of k r] 2(5) [of k r] 2(6) show ?thesis by simp
    qed
  qed (use 2 in auto)
qed simp

lemma html_toks_text: "subseq (tok_text (html_toks st o' d)) d"
proof (induction st o' d rule: html_toks.induct)
  case (2 st o' c cs)
  consider "c \<noteq> ESC" | "c = ESC" "cs = []" | k r where "c = ESC" "cs = k # r" by (cases cs) auto
  then show ?case
  proof cases
    case (3 k r)
    have tail: "subseq x rest \<Longrightarrow> drop n r = b # rest \<Longrightarrow> subseq x (c # cs)" for x rest n b
      using 3 by (metis list_emb_Cons subseq_order.trans suffix_drop suffix_imp_subseq)
    have osc: "subseq x (skip_osc r) \<Longrightarrow> subseq x (c # cs)" for x
      using 3 subseq_skip_osc [of r] by (metis list_emb_Cons subseq_order.trans)
    show ?thesis
    proof (cases "k = CHR ''[''")
      case True
      show ?thesis
      proof (cases "drop (length (csi_params r)) r")
        case (Cons b rest)
        have close: "tok_text ((if o' then [TClose] else []) @ (if z then [] else [TOpen s]) @ ts) = tok_text ts" for z s ts
          by simp
        from Cons 3 True 2(2) [of k r b rest] 2(3) [of k r b rest] tail [OF _ Cons] show ?thesis
          by (simp add: Let_def close del: append.simps)
      qed (use 3 True in simp)
    next
      case False
      with 3 2(4) [of k r] 2(5) [of k r] osc show ?thesis by (auto intro: list_emb_Cons)
    qed
  qed (use 2 in auto)
qed simp

section \<open>Properties\<close>

text \<open>Stripping leaves no escape byte, only removes bytes (never reorders or invents any), and leaves
exactly the texts without escape bytes unchanged.\<close>

lemma strip_removes_escapes:
  "ESC \<notin> set (Strip d) \<and> subseq (Strip d) d \<and> Strip (Strip d) = Strip d \<and> (Strip d = d \<longleftrightarrow> ESC \<notin> set d)"
  using Strip_facts [of d] Strip_id [of d] Strip_id [of "Strip d"] by metis

text \<open>(C34) The HTML export is well formed and cannot be injected into, whatever the terminal printed: it is a
\<^verbatim>\<open>pre\<close> element whose content is a sequence of non-nested, always closed \<^verbatim>\<open>span\<close> elements with
attribute values that need no escaping, and of text bytes of the output, each of them escaped.\<close>

theorem html_export_well_formed:
  "\<exists>ts. ToHTML d = html_open @ concat (map render_tok ts) @ ''</pre>'' \<and> well_nested False ts \<and> subseq (tok_text ts) d"
proof -
  have ok: "sgr_ok sgr_reset" by (simp add: sgr_ok_def sgr_reset_def)
  show ?thesis
    using html_loop_toks [of sgr_reset False d] html_toks_nested [OF ok, of False d] html_toks_text [of sgr_reset False d]
    by (cases "d = []") (auto simp: ToHTML_def intro: exI [of _ "[]"])
qed

end
