(* ===== verification/History.thy ===== *)
theory History
  imports Files
begin

text \<open>
  Session history on disk (\<^verbatim>\<open>internal/platform/history\<close>: entity.go, writer.go, metadata.go, dirops.go) and
  asciinema recordings (\<^verbatim>\<open>internal/platform/recording/writer.go\<close>). The JSON text of a metadata record, of
  a recording header and of a recording event are parameters (functions of the records
  \<open>meta_json\<close> and \<open>rec_json\<close>).
\<close>

section \<open>Sizes (history/entity.go)\<close>

text \<open>\<^verbatim>\<open>strings.TrimSpace\<close>: white space of Unicode, as UTF-8 byte sequences.\<close>

definition white_space :: "bytes list" where
  "white_space =
     map (\<lambda>n. [char_of n]) [9, 10, 11, 12, 13, 32 :: nat]
     @ [[CHR 0xC2, CHR 0x85], [CHR 0xC2, CHR 0xA0], [CHR 0xE1, CHR 0x9A, CHR 0x80],
        [CHR 0xE2, CHR 0x81, CHR 0x9F], [CHR 0xE3, CHR 0x80, CHR 0x80]]
     @ map (\<lambda>n. [CHR 0xE2, CHR 0x80, char_of n])
         [0x80, 0x81, 0x82, 0x83, 0x84, 0x85, 0x86, 0x87, 0x88, 0x89, 0x8A, 0xA8, 0xA9, 0xAF :: nat]"

function trim_left :: "bytes list \<Rightarrow> bytes \<Rightarrow> bytes" where
  "trim_left ws s =
     (case find (\<lambda>w. w \<noteq> [] \<and> prefix w s) ws of None \<Rightarrow> s | Some w \<Rightarrow> trim_left ws (drop (length w) s))"
  by pat_completeness auto
termination
proof (relation "measure (\<lambda>(ws, s). length s)", goal_cases)
  case (2 ws s w)
  then have "w \<noteq> []" "prefix w s" by (auto simp: find_Some_iff)
  then show ?case by (cases s) (auto dest: prefix_length_le)
qed simp

declare trim_left.simps [simp del]

definition TrimSpace :: "bytes \<Rightarrow> bytes" where
  "TrimSpace s = rev (trim_left (map rev white_space) (rev (trim_left white_space s)))"

definition upper_byte :: "byte \<Rightarrow> byte" where
  "upper_byte c = (let n = of_char c :: nat in if 97 \<le> n \<and> n \<le> 122 then char_of (n - 32) else c)"

text \<open>
  \<^verbatim>\<open>strings.ToUpper\<close>: only ASCII letters are mapped here. No other character has an upper case that is a
  digit, a sign or a letter of the suffixes, so the parse below is the same.
\<close>

definition ToUpper :: "bytes \<Rightarrow> bytes" where
  "ToUpper s = map upper_byte s"

datatype hist_error = ErrInvalidSize | ErrWriterClosed | ErrHistIO io_error | ErrHistParse

definition kilobyte :: int where "kilobyte = 1024"
definition megabyte :: int where "megabyte = 1024 * 1024"
definition gigabyte :: int where "gigabyte = 1024 * 1024 * 1024"

definition size_suffix :: "bytes \<Rightarrow> int \<times> bytes" where
  "size_suffix upper =
     (if suffix ''GB'' upper then (gigabyte, take (length upper - 2) upper)
      else if suffix ''MB'' upper then (megabyte, take (length upper - 2) upper)
      else if suffix ''KB'' upper then (kilobyte, take (length upper - 2) upper)
      else (1, upper))"

definition ParseSize :: "bytes \<Rightarrow> hist_error + int" where
  "ParseSize s =
     (if s = [] then Inl ErrInvalidSize
      else case size_suffix (ToUpper (TrimSpace s)) of (multiplier, numStr) \<Rightarrow>
        (case ParseInt numStr of
           (n, Some e) \<Rightarrow> Inl ErrInvalidSize
         | (n, None) \<Rightarrow> if n < 0 then Inl ErrInvalidSize else Inr (wrap64 (n * multiplier))))"

section \<open>The scrollback writer (history/writer.go)\<close>

record HWriter =
  hw_path :: path
  hw_written :: int
  hw_maxSize :: int
  hw_closed :: bool

definition hist_NewWriter :: "path \<Rightarrow> int \<Rightarrow> fs \<Rightarrow> hist_error + (HWriter \<times> fs)" where
  "hist_NewWriter p maxSize f =
     (case OpenTrunc p f of
        Inl e \<Rightarrow> Inl (ErrHistIO e)
      | Inr f' \<Rightarrow> Inr (\<lparr>hw_path = p, hw_written = 0, hw_maxSize = maxSize, hw_closed = False\<rparr>, f'))"

definition hist_Write :: "bytes \<Rightarrow> HWriter \<times> fs \<Rightarrow> (nat \<times> hist_error option) \<times> (HWriter \<times> fs)" where
  "hist_Write p = (\<lambda>(w, f).
     if hw_closed w then ((0, Some ErrWriterClosed), (w, f))
     else let remaining = hw_maxSize w - hw_written w in
       if hw_maxSize w > 0 \<and> remaining \<le> 0 then ((0, None), (w, f))
       else let data = (if hw_maxSize w > 0 \<and> int (length p) > remaining then take (nat remaining) p else p)
            in case file_write (hw_path w) data f of ((n, bad), f') \<Rightarrow>
                 ((n, if bad then Some (ErrHistIO ErrIO) else None), (w\<lparr>hw_written := hw_written w + int n\<rparr>, f')))"

definition hist_Written :: "HWriter \<Rightarrow> int" where
  "hist_Written w = hw_written w"

definition hist_Close :: "HWriter \<Rightarrow> HWriter" where
  "hist_Close w = (if hw_closed w then w else w\<lparr>hw_closed := True\<rparr>)"

section \<open>Metadata (history/metadata.go)\<close>

record Metadata =
  md_SessionID :: bytes
  md_Shell :: bytes
  md_Cwd :: bytes
  md_Cols :: int
  md_Rows :: int
  md_StartedAt :: time
  md_EndedAt :: "time option"
  md_ExitCode :: "int option"

record meta_json =
  mj_enc :: "Metadata \<Rightarrow> bytes"
  mj_dec :: "bytes \<Rightarrow> Metadata option"

definition metaFileName :: bytes where "metaFileName = ''meta.json''"

definition WriteMetadata :: "meta_json \<Rightarrow> path \<Rightarrow> Metadata \<Rightarrow> fs \<Rightarrow> (hist_error + unit) \<times> fs" where
  "WriteMetadata J dir meta f =
     (case WriteFile (Join dir metaFileName) (mj_enc J meta) f of
        (Inl e, f') \<Rightarrow> (Inl (ErrHistIO e), f')
      | (Inr u, f') \<Rightarrow> (Inr (), f'))"

definition ReadMetadata :: "meta_json \<Rightarrow> path \<Rightarrow> fs \<Rightarrow> hist_error + Metadata" where
  "ReadMetadata J dir f =
     (case ReadFile (Join dir metaFileName) f of
        Inl e \<Rightarrow> Inl (ErrHistIO e)
      | Inr data \<Rightarrow> (case mj_dec J data of None \<Rightarrow> Inl ErrHistParse | Some m \<Rightarrow> Inr m))"

definition UpdateMetadataExit :: "meta_json \<Rightarrow> path \<Rightarrow> time \<Rightarrow> int \<Rightarrow> fs \<Rightarrow> (hist_error + unit) \<times> fs" where
  "UpdateMetadataExit J dir endedAt exitCode f =
     (case ReadMetadata J dir f of
        Inl e \<Rightarrow> (Inl e, f)
      | Inr meta \<Rightarrow> WriteMetadata J dir (meta\<lparr>md_EndedAt := Some endedAt, md_ExitCode := Some exitCode\<rparr>) f)"

section \<open>Session directories (history/dirops.go)\<close>

record SessionDirInfo =
  di_Path :: path
  di_SessionID :: bytes
  di_EndedAt :: "time option"
  di_Size :: int

definition EnsureSessionDir :: "path \<Rightarrow> bytes \<Rightarrow> fs \<Rightarrow> (hist_error + path) \<times> fs" where
  "EnsureSessionDir baseDir sid f =
     (let dir = Join baseDir sid in
      case MkdirAll dir f of (Inl e, f') \<Rightarrow> (Inl (ErrHistIO e), f') | (Inr u, f') \<Rightarrow> (Inr dir, f'))"

fun entries_size :: "(bytes \<times> node) list \<Rightarrow> int" where
  "entries_size [] = 0"
| "entries_size ((name, n) # es) = (case n of DirN \<Rightarrow> 0 | FileN d \<Rightarrow> int (length d)) + entries_size es"

definition DirSize :: "path \<Rightarrow> fs \<Rightarrow> hist_error + int" where
  "DirSize dir f = (case ReadDir dir f of Inl e \<Rightarrow> Inl (ErrHistIO e) | Inr es \<Rightarrow> Inr (entries_size es))"

definition size_or_0 :: "hist_error + int \<Rightarrow> int" where
  "size_or_0 r = (case r of Inl _ \<Rightarrow> 0 | Inr n \<Rightarrow> n)"

definition list_dir_info :: "meta_json \<Rightarrow> path \<Rightarrow> fs \<Rightarrow> bytes \<times> node \<Rightarrow> SessionDirInfo option" where
  "list_dir_info J baseDir f = (\<lambda>(name, n).
     case n of
       FileN _ \<Rightarrow> None
     | DirN \<Rightarrow>
         let dirPath = Join baseDir name in
         (case ReadMetadata J dirPath f of
            Inl _ \<Rightarrow> None
          | Inr meta \<Rightarrow> Some \<lparr>di_Path = dirPath, di_SessionID = md_SessionID meta,
                              di_EndedAt = md_EndedAt meta, di_Size = size_or_0 (DirSize dirPath f)\<rparr>))"

definition ListSessionDirs :: "meta_json \<Rightarrow> path \<Rightarrow> fs \<Rightarrow> hist_error + SessionDirInfo list" where
  "ListSessionDirs J baseDir f =
     (case ReadDir baseDir f of
        Inl e \<Rightarrow> Inl (ErrHistIO e)
      | Inr es \<Rightarrow> Inr (List.map_filter (list_dir_info J baseDir f) es))"

definition TotalSize :: "path \<Rightarrow> fs \<Rightarrow> hist_error + int" where
  "TotalSize baseDir f =
     (case ReadDir baseDir f of
        Inl e \<Rightarrow> Inl (ErrHistIO e)
      | Inr es \<Rightarrow> Inr (sum_list (map (\<lambda>(name, n). case n of FileN _ \<Rightarrow> 0
                                            | DirN \<Rightarrow> size_or_0 (DirSize (Join baseDir name) f)) es)))"

fun evict_loop :: "int \<Rightarrow> int \<Rightarrow> SessionDirInfo list \<Rightarrow> fs \<Rightarrow> (hist_error + unit) \<times> fs" where
  "evict_loop currentTotal maxTotal [] f = (Inr (), f)"
| "evict_loop currentTotal maxTotal (d # ds) f =
     (if currentTotal \<le> maxTotal then (Inr (), f)
      else case RemoveAll (di_Path d) f of
             (Inl e, f') \<Rightarrow> (Inl (ErrHistIO e), f')
           | (Inr u, f') \<Rightarrow> evict_loop (currentTotal - di_Size d) maxTotal ds f')"

text \<open>The completed sessions, oldest first (\<^verbatim>\<open>sort.Slice\<close>; ties in the order of the directory).\<close>

definition evict_order :: "SessionDirInfo list \<Rightarrow> SessionDirInfo list" where
  "evict_order dirs = sort_key (\<lambda>d. the (di_EndedAt d)) (filter (\<lambda>d. di_EndedAt d \<noteq> None) dirs)"

definition EvictLRU :: "meta_json \<Rightarrow> path \<Rightarrow> int \<Rightarrow> fs \<Rightarrow> (hist_error + unit) \<times> fs" where
  "EvictLRU J baseDir maxTotal f =
     (case ListSessionDirs J baseDir f of
        Inl e \<Rightarrow> (Inl e, f)
      | Inr dirs \<Rightarrow>
          let currentTotal = sum_list (map di_Size dirs)
          in if currentTotal \<le> maxTotal then (Inr (), f)
             else evict_loop currentTotal maxTotal (evict_order dirs) f)"

section \<open>Recordings (recording/writer.go)\<close>

datatype rec_error = ErrRecordingClosed | ErrSizeLimitReached | ErrRecIO

record rec_json =
  rj_header :: "int \<Rightarrow> int \<Rightarrow> time \<Rightarrow> bytes"
  rj_event :: "duration \<Rightarrow> bytes \<Rightarrow> bytes"

record RWriter =
  rw_path :: path
  rw_startTime :: time
  rw_written :: int
  rw_maxSize :: int
  rw_closed :: bool

definition rec_NewWriter ::
  "rec_json \<Rightarrow> path \<Rightarrow> int \<Rightarrow> int \<Rightarrow> int \<Rightarrow> time \<Rightarrow> fs \<Rightarrow> (rec_error + RWriter) \<times> fs" where
  "rec_NewWriter J p cols rows maxSize now f =
     (case OpenTrunc p f of
        Inl e \<Rightarrow> (Inl ErrRecIO, f)
      | Inr f1 \<Rightarrow>
          (case file_write p (rj_header J cols rows now @ [CHR 0x0A]) f1 of
             ((n, True), f2) \<Rightarrow> (Inl ErrRecIO, f2)
           | ((n, False), f2) \<Rightarrow>
               (Inr \<lparr>rw_path = p, rw_startTime = now, rw_written = int n, rw_maxSize = maxSize, rw_closed = False\<rparr>, f2)))"

definition rec_line :: "rec_json \<Rightarrow> duration \<Rightarrow> bytes \<Rightarrow> bytes" where
  "rec_line J elapsed p = rj_event J elapsed p @ [CHR 0x0A]"

definition rec_Write :: "rec_json \<Rightarrow> time \<Rightarrow> bytes \<Rightarrow> RWriter \<times> fs \<Rightarrow> (nat \<times> rec_error option) \<times> (RWriter \<times> fs)" where
  "rec_Write J now p = (\<lambda>(w, f).
     if rw_closed w then ((0, Some ErrRecordingClosed), (w, f))
     else if rw_maxSize w > 0 \<and> rw_written w \<ge> rw_maxSize w then ((0, Some ErrSizeLimitReached), (w, f))
     else let line = rec_line J (now - rw_startTime w) p in
       if rw_maxSize w > 0 \<and> rw_written w + int (length line) > rw_maxSize w
       then ((0, Some ErrSizeLimitReached), (w\<lparr>rw_closed := True\<rparr>, f))
       else case file_write (rw_path w) line f of ((n, bad), f') \<Rightarrow>
              let w' = w\<lparr>rw_written := rw_written w + int n\<rparr>
              in if bad then ((0, Some ErrRecIO), (w', f')) else ((length p, None), (w', f')))"

definition rec_Path :: "RWriter \<Rightarrow> path" where
  "rec_Path w = rw_path w"

definition rec_Close :: "RWriter \<Rightarrow> RWriter" where
  "rec_Close w = (if rw_closed w then w else w\<lparr>rw_closed := True\<rparr>)"

section \<open>Size-capped sinks\<close>

text \<open>What the daemon relies on when it gives a writer a size limit.\<close>

locale capped_sink =
  fixes wr :: "'p \<Rightarrow> 's \<Rightarrow> 's" and size_of :: "'s \<Rightarrow> int" and cap :: "'s \<Rightarrow> int"
  assumes cap_wr: "cap (wr p s) = cap s"
    and size_mono: "size_of s \<le> size_of (wr p s)"
    and size_cap: "0 < cap s \<Longrightarrow> size_of (wr p s) \<le> max (cap s) (size_of s)"
begin

lemma cap_fold: "cap (fold wr ps s) = cap s"
  by (induction ps arbitrary: s) (auto simp: cap_wr)

lemma size_fold_mono: "size_of s \<le> size_of (fold wr ps s)"
  by (induction ps arbitrary: s) (auto intro: order_trans [OF size_mono])

lemma size_fold_cap: "0 < cap s \<Longrightarrow> size_of (fold wr ps s) \<le> max (cap s) (size_of s)"
proof (induction ps arbitrary: s)
  case (Cons p ps)
  then have "size_of (fold wr ps (wr p s)) \<le> max (cap s) (size_of (wr p s))"
    using Cons.IH [of "wr p s"] by (simp add: cap_wr)
  with size_cap [OF Cons.prems, of p] show ?case by simp
qed simp

end

definition hist_wr :: "bytes \<Rightarrow> HWriter \<times> fs \<Rightarrow> HWriter \<times> fs" where
  "hist_wr p st = snd (hist_Write p st)"

definition rec_wr :: "rec_json \<Rightarrow> time \<times> bytes \<Rightarrow> RWriter \<times> fs \<Rightarrow> RWriter \<times> fs" where
  "rec_wr J = (\<lambda>(now, p) st. snd (rec_Write J now p st))"

interpretation scrollback: capped_sink hist_wr "\<lambda>st. hw_written (fst st)" "\<lambda>st. hw_maxSize (fst st)"
proof unfold_locales
  fix p :: bytes and st :: "HWriter \<times> fs"
  obtain w f where st: "st = (w, f)" by (cases st)
  let ?d = "if hw_maxSize w > 0 \<and> int (length p) > hw_maxSize w - hw_written w
            then take (nat (hw_maxSize w - hw_written w)) p else p"
  obtain n bad f' where fw: "file_write (hw_path w) ?d f = ((n, bad), f')" by (metis prod.collapse)
  with file_write_le [of "hw_path w" ?d f] have n: "n \<le> length ?d" by simp
  show "hw_maxSize (fst (hist_wr p st)) = hw_maxSize (fst st)"
    and "hw_written (fst st) \<le> hw_written (fst (hist_wr p st))"
    using fw by (auto simp: hist_wr_def hist_Write_def st Let_def split: prod.splits)
  show "hw_written (fst (hist_wr p st)) \<le> max (hw_maxSize (fst st)) (hw_written (fst st))"
    if "0 < hw_maxSize (fst st)"
    using fw n that
    by (auto simp: hist_wr_def hist_Write_def st Let_def split: prod.splits if_splits)
qed

interpretation recording: capped_sink "rec_wr J" "\<lambda>st. rw_written (fst st)" "\<lambda>st. rw_maxSize (fst st)"
proof unfold_locales
  fix e :: "time \<times> bytes" and st :: "RWriter \<times> fs"
  obtain w f where st: "st = (w, f)" by (cases st)
  obtain now p where e: "e = (now, p)" by (cases e)
  let ?l = "rec_line J (now - rw_startTime w) p"
  obtain n bad f' where fw: "file_write (rw_path w) ?l f = ((n, bad), f')" by (metis prod.collapse)
  with file_write_le [of "rw_path w" ?l f] have n: "n \<le> length ?l" by simp
  show "rw_maxSize (fst (rec_wr J e st)) = rw_maxSize (fst st)"
    and "rw_written (fst st) \<le> rw_written (fst (rec_wr J e st))"
    using fw by (auto simp: rec_wr_def rec_Write_def st e Let_def split: prod.splits)
  show "rw_written (fst (rec_wr J e st)) \<le> max (rw_maxSize (fst st)) (rw_written (fst st))"
    if "0 < rw_maxSize (fst st)"
    using fw n that by (auto simp: rec_wr_def rec_Write_def st e Let_def split: prod.splits)
qed

section \<open>What ends up on disk\<close>

text \<open>A writer whose file holds \<open>c\<close>, all of it counted, on a disk with room.\<close>

definition hist_holds :: "HWriter \<times> fs \<Rightarrow> bytes \<Rightarrow> bool" where
  "hist_holds = (\<lambda>(w, f) c. fs_get f (hw_path w) = Some (FileN c) \<and> gm_get (fs_room f) (hw_path w) = None
     \<and> hw_written w = int (length c) \<and> \<not> hw_closed w)"

definition hist_cut :: "int \<Rightarrow> bytes \<Rightarrow> bytes" where
  "hist_cut m c = (if m > 0 then take (nat m) c else c)"

lemma file_write_room:
  "fs_get f p = Some (FileN c) \<Longrightarrow> gm_get (fs_room f) p = None \<Longrightarrow>
   file_write p d f = ((length d, False), fs_put p (FileN (c @ d)) f)"
  by (simp add: file_write_def)

lemma hist_wr_holds:
  assumes "hist_holds (w, f) (hist_cut (hw_maxSize w) c)"
  shows "hist_holds (hist_wr p (w, f)) (hist_cut (hw_maxSize w) (c @ p)) \<and> hw_path (fst (hist_wr p (w, f))) = hw_path w"
proof -
  let ?m = "hw_maxSize w" and ?c = "hist_cut (hw_maxSize w) c"
  from assms have h: "fs_get f (hw_path w) = Some (FileN ?c)" "gm_get (fs_room f) (hw_path w) = None"
    "hw_written w = int (length ?c)" "\<not> hw_closed w"
    by (auto simp: hist_holds_def)
  note fw = file_write_room [OF h(1,2)]
  show ?thesis
  proof (cases "?m > 0 \<and> ?m - hw_written w \<le> 0")
    case True
    then have "nat ?m \<le> length c" using h(3) by (auto simp: hist_cut_def split: if_splits)
    then have "hist_cut ?m (c @ p) = ?c" using True by (simp add: hist_cut_def)
    with True h show ?thesis by (simp add: hist_wr_def hist_Write_def Let_def hist_holds_def)
  next
    case False
    let ?d = "if ?m > 0 \<and> int (length p) > ?m - hw_written w then take (nat (?m - hw_written w)) p else p"
    have c: "?c = c" using False h(3) by (auto simp: hist_cut_def)
    have "hist_cut ?m (c @ p) = ?c @ ?d"
      using False h(3) by (auto simp: c hist_cut_def nat_diff_distrib)
    with False h fw show ?thesis
      by (auto simp: hist_wr_def hist_Write_def Let_def hist_holds_def)
  qed
qed

lemma hist_writes_hold:
  "hist_holds st (hist_cut (hw_maxSize (fst st)) c) \<Longrightarrow>
   hist_holds (fold hist_wr ps st) (hist_cut (hw_maxSize (fst st)) (c @ concat ps))
   \<and> hw_path (fst (fold hist_wr ps st)) = hw_path (fst st)"
proof (induction ps arbitrary: st c)
  case (Cons p ps)
  obtain w f where st: "st = (w, f)" by (cases st)
  from hist_wr_holds [of w f c p] Cons.prems Cons.IH [of "hist_wr p st" "c @ p"] scrollback.cap_wr [of p st]
  show ?case by (simp add: st)
qed simp

text \<open>A recording: the header and the lines of the events accepted so far.\<close>

definition rec_holds :: "RWriter \<times> fs \<Rightarrow> bytes \<Rightarrow> bool" where
  "rec_holds = (\<lambda>(w, f) c. fs_get f (rw_path w) = Some (FileN c) \<and> gm_get (fs_room f) (rw_path w) = None
     \<and> rw_written w = int (length c))"

definition rec_full :: "RWriter \<Rightarrow> bool" where
  "rec_full w \<longleftrightarrow> rw_closed w \<or> (rw_maxSize w > 0 \<and> rw_written w \<ge> rw_maxSize w)"

lemma rec_full_stays:
  assumes "rec_full (fst st)"
  shows "rec_wr J e st = st"
  using assms by (cases st; cases e) (auto simp: rec_full_def rec_wr_def rec_Write_def)

lemma rec_full_fold: "rec_full (fst st) \<Longrightarrow> fold (rec_wr J) es st = st"
  by (induction es) (auto simp: rec_full_stays)

definition rec_event :: "rec_json \<Rightarrow> time \<Rightarrow> time \<times> bytes \<Rightarrow> bytes" where
  "rec_event J start = (\<lambda>(now, p). rec_line J (now - start) p)"

text \<open>One event: its line is appended whole and reported as written, or the recording is full for good.\<close>

lemma rec_wr_holds:
  assumes "rec_holds (w, f) c"
  shows "rec_full (fst (rec_wr J e (w, f))) \<and> rec_holds (rec_wr J e (w, f)) c \<or>
         rec_holds (rec_wr J e (w, f)) (c @ rec_event J (rw_startTime w) e) \<and>
         rw_startTime (fst (rec_wr J e (w, f))) = rw_startTime w"
proof -
  from assms have h: "fs_get f (rw_path w) = Some (FileN c)" "gm_get (fs_room f) (rw_path w) = None"
    "rw_written w = int (length c)"
    by (auto simp: rec_holds_def)
  obtain now p where e: "e = (now, p)" by (cases e)
  from file_write_room [OF h(1,2)] h assms show ?thesis
    by (auto simp: e rec_wr_def rec_Write_def Let_def rec_full_def rec_holds_def rec_event_def)
qed

lemma rec_run_holds:
  "rec_holds st c \<Longrightarrow> \<exists>k \<le> length es.
     rec_holds (fold (rec_wr J) es st) (c @ concat (map (rec_event J (rw_startTime (fst st))) (take k es)))
     \<and> (k < length es \<longrightarrow> rec_full (fst (fold (rec_wr J) es st)))"
proof (induction es arbitrary: st c)
  case (Cons e es)
  obtain w f where st: "st = (w, f)" by (cases st)
  let ?st1 = "rec_wr J e st"
  from rec_wr_holds [of w f c J e] Cons.prems
  consider (full) "rec_full (fst ?st1)" "rec_holds ?st1 c"
    | (more) "rec_holds ?st1 (c @ rec_event J (rw_startTime w) e)" "rw_startTime (fst ?st1) = rw_startTime w"
    by (auto simp: st)
  then show ?case
  proof cases
    case full
    then show ?thesis by (intro exI [of _ 0]) (simp add: rec_full_fold)
  next
    case more
    from Cons.IH [OF more(1)] obtain k where "k \<le> length es"
      "rec_holds (fold (rec_wr J) es ?st1)
         ((c @ rec_event J (rw_startTime w) e) @ concat (map (rec_event J (rw_startTime (fst ?st1))) (take k es)))"
      "k < length es \<longrightarrow> rec_full (fst (fold (rec_wr J) es ?st1))"
      by blast
    with more(2) show ?thesis by (intro exI [of _ "Suc k"]) (simp add: st)
  qed
qed simp

section \<open>Eviction\<close>

lemma evict_loop_spec:
  assumes "evict_loop cur mx ds f = (Inr (), f')" and "gm_ok (fs_nodes f)"
  shows "\<exists>k \<le> length ds. (\<forall>q. fs_get f' q = (if \<exists>d \<in> set (take k ds). prefix (di_Path d) q then None else fs_get f q))
     \<and> (cur - sum_list (map di_Size (take k ds)) \<le> mx \<or> k = length ds)
     \<and> (\<forall>j < k. mx < cur - sum_list (map di_Size (take j ds)))"
  using assms
proof (induction cur mx ds f rule: evict_loop.induct)
  case (2 cur mx d ds f)
  show ?case
  proof (cases "cur \<le> mx")
    case True
    with 2 show ?thesis by (intro exI [of _ 0]) simp
  next
    case False
    then obtain f1 where r: "RemoveAll (di_Path d) f = (Inr (), f1)"
      and l: "evict_loop (cur - di_Size d) mx ds f1 = (Inr (), f')"
      using 2(2) by (auto split: prod.splits sum.splits)
    note rm = RemoveAll_get [OF r 2(3)]
    from 2(1) [OF False r [symmetric] refl l rm(2)] obtain k where k: "k \<le> length ds"
      "\<forall>q. fs_get f' q = (if \<exists>d \<in> set (take k ds). prefix (di_Path d) q then None else fs_get f1 q)"
      "cur - di_Size d - sum_list (map di_Size (take k ds)) \<le> mx \<or> k = length ds"
      "\<forall>j < k. mx < cur - di_Size d - sum_list (map di_Size (take j ds))"
      by blast
    have "mx < cur - sum_list (map di_Size (take j (d # ds)))" if "j < Suc k" for j
      using that k(4) False by (cases j) (auto simp: algebra_simps)
    with k rm(1) show ?thesis
      by (intro exI [of _ "Suc k"]) (auto simp: algebra_simps)
  qed
qed simp

lemma evict_order_ended: "d \<in> set (evict_order dirs) \<Longrightarrow> di_EndedAt d \<noteq> None"
  by (auto simp: evict_order_def)

lemma evict_order_sorted: "sorted (map (\<lambda>d. the (di_EndedAt d)) (evict_order dirs))"
  by (simp add: evict_order_def)

section \<open>Sizes\<close>

definition graphic :: "byte \<Rightarrow> bool" where
  "graphic c \<longleftrightarrow> 33 \<le> (of_char c :: nat) \<and> (of_char c :: nat) \<le> 126"

lemma trim_left_graphic:
  assumes "list_all graphic s" and "list_all (\<lambda>w. w \<noteq> [] \<and> \<not> graphic (hd w)) ws"
  shows "trim_left ws s = s"
proof -
  have "find (\<lambda>w. w \<noteq> [] \<and> prefix w s) ws = None"
    using assms by (auto simp: find_None_iff list_all_iff prefix_def neq_Nil_conv dest!: bspec)
  then show ?thesis by (simp add: trim_left.simps)
qed

lemma TrimSpace_graphic: "list_all graphic s \<Longrightarrow> TrimSpace s = s"
  unfolding TrimSpace_def
  by (subst (1 2) trim_left_graphic) (simp_all add: white_space_def graphic_def)

lemma digits_graphic: "list_all graphic (nat_digits n)"
proof -
  have "graphic c" if "c \<in> set (nat_digits n)" for c
    using nat_digits_digit [OF that] by (auto simp: digit_val_def Let_def graphic_def split: if_splits)
  then show ?thesis by (simp add: list_all_iff)
qed

lemma ToUpper_digits: "ToUpper (nat_digits n) = nat_digits n"
proof -
  have "upper_byte c = c" if "c \<in> set (nat_digits n)" for c
    using nat_digits_digit [OF that] by (auto simp: digit_val_def Let_def upper_byte_def split: if_splits)
  then show ?thesis by (simp add: ToUpper_def map_idI)
qed

lemma ParseInt_digits: "n < 2 ^ 63 \<Longrightarrow> ParseInt (nat_digits n) = (int n, None)"
  using nat_digits_hd [of n] by (simp add: ParseInt_def Let_def parse_u64_nat_digits)

lemma ParseSize_unit:
  assumes "n < 2 ^ 63" and "u = ''GB'' \<and> m = gigabyte \<or> u = ''MB'' \<and> m = megabyte \<or> u = ''KB'' \<and> m = kilobyte"
  shows "ParseSize (nat_digits n @ u) = Inr (wrap64 (int n * m))"
proof -
  have "list_all graphic (nat_digits n @ u)" using assms(2) digits_graphic by (auto simp: graphic_def)
  then have "ToUpper (TrimSpace (nat_digits n @ u)) = nat_digits n @ u"
    using assms(2) ToUpper_digits by (auto simp: TrimSpace_graphic) (simp_all add: ToUpper_def upper_byte_def Let_def)
  moreover have "size_suffix (nat_digits n @ u) = (m, nat_digits n)"
    using assms(2) by (auto simp: size_suffix_def suffix_def)
  ultimately show ?thesis using ParseInt_digits [OF assms(1)] by (simp add: ParseSize_def)
qed

lemma ParseSize_plain:
  assumes "n < 2 ^ 63" shows "ParseSize (nat_digits n) = Inr (wrap64 (int n))"
proof -
  have up: "ToUpper (TrimSpace (nat_digits n)) = nat_digits n"
    using digits_graphic [of n] by (simp add: TrimSpace_graphic ToUpper_digits)
  have "\<not> suffix [a, CHR ''B''] (nat_digits n)" for a
  proof
    assume "suffix [a, CHR ''B''] (nat_digits n)"
    then have "CHR ''B'' \<in> set (nat_digits n)" by (auto simp: suffix_def)
    from nat_digits_digit [OF this] show False by (simp add: digit_val_def Let_def)
  qed
  then have "size_suffix (nat_digits n) = (1, nat_digits n)" by (simp add: size_suffix_def)
  with up ParseInt_digits [OF assms] nat_digits_hd [of n] show ?thesis by (simp add: ParseSize_def)
qed

section \<open>Properties\<close>

text \<open>The scrollback file of a session holds exactly the first \<^verbatim>\<open>maxSize\<close> bytes of everything written (all
of it when there is no limit), in order, whatever the sizes of the writes; the writer's count is
the size of the file.\<close>

lemma scrollback_holds_prefix:
  assumes "hist_NewWriter p m f = Inr st" and "gm_get (fs_room f) p = None"
  shows "case fold hist_wr ps st of (w, f') \<Rightarrow>
     ReadFile p f' = Inr (if m > 0 then take (nat m) (concat ps) else concat ps) \<and>
     hist_Written w = int (length (if m > 0 then take (nat m) (concat ps) else concat ps))"
proof -
  let ?w = "\<lparr>hw_path = p, hw_written = 0, hw_maxSize = m, hw_closed = False\<rparr>"
  have st: "st = (?w, fs_put p (FileN []) f)" and deny: "p \<notin> set (fs_deny f)"
    using assms(1) by (auto simp: hist_NewWriter_def OpenTrunc_def can_create_def split: sum.splits if_splits)
  have "hist_holds st (hist_cut (hw_maxSize (fst st)) [])"
    using st assms(2) by (simp add: hist_holds_def hist_cut_def)
  note h = hist_writes_hold [OF this, of ps]
  obtain w' f' where w': "fold hist_wr ps st = (w', f')" by (cases "fold hist_wr ps st")
  have "fs_deny (snd (hist_wr d z)) = fs_deny (snd z)" for d z
    by (cases z) (auto simp: hist_wr_def hist_Write_def Let_def case_prod_beta)
  then have "fs_deny (snd (fold hist_wr ps z)) = fs_deny (snd z)" for z
    by (induction ps arbitrary: z) auto
  from this [of st] w' st have "fs_deny f' = fs_deny f" by simp
  with h w' st deny show ?thesis by (auto simp: hist_holds_def hist_cut_def ReadFile_def hist_Written_def)
qed

definition empty_fs :: fs where
  "empty_fs = \<lparr>fs_nodes = [], fs_deny = [], fs_room = []\<rparr>"

text \<open>A recording file is always its header line followed by the complete lines of the first \<open>k\<close> output
events, never a torn line; once an event is refused for size every later one is refused too, and
with a limit the file never grows past the limit (or past its header, if that alone exceeds it).\<close>

lemma recording_is_event_prefix:
  assumes "rec_NewWriter J p cols rows m now f = (Inr w, f1)" and "gm_get (fs_room f) p = None"
  shows "\<exists>k \<le> length es.
     (case fold (rec_wr J) es (w, f1) of (w', f') \<Rightarrow>
        fs_get f' p = Some (FileN (rj_header J cols rows now @ [CHR 0x0A] @ concat (map (rec_event J now) (take k es)))) \<and>
        (k = length es \<or> rec_full w') \<and>
        (m \<le> 0 \<or> rw_written w' \<le> max m (int (length (rj_header J cols rows now)) + 1)))"
proof -
  let ?h = "rj_header J cols rows now @ [CHR 0x0A]"
  have w: "rw_path w = p" "rw_startTime w = now" "rw_written w = int (length ?h)" "rw_maxSize w = m"
    "fs_get f1 p = Some (FileN ?h)" "gm_get (fs_room f1) p = None"
    using assms by (auto simp: rec_NewWriter_def OpenTrunc_def file_write_room split: sum.splits if_splits bool.splits)
  have "rec_holds (w, f1) ?h" using w by (simp add: rec_holds_def)
  from rec_run_holds [OF this, of es J] obtain k where k: "k \<le> length es"
    "rec_holds (fold (rec_wr J) es (w, f1)) (?h @ concat (map (rec_event J now) (take k es)))"
    "k < length es \<longrightarrow> rec_full (fst (fold (rec_wr J) es (w, f1)))"
    using w by auto
  have path: "rw_path (fst (rec_wr J e z)) = rw_path (fst z)" for e z
    by (cases z; cases e) (auto simp: rec_wr_def rec_Write_def Let_def split: prod.splits)
  have "rw_path (fst (fold (rec_wr J) es z)) = rw_path (fst z)" for z
    by (induction es arbitrary: z) (auto simp: path)
  then have p: "rw_path (fst (fold (rec_wr J) es (w, f1))) = p" using w by simp
  have cap: "m \<le> 0 \<or> rw_written (fst (fold (rec_wr J) es (w, f1))) \<le> max m (int (length (rj_header J cols rows now)) + 1)"
    using recording.size_fold_cap [of "(w, f1)" J es] w by (cases "0 < m") (simp_all add: add.commute)
  show ?thesis
    using k p cap by (intro exI [of _ k]) (auto simp: rec_holds_def split: prod.splits)
qed

text \<open>Eviction removes a shortest sufficient sequence of the oldest completed sessions: exactly the
directories of the first \<open>k\<close> completed sessions by end time disappear, with the last of them the
total was still over the limit, and afterwards it is within the limit or nothing completed is
left. Running sessions, and everything outside the victims, stay untouched.\<close>

lemma history_evicts_oldest_completed:
  assumes "ListSessionDirs J base f = Inr dirs" and "EvictLRU J base mx f = (Inr (), f')" and "gm_ok (fs_nodes f)"
  shows "\<exists>k \<le> length (evict_order dirs). let victims = take k (evict_order dirs); total = sum_list (map di_Size dirs) in
     (\<forall>q. fs_get f' q = (if \<exists>d \<in> set victims. prefix (di_Path d) q then None else fs_get f q)) \<and>
     list_all (\<lambda>d. di_EndedAt d \<noteq> None) victims \<and> sorted (map (\<lambda>d. the (di_EndedAt d)) (evict_order dirs)) \<and>
     (total - sum_list (map di_Size victims) \<le> mx \<or> k = length (evict_order dirs)) \<and>
     (\<forall>j < k. mx < total - sum_list (map di_Size (take j (evict_order dirs))))"
proof (cases "sum_list (map di_Size dirs) \<le> mx")
  case True
  then have "f' = f" using assms by (simp add: EvictLRU_def)
  with True show ?thesis by (intro exI [of _ 0]) (simp add: evict_order_sorted)
next
  case False
  then have "evict_loop (sum_list (map di_Size dirs)) mx (evict_order dirs) f = (Inr (), f')"
    using assms(1,2) by (simp add: EvictLRU_def Let_def)
  from evict_loop_spec [OF this assms(3)] obtain k where k: "k \<le> length (evict_order dirs)"
    "\<forall>q. fs_get f' q = (if \<exists>d \<in> set (take k (evict_order dirs)). prefix (di_Path d) q then None else fs_get f q)"
    "sum_list (map di_Size dirs) - sum_list (map di_Size (take k (evict_order dirs))) \<le> mx \<or> k = length (evict_order dirs)"
    "\<forall>j < k. mx < sum_list (map di_Size dirs) - sum_list (map di_Size (take j (evict_order dirs)))"
    by blast
  moreover have "list_all (\<lambda>d. di_EndedAt d \<noteq> None) (take k (evict_order dirs))"
    using evict_order_ended by (auto simp: list_all_iff dest: in_set_takeD)
  ultimately show ?thesis using evict_order_sorted unfolding Let_def by blast
qed

text \<open>A size with a unit parses to the number times the unit modulo 64 bits: the product is not checked,
so from \<^verbatim>\<open>8589934592GB\<close> on the result wraps around (there to a negative number, which the writers
treat as no limit).\<close>

lemma parse_size_wraps:
  assumes "n < 2 ^ 63"
  shows "ParseSize (nat_digits n @ ''GB'') = Inr (wrap64 (int n * gigabyte)) \<and>
    (ParseSize (nat_digits n @ ''GB'') = Inr (int n * gigabyte) \<longleftrightarrow> n < 2 ^ 33)"
proof -
  have p: "ParseSize (nat_digits n @ ''GB'') = Inr (wrap64 (int n * gigabyte))"
    using assms by (rule ParseSize_unit) simp
  have "wrap64 (int n * gigabyte) = int n * gigabyte \<longleftrightarrow> in_int64 (int n * gigabyte)"
    using wrap64_id wrap64_range by metis
  also have "\<dots> \<longleftrightarrow> n < 2 ^ 33" by (auto simp: in_int64_def gigabyte_def)
  finally show ?thesis using p by simp
qed

end
