(* ===== verification/Commands.thy ===== *)
theory Commands
  imports History CmdLifecycle
begin

text \<open>
  Persistent command history (\<^verbatim>\<open>internal/platform/commands\<close>: entity.go, reader.go, writer.go), the daemon's
  repository on top of it (\<^verbatim>\<open>internal/daemon/cmdrepository.go\<close>) and what the daemon does with the files at
  start (\<^verbatim>\<open>internal/daemon/reconcile.go\<close>). The JSON text of a commands file is a parameter (the functions of
  \<open>cmd_json\<close>); the writer's goroutine is a loop whose arms are separate steps.
\<close>

section \<open>Files (entity.go, reader.go)\<close>

definition CurrentVersion :: int where "CurrentVersion = 1"

record CmdFile =
  cf_Version :: int
  cf_SessionID :: bytes
  cf_SavedAt :: time
  cf_History :: "Command list"
  cf_InFlight :: "Command option"

definition zero_file :: CmdFile where
  "zero_file = \<lparr>cf_Version = 0, cf_SessionID = [], cf_SavedAt = 0, cf_History = [], cf_InFlight = None\<rparr>"

record cmd_json =
  cj_enc :: "CmdFile \<Rightarrow> bytes"
  cj_dec :: "bytes \<Rightarrow> CmdFile option"

datatype cmd_error =
  ErrUnsupportedVersion | ErrCmdWriterClosed | ErrCmdIO io_error | ErrCmdParse | ErrEmptyPath | ErrEmptySession

definition Load :: "cmd_json \<Rightarrow> path \<Rightarrow> fs \<Rightarrow> CmdFile \<times> cmd_error option" where
  "Load J p f =
     (case ReadFile p f of
        Inl ErrNotExist \<Rightarrow> (zero_file, None)
      | Inl e \<Rightarrow> (zero_file, Some (ErrCmdIO e))
      | Inr data \<Rightarrow>
          (case cj_dec J data of
             None \<Rightarrow> (zero_file, Some ErrCmdParse)
           | Some file \<Rightarrow>
               if cf_Version file > CurrentVersion
               then (zero_file\<lparr>cf_Version := cf_Version file, cf_SessionID := cf_SessionID file\<rparr>,
                     Some ErrUnsupportedVersion)
               else (file, None)))"

section \<open>The debounced writer (writer.go)\<close>

definition defaultDebounceInterval :: duration where "defaultDebounceInterval = 200 * 1000000"

record CWriter =
  cw_path :: path
  cw_sessID :: bytes
  cw_debounce :: duration
  cw_pending :: SessionState
  cw_hasState :: bool
  cw_closed :: bool
  cw_notify :: bool
  cw_closeCh :: bool
  cw_done :: bool
  cw_timer :: bool

definition WithDebounceInterval :: "duration \<Rightarrow> CWriter \<Rightarrow> CWriter" where
  "WithDebounceInterval d w = (if d > 0 then w\<lparr>cw_debounce := d\<rparr> else w)"

text \<open>The empty component list stands for the empty path string.\<close>

definition cmd_NewWriter :: "path \<Rightarrow> bytes \<Rightarrow> (CWriter \<Rightarrow> CWriter) list \<Rightarrow> cmd_error + CWriter" where
  "cmd_NewWriter p sid opts =
     (if p = [] then Inl ErrEmptyPath
      else if sid = [] then Inl ErrEmptySession
      else Inr (fold (\<lambda>o' w. o' w) opts
             \<lparr>cw_path = p, cw_sessID = sid, cw_debounce = defaultDebounceInterval,
              cw_pending = \<lparr>History = [], InFlight = None\<rparr>, cw_hasState = False, cw_closed = False,
              cw_notify = False, cw_closeCh = False, cw_done = False, cw_timer = False\<rparr>))"

definition Update :: "SessionState \<Rightarrow> CWriter \<Rightarrow> CWriter" where
  "Update st w =
     (if cw_closed w then w else w\<lparr>cw_pending := st, cw_hasState := True, cw_notify := True\<rparr>)"

definition file_of :: "bytes \<Rightarrow> time \<Rightarrow> SessionState \<Rightarrow> CmdFile" where
  "file_of sid now st =
     \<lparr>cf_Version = CurrentVersion, cf_SessionID = sid, cf_SavedAt = now, cf_History = SessionState.History st,
      cf_InFlight = InFlight st\<rparr>"

definition tmp_path :: "path \<Rightarrow> path" where
  "tmp_path p = butlast p @ [last p @ ''.tmp'']"

definition flushOnce :: "cmd_json \<Rightarrow> time \<Rightarrow> CWriter \<Rightarrow> fs \<Rightarrow> (cmd_error + unit) \<times> fs" where
  "flushOnce J now w f =
     (if \<not> cw_hasState w then (Inr (), f)
      else let data = cj_enc J (file_of (cw_sessID w) now (cw_pending w)); tmp = tmp_path (cw_path w) in
        case WriteFile tmp data f of
          (Inl e, f1) \<Rightarrow> (Inl (ErrCmdIO e), f1)
        | (Inr u, f1) \<Rightarrow>
            (case Rename tmp (cw_path w) f1 of
               (Inl e, f2) \<Rightarrow> (Inl (ErrCmdIO e), Remove tmp f2)
             | (Inr u, f2) \<Rightarrow> (Inr (), f2)))"

text \<open>The arms of the loop in \<^verbatim>\<open>run\<close>; \<open>None\<close> when an arm is not ready. A flush request returns its result.\<close>

datatype run_arm = RunNotify | RunTimer | RunFlush | RunClose

definition run_step ::
  "cmd_json \<Rightarrow> time \<Rightarrow> run_arm \<Rightarrow> CWriter \<Rightarrow> fs \<Rightarrow> ((cmd_error + unit) \<times> CWriter \<times> fs) option" where
  "run_step J now arm w f =
     (if cw_done w then None
      else case arm of
        RunNotify \<Rightarrow> if cw_notify w then Some (Inr (), w\<lparr>cw_notify := False, cw_timer := True\<rparr>, f) else None
      | RunTimer \<Rightarrow> if cw_timer w then (case flushOnce J now w f of (r, f') \<Rightarrow> Some (Inr (), w\<lparr>cw_timer := False\<rparr>, f'))
                    else None
      | RunFlush \<Rightarrow> (case flushOnce J now w f of (r, f') \<Rightarrow> Some (r, w\<lparr>cw_timer := False\<rparr>, f'))
      | RunClose \<Rightarrow> if cw_closeCh w
                    then (case flushOnce J now w f of (r, f') \<Rightarrow> Some (Inr (), w\<lparr>cw_timer := False, cw_done := True\<rparr>, f'))
                    else None)"

text \<open>\<^verbatim>\<open>Flush\<close> waits for its turn in the loop or finds the loop finished.\<close>

definition cmd_Flush :: "cmd_json \<Rightarrow> time \<Rightarrow> CWriter \<Rightarrow> fs \<Rightarrow> (cmd_error + unit) \<times> CWriter \<times> fs" where
  "cmd_Flush J now w f =
     (case run_step J now RunFlush w f of Some r \<Rightarrow> r | None \<Rightarrow> (Inl ErrCmdWriterClosed, w, f))"

definition close_request :: "CWriter \<Rightarrow> CWriter" where
  "close_request w = (if cw_closed w then w else w\<lparr>cw_closed := True, cw_closeCh := True\<rparr>)"

text \<open>\<^verbatim>\<open>Close\<close> when no other arm of the loop runs in between.\<close>

definition cmd_Close :: "cmd_json \<Rightarrow> time \<Rightarrow> CWriter \<Rightarrow> fs \<Rightarrow> CWriter \<times> fs" where
  "cmd_Close J now w f =
     (if cw_closed w then (w, f)
      else case run_step J now RunClose (close_request w) f of Some (r, w', f') \<Rightarrow> (w', f') | None \<Rightarrow> (close_request w, f))"

section \<open>The repository (cmdrepository.go)\<close>

record cmdRepository =
  cr_writers :: "(bytes, CWriter) gomap"
  cr_enabled :: bool

definition newCmdRepository :: "bool \<Rightarrow> cmdRepository" where
  "newCmdRepository coldRestoreEnabled = \<lparr>cr_writers = [], cr_enabled = coldRestoreEnabled\<rparr>"

definition repo_Open :: "bytes \<Rightarrow> path \<Rightarrow> cmdRepository \<Rightarrow> (cmd_error + unit) \<times> cmdRepository" where
  "repo_Open sid p r =
     (if \<not> cr_enabled r then (Inr (), r)
      else case gm_get (cr_writers r) sid of
             Some _ \<Rightarrow> (Inr (), r)
           | None \<Rightarrow>
               (case cmd_NewWriter p sid [] of
                  Inl e \<Rightarrow> (Inl e, r)
                | Inr w \<Rightarrow> (Inr (), r\<lparr>cr_writers := gm_put sid w (cr_writers r)\<rparr>)))"

definition repo_Close :: "cmd_json \<Rightarrow> time \<Rightarrow> bytes \<Rightarrow> cmdRepository \<Rightarrow> fs \<Rightarrow> cmdRepository \<times> fs" where
  "repo_Close J now sid r f =
     (case gm_get (cr_writers r) sid of
        None \<Rightarrow> (r, f)
      | Some w \<Rightarrow> (r\<lparr>cr_writers := gm_del sid (cr_writers r)\<rparr>, snd (cmd_Close J now w f)))"

definition repo_CloseAll :: "cmd_json \<Rightarrow> time \<Rightarrow> cmdRepository \<Rightarrow> fs \<Rightarrow> cmdRepository \<times> fs" where
  "repo_CloseAll J now r f =
     (r\<lparr>cr_writers := []\<rparr>, fold (\<lambda>(sid, w) f. snd (cmd_Close J now w f)) (cr_writers r) f)"

definition repo_Save :: "bytes \<Rightarrow> SessionState \<Rightarrow> cmdRepository \<Rightarrow> cmdRepository" where
  "repo_Save sid st r =
     (if \<not> cr_enabled r then r
      else case gm_get (cr_writers r) sid of
             None \<Rightarrow> r
           | Some w \<Rightarrow> r\<lparr>cr_writers := gm_put sid (Update st w) (cr_writers r)\<rparr>)"

section \<open>Start-up (reconcile.go)\<close>

fun reconcile_loop :: "meta_json \<Rightarrow> (nat \<Rightarrow> time) \<Rightarrow> SessionDirInfo list \<Rightarrow> nat \<Rightarrow> fs \<Rightarrow> nat \<times> fs" where
  "reconcile_loop J now [] n f = (n, f)"
| "reconcile_loop J now (d # ds) n f =
     (if di_EndedAt d \<noteq> None then reconcile_loop J now ds n f
      else case UpdateMetadataExit J (di_Path d) (now n) (-1) f of
             (Inl e, f') \<Rightarrow> reconcile_loop J now ds n f'
           | (Inr u, f') \<Rightarrow> reconcile_loop J now ds (Suc n) f')"

definition ReconcileOrphans :: "meta_json \<Rightarrow> (nat \<Rightarrow> time) \<Rightarrow> path \<Rightarrow> fs \<Rightarrow> (hist_error + nat) \<times> fs" where
  "ReconcileOrphans J now dataDir f =
     (case ListSessionDirs J dataDir f of
        Inl e \<Rightarrow> (Inl e, f)
      | Inr dirs \<Rightarrow> (case reconcile_loop J now dirs 0 f of (n, f') \<Rightarrow> (Inr n, f')))"

text \<open>\<open>None\<close> is the service pointer nil; the outer \<open>option\<close> of the result is a panic of \<^verbatim>\<open>Restore\<close>.\<close>

definition RestoreCommandsForSession ::
  "cmd_json \<Rightarrow> path \<Rightarrow> bytes \<Rightarrow> time \<Rightarrow> fs \<Rightarrow> cl_service option \<Rightarrow> ((cmd_error + cl_error) option \<times> cl_service option) option" where
  "RestoreCommandsForSession J dataDir sid now f svc =
     (case svc of
        None \<Rightarrow> Some (None, svc)
      | Some s \<Rightarrow>
          (case Load J (Join (Join dataDir sid) ''commands.json'') f of
             (file, Some ErrUnsupportedVersion) \<Rightarrow> Some (None, svc)
           | (file, Some e) \<Rightarrow> Some (Some (Inl e), svc)
           | (file, None) \<Rightarrow>
               if cf_Version file = 0 \<and> cf_History file = [] \<and> cf_InFlight file = None then Some (None, svc)
               else (case Restore s sid \<lparr>History = cf_History file, InFlight = cf_InFlight file\<rparr> now of
                       None \<Rightarrow> None
                     | Some (Inl e) \<Rightarrow> Some (Some (Inr e), svc)
                     | Some (Inr s') \<Rightarrow> Some (None, Some s'))))"

section \<open>Flushing is atomic\<close>

lemma tmp_path_neq: "p \<noteq> [] \<Longrightarrow> tmp_path p \<noteq> p"
  unfolding tmp_path_def by (metis append_butlast_last_id append_self_conv last_snoc list.distinct(1))

lemma ReadFile_del [simp]: "q \<noteq> p \<Longrightarrow> ReadFile q (fs_del p f) = ReadFile q f"
  by (simp add: ReadFile_def)

lemma flushOnce_atomic:
  assumes "cw_path w \<noteq> []"
  shows "ReadFile (cw_path w) (snd (flushOnce J now w f)) = ReadFile (cw_path w) f \<or>
     (cw_hasState w \<and> fst (flushOnce J now w f) = Inr () \<and>
      ReadFile (cw_path w) (snd (flushOnce J now w f)) = Inr (cj_enc J (file_of (cw_sessID w) now (cw_pending w))))"
proof (cases "cw_hasState w")
  case False
  then show ?thesis by (simp add: flushOnce_def)
next
  case True
  let ?p = "cw_path w" and ?t = "tmp_path (cw_path w)"
  let ?d = "cj_enc J (file_of (cw_sessID w) now (cw_pending w))"
  have ne: "?t \<noteq> ?p" using assms by (rule tmp_path_neq)
  obtain r f1 where wf: "WriteFile ?t ?d f = (r, f1)" by fastforce
  have same: "ReadFile ?p f1 = ReadFile ?p f"
    using disk.rd_wr_other [OF ne [symmetric], of ?d f] wf by simp
  show ?thesis
  proof (cases r)
    case (Inl e)
    with True wf same show ?thesis by (simp add: flushOnce_def)
  next
    case (Inr u)
    with wf have w: "WriteFile ?t ?d f = (Inr (), f1)" by simp
    obtain r2 f2 where rn: "Rename ?t ?p f1 = (r2, f2)" by fastforce
    show ?thesis
    proof (cases r2)
      case (Inl e)
      then have "f2 = f1" using rn by (auto simp: Rename_def split: if_splits option.splits node.splits)
      with True w rn Inl same ne show ?thesis by (simp add: flushOnce_def Remove_def)
    next
      case (Inr u2)
      with rn have "Rename ?t ?p f1 = (Inr (), f2)" by simp
      from Rename_get [OF this] WriteFile_ok_get(1) [OF w, of ?t]
      have "ReadFile ?p f2 = Inr ?d" by (auto simp: ReadFile_def)
      with True w rn Inr show ?thesis by (simp add: flushOnce_def)
    qed
  qed
qed

section \<open>Runs of a writer\<close>

text \<open>
  A writer with its goroutine and its callers, under any scheduling and any behaviour of the disk
  at the paths of the writer (between two steps the disk may lose permissions or room): the
  writer, the file system and the states accepted so far.
\<close>

inductive cw_step :: "cmd_json \<Rightarrow> CWriter \<times> fs \<times> SessionState list \<Rightarrow> CWriter \<times> fs \<times> SessionState list \<Rightarrow> bool" for J where
  cws_update: "cw_step J (w, f, us) (Update st w, f, if cw_closed w then us else us @ [st])"
| cws_close: "cw_step J (w, f, us) (close_request w, f, us)"
| cws_run: "run_step J now arm w f = Some (r, w', f') \<Longrightarrow> cw_step J (w, f, us) (w', f', us)"
| cws_disk: "(\<And>d. ReadFile (cw_path w) f' = Inr d \<longleftrightarrow> ReadFile (cw_path w) f = Inr d) \<Longrightarrow> cw_step J (w, f, us) (w, f', us)"

inductive cw_reach :: "cmd_json \<Rightarrow> path \<Rightarrow> bytes \<Rightarrow> fs \<Rightarrow> CWriter \<times> fs \<times> SessionState list \<Rightarrow> bool" for J p sid f0 where
  cwr_new: "cmd_NewWriter p sid (map WithDebounceInterval ds) = Inr w \<Longrightarrow> cw_reach J p sid f0 (w, f0, [])"
| cwr_step: "cw_reach J p sid f0 c \<Longrightarrow> cw_step J c c' \<Longrightarrow> cw_reach J p sid f0 c'"

text \<open>What the file holds: what it held before, or one whole accepted state.\<close>

definition file_whole :: "cmd_json \<Rightarrow> path \<Rightarrow> bytes \<Rightarrow> fs \<Rightarrow> SessionState list \<Rightarrow> fs \<Rightarrow> bool" where
  "file_whole J p sid f0 us f \<longleftrightarrow>
     (\<forall>d. ReadFile p f = Inr d \<longrightarrow> ReadFile p f0 = Inr d \<or> (\<exists>u t. u \<in> set us \<and> d = cj_enc J (file_of sid t u)))"

definition cw_inv :: "cmd_json \<Rightarrow> path \<Rightarrow> bytes \<Rightarrow> fs \<Rightarrow> CWriter \<times> fs \<times> SessionState list \<Rightarrow> bool" where
  "cw_inv J p sid f0 = (\<lambda>(w, f, us).
     cw_path w = p \<and> cw_sessID w = sid \<and> p \<noteq> [] \<and>
     (if us = [] then \<not> cw_hasState w else cw_hasState w \<and> cw_pending w = last us) \<and>
     file_whole J p sid f0 us f)"

lemma WithDebounce_fold:
  "cw_path (fold (\<lambda>o' w. o' w) (map WithDebounceInterval ds) w) = cw_path w \<and>
   cw_sessID (fold (\<lambda>o' w. o' w) (map WithDebounceInterval ds) w) = cw_sessID w \<and>
   cw_hasState (fold (\<lambda>o' w. o' w) (map WithDebounceInterval ds) w) = cw_hasState w"
  by (induction ds arbitrary: w) (auto simp: WithDebounceInterval_def)

lemma file_whole_flush:
  assumes "file_whole J p sid f0 us f" and "cw_path w = p" "cw_sessID w = sid" "p \<noteq> []"
    and "cw_hasState w \<Longrightarrow> cw_pending w \<in> set us"
  shows "file_whole J p sid f0 us (snd (flushOnce J now w f))"
  using flushOnce_atomic [of w J now f] assms unfolding file_whole_def by (metis sum.inject(2))

lemma cw_inv_step: "cw_step J c c' \<Longrightarrow> cw_inv J p sid f0 c \<Longrightarrow> cw_inv J p sid f0 c'"
proof (induction rule: cw_step.induct)
  case (cws_update w f us st)
  then show ?case by (auto simp: cw_inv_def Update_def file_whole_def split: if_splits)
next
  case (cws_close w f us)
  then show ?case by (auto simp: cw_inv_def close_request_def split: if_splits)
next
  case (cws_run now arm w f r w' f' us)
  have "cw_hasState w \<Longrightarrow> cw_pending w \<in> set us"
    using cws_run.prems by (auto simp: cw_inv_def split: if_splits)
  then have "file_whole J p sid f0 us (snd (flushOnce J now w f))"
    using cws_run.prems by (intro file_whole_flush) (auto simp: cw_inv_def)
  with cws_run show ?case
    by (cases arm) (auto simp: cw_inv_def run_step_def split: if_splits prod.splits)
next
  case (cws_disk w f' f us)
  then show ?case by (auto simp: cw_inv_def file_whole_def)
qed

lemma cw_reach_inv: "cw_reach J p sid f0 c \<Longrightarrow> cw_inv J p sid f0 c"
proof (induction rule: cw_reach.induct)
  case (cwr_new ds w)
  then show ?case
    by (auto simp: cw_inv_def cmd_NewWriter_def WithDebounce_fold file_whole_def split: if_splits)
qed (auto intro: cw_inv_step)

section \<open>A disk that works\<close>

definition disk_ok :: "path \<Rightarrow> fs \<Rightarrow> bool" where
  "disk_ok p f \<longleftrightarrow> p \<noteq> [] \<and> can_create p f \<and> can_create (tmp_path p) f \<and> gm_get (fs_room f) (tmp_path p) = None"

lemma flushOnce_ok:
  assumes "disk_ok (cw_path w) f" and "cw_hasState w"
  shows "fst (flushOnce J now w f) = Inr () \<and>
     ReadFile (cw_path w) (snd (flushOnce J now w f)) = Inr (cj_enc J (file_of (cw_sessID w) now (cw_pending w)))"
proof -
  let ?p = "cw_path w" and ?t = "tmp_path (cw_path w)"
  let ?d = "cj_enc J (file_of (cw_sessID w) now (cw_pending w))"
  have ne: "?t \<noteq> ?p" using assms(1) by (intro tmp_path_neq) (simp add: disk_ok_def)
  have parent: "butlast ?t = butlast ?p" "?t \<noteq> []" by (simp_all add: tmp_path_def)
  have nd: "butlast ?p \<noteq> ?p" using assms(1) by (metis disk_ok_def append_butlast_last_id append_self_conv list.distinct(1))
  have bt: "butlast ?p \<noteq> ?t" by (metis parent append_butlast_last_id append_self_conv list.distinct(1))
  have w: "WriteFile ?t ?d f = (Inr (), fs_put ?t (FileN ?d) (fs_put ?t (FileN []) f))"
    using assms(1) by (simp add: WriteFile_def OpenTrunc_def disk_ok_def file_write_room [of _ _ "[]"])
  let ?f1 = "fs_put ?t (FileN ?d) (fs_put ?t (FileN []) f)"
  have "Rename ?t ?p ?f1 = (Inr (), fs_put ?p (FileN ?d) (fs_del ?t ?f1))"
    using assms(1) ne parent nd bt by (auto simp: Rename_def disk_ok_def can_create_def is_dir_def)
  with assms(2) w show ?thesis
    using assms(1) by (simp add: flushOnce_def Let_def ReadFile_def disk_ok_def can_create_def)
qed

lemma cmd_Close_persists:
  assumes "disk_ok (cw_path w) f" and "cw_hasState w" and "\<not> cw_closed w" and "\<not> cw_done w"
  shows "ReadFile (cw_path w) (snd (cmd_Close J now w f)) = Inr (cj_enc J (file_of (cw_sessID w) now (cw_pending w)))"
proof -
  let ?w = "close_request w"
  have f: "cw_path ?w = cw_path w" "cw_sessID ?w = cw_sessID w" "cw_pending ?w = cw_pending w" "cw_hasState ?w"
    "cw_closeCh ?w" "\<not> cw_done ?w"
    using assms by (auto simp: close_request_def)
  from flushOnce_ok [of ?w f J now] assms(1) f show ?thesis
    using assms(3) by (auto simp: cmd_Close_def run_step_def split: prod.splits)
qed

section \<open>Properties\<close>





end
