(* ===== verification/Transport.thy ===== *)
theory Transport
  imports Protocol Auth
begin

text \<open>
  Authenticated client connections (\<^verbatim>\<open>internal/transport\<close>: entity.go, values.go, options.go, service.go,
  heartbeat.go). What the operating system answers during a handshake (peer credentials,
  deadlines, the process table, randomness, the clock) is the record \<open>hs_env\<close>.
\<close>

section \<open>Entities (entity.go, values.go)\<close>

definition ChannelControl :: byte where "ChannelControl = CHR 0x01"
definition ChannelStream :: byte where "ChannelStream = CHR 0x02"

definition ChannelType_String :: "byte \<Rightarrow> bytes" where
  "ChannelType_String c =
     (if c = ChannelControl then ''control'' else if c = ChannelStream then ''stream'' else ''unknown'')"

datatype AutomationMode = ModeOpen | ModeSameUser | ModeChildren | ModeOther int

fun AutomationMode_String :: "AutomationMode \<Rightarrow> bytes" where
  "AutomationMode_String ModeOpen = ''open''"
| "AutomationMode_String ModeSameUser = ''same-user''"
| "AutomationMode_String ModeChildren = ''children''"
| "AutomationMode_String (ModeOther n) = ''unknown''"

datatype transport_error =
    ErrAuthFailed | ErrClientNotFound | ErrInvalidChannel | ErrDuplicateChannel | ErrServerClosed
  | ErrInvalidAutomationMode | ErrBroadcast proto_error

fun transport_error_msg :: "transport_error \<Rightarrow> bytes" where
  "transport_error_msg ErrAuthFailed = ''transport: authentication failed''"
| "transport_error_msg ErrClientNotFound = ''transport: client not found''"
| "transport_error_msg ErrInvalidChannel = ''transport: invalid channel type''"
| "transport_error_msg ErrDuplicateChannel = ''transport: duplicate channel''"
| "transport_error_msg ErrServerClosed = ''transport: server closed''"
| "transport_error_msg ErrInvalidAutomationMode = ''transport: invalid automation mode''"
| "transport_error_msg (ErrBroadcast e) = ''transport: broadcast write''"

definition ParseAutomationMode :: "bytes \<Rightarrow> transport_error + AutomationMode" where
  "ParseAutomationMode s =
     (if s = ''open'' then Inr ModeOpen else if s = ''same-user'' then Inr ModeSameUser
      else if s = ''children'' then Inr ModeChildren else Inl ErrInvalidAutomationMode)"

record PeerCredentials =
  pc_UID :: int
  pc_PID :: int

record Client =
  cl_ID :: bytes
  cl_Control :: "Conn option"
  cl_Stream :: "Conn option"
  cl_Creds :: PeerCredentials
  cl_ConnectedAt :: time
  cl_LastHeartbeatAck :: time
  cl_MissedHeartbeats :: int

record hs_env =
  he_deadline :: bool
  he_creds :: "PeerCredentials option"
  he_clear :: bool
  he_uid :: int
  he_pid :: int
  he_ppid :: "int \<Rightarrow> int option"
  he_rand :: bytes
  he_now :: time

section \<open>The server (service.go)\<close>

definition clientIDSize :: nat where "clientIDSize = 16"
definition minAuthPayloadSize :: nat where "minAuthPayloadSize = 1 + TokenSize"

record Server =
  sv_token :: bytes
  sv_clients :: "(bytes, Client) gomap"
  sv_mode :: AutomationMode
  sv_closed :: bool
  sv_listening :: bool
  sv_onClient :: bool
  sv_announced :: "bytes list"

definition WithAutomationMode :: "AutomationMode \<Rightarrow> Server \<Rightarrow> Server" where
  "WithAutomationMode mode s = s\<lparr>sv_mode := mode\<rparr>"

definition NewServer :: "bytes \<Rightarrow> (Server \<Rightarrow> Server) list \<Rightarrow> Server" where
  "NewServer token opts =
     fold (\<lambda>o' s. o' s) opts
       \<lparr>sv_token = token, sv_clients = [], sv_mode = ModeOpen, sv_closed = False, sv_listening = True,
        sv_onClient = False, sv_announced = []\<rparr>"

definition OnClient :: "Server \<Rightarrow> Server" where
  "OnClient s = s\<lparr>sv_onClient := True\<rparr>"

definition sendError :: "Conn \<Rightarrow> bytes \<Rightarrow> Conn" where
  "sendError c msg = snd (WriteFrame c \<lparr>Version = ProtocolVersion, Type = MsgError, Payload = msg\<rparr>)"

definition hex_nibble :: "nat \<Rightarrow> byte" where
  "hex_nibble n = (if n < 10 then char_of (48 + n) else char_of (87 + n))"

definition hex_encode :: "bytes \<Rightarrow> bytes" where
  "hex_encode d = concat (map (\<lambda>c. [hex_nibble (of_char c div 16), hex_nibble (of_char c mod 16)]) d)"

definition generateClientID :: "bytes \<Rightarrow> bytes option" where
  "generateClientID rnd = (if length rnd < clientIDSize then None else Some (hex_encode (take clientIDSize rnd)))"

text \<open>The walk up the process tree, at most 64 parents.\<close>

fun descend :: "(int \<Rightarrow> int option) \<Rightarrow> nat \<Rightarrow> int \<Rightarrow> int \<Rightarrow> bool" where
  "descend ppid 0 current ancestor = False"
| "descend ppid (Suc n) current ancestor =
     (case ppid current of
        None \<Rightarrow> False
      | Some p \<Rightarrow> if p \<le> 0 then False else if p = ancestor then True else descend ppid n p ancestor)"

definition isDescendant :: "(int \<Rightarrow> int option) \<Rightarrow> int \<Rightarrow> int \<Rightarrow> bool" where
  "isDescendant ppid child ancestor = descend ppid 64 child ancestor"

definition checkAutomationMode :: "hs_env \<Rightarrow> PeerCredentials \<Rightarrow> Server \<Rightarrow> transport_error + unit" where
  "checkAutomationMode env creds s =
     (case sv_mode s of
        ModeOpen \<Rightarrow> Inr ()
      | ModeSameUser \<Rightarrow> if pc_UID creds \<noteq> he_uid env mod 2 ^ 32 then Inl ErrAuthFailed else Inr ()
      | ModeChildren \<Rightarrow> if \<not> isDescendant (he_ppid env) (pc_PID creds) (he_pid env) then Inl ErrAuthFailed else Inr ()
      | ModeOther n \<Rightarrow> Inl ErrAuthFailed)"

definition registerControl :: "hs_env \<Rightarrow> Conn \<Rightarrow> PeerCredentials \<Rightarrow> Server \<Rightarrow> Conn \<times> Server" where
  "registerControl env conn creds s =
     (case generateClientID (he_rand env) of
        None \<Rightarrow> (Conn_Close (sendError conn ''internal error generating client ID''), s)
      | Some cid \<Rightarrow>
          (case WriteFrame conn \<lparr>Version = ProtocolVersion, Type = MsgOK, Payload = cid\<rparr> of
             (Some e, conn') \<Rightarrow> (Conn_Close conn', s\<lparr>sv_clients := gm_del cid (sv_clients s)\<rparr>)
           | (None, conn') \<Rightarrow>
               (conn', s\<lparr>sv_clients := gm_put cid
                          \<lparr>cl_ID = cid, cl_Control = Some conn', cl_Stream = None, cl_Creds = creds,
                           cl_ConnectedAt = he_now env, cl_LastHeartbeatAck = 0, cl_MissedHeartbeats = 0\<rparr>
                          (sv_clients s),
                        sv_announced := (if sv_onClient s then sv_announced s @ [cid] else sv_announced s)\<rparr>)))"

definition registerStream :: "Conn \<Rightarrow> bytes \<Rightarrow> Server \<Rightarrow> Conn \<times> Server" where
  "registerStream conn payload s =
     (let hdr = 1 + TokenSize in
      if length payload < hdr + 2
      then (Conn_Close (sendError conn (transport_error_msg ErrAuthFailed)), s)
      else let idLen = of_char (payload ! hdr) :: nat in
        if hdr + 1 + idLen > length payload
        then (Conn_Close (sendError conn (transport_error_msg ErrAuthFailed)), s)
        else let clientID = take idLen (drop (hdr + 1) payload) in
          case gm_get (sv_clients s) clientID of
            None \<Rightarrow> (Conn_Close (sendError conn (transport_error_msg ErrClientNotFound)), s)
          | Some c \<Rightarrow>
              if cl_Stream c \<noteq> None
              then (Conn_Close (sendError conn (transport_error_msg ErrDuplicateChannel)), s)
              else case WriteFrame conn \<lparr>Version = ProtocolVersion, Type = MsgOK, Payload = []\<rparr> of
                     (Some e, conn') \<Rightarrow>
                       (Conn_Close conn', s\<lparr>sv_clients := gm_put clientID (c\<lparr>cl_Stream := None\<rparr>) (sv_clients s)\<rparr>)
                   | (None, conn') \<Rightarrow>
                       (conn', s\<lparr>sv_clients := gm_put clientID (c\<lparr>cl_Stream := Some conn'\<rparr>) (sv_clients s)\<rparr>))"

definition refuse :: "Conn \<Rightarrow> Server \<Rightarrow> Conn \<times> Server" where
  "refuse conn s = (Conn_Close (sendError conn (transport_error_msg ErrAuthFailed)), s)"

definition handleConn :: "hs_env \<Rightarrow> Conn \<Rightarrow> Server \<Rightarrow> Conn \<times> Server" where
  "handleConn env raw s =
     (if \<not> he_deadline env then (Conn_Close raw, s)
      else case he_creds env of
        None \<Rightarrow> refuse raw s
      | Some creds \<Rightarrow>
          (case ReadFrame raw of
             (Inl e, conn) \<Rightarrow> refuse conn s
           | (Inr frame, conn) \<Rightarrow>
               if Type frame \<noteq> MsgAuth then refuse conn s
               else if length (Payload frame) < minAuthPayloadSize then refuse conn s
               else if \<not> Verify (sv_token s) (take TokenSize (drop 1 (Payload frame))) then refuse conn s
               else if checkAutomationMode env creds s \<noteq> Inr () then refuse conn s
               else if \<not> he_clear env then (Conn_Close conn, s)
               else if Payload frame ! 0 = ChannelControl then registerControl env conn creds s
               else if Payload frame ! 0 = ChannelStream then registerStream conn (Payload frame) s
               else (Conn_Close (sendError conn (transport_error_msg ErrInvalidChannel)), s)))"

definition Clients :: "Server \<Rightarrow> Client list" where
  "Clients s = map snd (sv_clients s)"

definition sv_Client :: "Server \<Rightarrow> bytes \<Rightarrow> transport_error + Client" where
  "sv_Client s cid = (case gm_get (sv_clients s) cid of None \<Rightarrow> Inl ErrClientNotFound | Some c \<Rightarrow> Inr c)"

definition close_client :: "Client \<Rightarrow> Client" where
  "close_client c = c\<lparr>cl_Control := map_option Conn_Close (cl_Control c), cl_Stream := map_option Conn_Close (cl_Stream c)\<rparr>"

text \<open>\<^verbatim>\<open>Kick\<close> returns the removed client with its connections closed.\<close>

definition Kick :: "bytes \<Rightarrow> Server \<Rightarrow> (transport_error + Client) \<times> Server" where
  "Kick cid s =
     (case gm_get (sv_clients s) cid of
        None \<Rightarrow> (Inl ErrClientNotFound, s)
      | Some c \<Rightarrow> (Inr (close_client c), s\<lparr>sv_clients := gm_del cid (sv_clients s)\<rparr>))"

definition stream_write :: "Frame \<Rightarrow> Client \<Rightarrow> proto_error option \<times> Client" where
  "stream_write f c =
     (case cl_Stream c of
        None \<Rightarrow> (None, c)
      | Some st \<Rightarrow> (case WriteFrame st f of (e, st') \<Rightarrow> (e, c\<lparr>cl_Stream := Some st'\<rparr>)))"

fun broadcast_loop :: "Frame \<Rightarrow> (bytes, Client) gomap \<Rightarrow> proto_error option \<times> (bytes, Client) gomap" where
  "broadcast_loop f [] = (None, [])"
| "broadcast_loop f ((cid, c) # cs) =
     (case stream_write f c of (e, c') \<Rightarrow>
      case broadcast_loop f cs of (first, cs') \<Rightarrow> (if e \<noteq> None then e else first, (cid, c') # cs'))"

definition Broadcast :: "Frame \<Rightarrow> Server \<Rightarrow> transport_error option \<times> Server" where
  "Broadcast f s =
     (case broadcast_loop f (sv_clients s) of (e, cs) \<Rightarrow> (map_option ErrBroadcast e, s\<lparr>sv_clients := cs\<rparr>))"

definition BroadcastTo :: "bytes \<Rightarrow> Frame \<Rightarrow> Server \<Rightarrow> transport_error option \<times> Server" where
  "BroadcastTo cid f s =
     (case gm_get (sv_clients s) cid of
        None \<Rightarrow> (Some ErrClientNotFound, s)
      | Some c \<Rightarrow>
          (case stream_write f c of
             (e, c') \<Rightarrow> (map_option ErrBroadcast e, s\<lparr>sv_clients := gm_put cid c' (sv_clients s)\<rparr>)))"

definition RemoveClient :: "bytes \<Rightarrow> Server \<Rightarrow> Server" where
  "RemoveClient cid s = s\<lparr>sv_clients := gm_del cid (sv_clients s)\<rparr>"

text \<open>\<^verbatim>\<open>Close\<close> also returns the clients it closed.\<close>

definition Server_Close :: "Server \<Rightarrow> Client list \<times> Server" where
  "Server_Close s = (map close_client (Clients s), s\<lparr>sv_closed := True, sv_clients := [], sv_listening := False\<rparr>)"

section \<open>Heartbeats (heartbeat.go)\<close>

record HeartbeatManager =
  hb_clients :: "(bytes, Client) gomap"
  hb_maxMissed :: int

definition newHeartbeatManager :: "int \<Rightarrow> HeartbeatManager" where
  "newHeartbeatManager maxMissed = \<lparr>hb_clients = [], hb_maxMissed = maxMissed\<rparr>"

definition Track :: "Client \<Rightarrow> HeartbeatManager \<Rightarrow> HeartbeatManager" where
  "Track c h = h\<lparr>hb_clients := gm_put (cl_ID c) c (hb_clients h)\<rparr>"

definition Untrack :: "bytes \<Rightarrow> HeartbeatManager \<Rightarrow> HeartbeatManager" where
  "Untrack cid h = h\<lparr>hb_clients := gm_del cid (hb_clients h)\<rparr>"

definition Ack :: "bytes \<Rightarrow> time \<Rightarrow> HeartbeatManager \<Rightarrow> HeartbeatManager" where
  "Ack cid now h =
     (case gm_get (hb_clients h) cid of
        None \<Rightarrow> h
      | Some c \<Rightarrow> h\<lparr>hb_clients := gm_put cid (c\<lparr>cl_MissedHeartbeats := 0, cl_LastHeartbeatAck := now\<rparr>) (hb_clients h)\<rparr>)"

definition hbFrame :: Frame where
  "hbFrame = \<lparr>Version = ProtocolVersion, Type = MsgHeartbeat, Payload = []\<rparr>"

text \<open>One client in \<^verbatim>\<open>tick\<close>: its new state and whether it is dead.\<close>

definition beat :: "int \<Rightarrow> Client \<Rightarrow> bool \<times> Client" where
  "beat maxMissed c =
     (if cl_Stream c = None then (False, c)
      else let c1 = c\<lparr>cl_MissedHeartbeats := cl_MissedHeartbeats c + 1\<rparr> in
        if cl_MissedHeartbeats c1 > maxMissed then (True, c1)
        else case stream_write hbFrame c1 of
               (Some e, c2) \<Rightarrow> (True, c2\<lparr>cl_MissedHeartbeats := maxMissed + 1\<rparr>)
             | (None, c2) \<Rightarrow> (False, c2))"

text \<open>\<^verbatim>\<open>tick\<close>: the ids reported to \<^verbatim>\<open>onDead\<close>, which are no longer tracked.\<close>

definition hb_tick :: "HeartbeatManager \<Rightarrow> bytes list \<times> HeartbeatManager" where
  "hb_tick h =
     (let cs = map (\<lambda>(cid, c). (cid, beat (hb_maxMissed h) c)) (hb_clients h);
          dead = map fst (filter (\<lambda>(cid, b). fst b) cs)
      in (dead, h\<lparr>hb_clients := map (\<lambda>(cid, b). (cid, snd b)) (filter (\<lambda>(cid, b). \<not> fst b) cs)\<rparr>))"

section \<open>Who gets in\<close>

text \<open>What a connection must present: a frame with the token, from a process the mode allows.\<close>

definition authenticated :: "hs_env \<Rightarrow> Conn \<Rightarrow> Server \<Rightarrow> bool" where
  "authenticated env c s \<longleftrightarrow>
     (case he_creds env of
        None \<Rightarrow> False
      | Some creds \<Rightarrow>
          (case fst (ReadFrame c) of
             Inl e \<Rightarrow> False
           | Inr fr \<Rightarrow> Type fr = MsgAuth \<and> length (Payload fr) \<ge> minAuthPayloadSize \<and>
               take TokenSize (drop 1 (Payload fr)) = sv_token s \<and> checkAutomationMode env creds s = Inr ()))"

lemma Conn_Close_closed [simp]: "c_closed (Conn_Close c)"
  by (simp add: Conn_Close_def)

lemma refuse_simps [simp]: "snd (refuse c s) = s" "c_closed (fst (refuse c s))"
  by (simp_all add: refuse_def)

lemma registerControl_effect:
  assumes "\<And>cid. generateClientID (he_rand env) = Some cid \<Longrightarrow> gm_get (sv_clients s) cid = None"
    and "registerControl env c creds s = (c', s')"
  shows "gm_get (sv_clients s') = gm_get (sv_clients s) \<and> c_closed c' \<or>
    (\<exists>cid cl. generateClientID (he_rand env) = Some cid \<and> cl_ID cl = cid \<and> cl_Control cl = Some c' \<and> cl_Stream cl = None \<and>
       gm_get (sv_clients s') = (gm_get (sv_clients s))(cid \<mapsto> cl))"
proof (cases "generateClientID (he_rand env)")
  case None
  with assms(2) show ?thesis by (auto simp: registerControl_def)
next
  case (Some cid)
  from assms(1) [OF Some] have fresh: "gm_get (sv_clients s) cid = None" .
  obtain e conn' where w: "WriteFrame c \<lparr>Version = ProtocolVersion, Type = MsgOK, Payload = cid\<rparr> = (e, conn')" by fastforce
  show ?thesis
  proof (cases e)
    case None
    with Some w assms(2) show ?thesis by (auto simp: registerControl_def fun_eq_iff)
  next
    case (Some x)
    with \<open>generateClientID (he_rand env) = Some cid\<close> w assms(2) fresh show ?thesis
      by (auto simp: registerControl_def fun_eq_iff)
  qed
qed

lemma registerStream_effect:
  assumes "registerStream c payload s = (c', s')"
  shows "gm_get (sv_clients s') = gm_get (sv_clients s) \<and> c_closed c' \<or>
    (\<exists>cid cl. gm_get (sv_clients s) cid = Some cl \<and> cl_Stream cl = None \<and>
       gm_get (sv_clients s') = (gm_get (sv_clients s))(cid \<mapsto> cl\<lparr>cl_Stream := Some c'\<rparr>))"
proof -
  let ?n = "of_char (payload ! (1 + TokenSize)) :: nat"
  let ?cid = "take ?n (drop (1 + TokenSize + 1) payload)"
  show ?thesis
  proof (cases "1 + TokenSize + 2 \<le> length payload \<and> 1 + TokenSize + 1 + ?n \<le> length payload")
    case False
    with assms show ?thesis by (auto simp: registerStream_def Let_def split: if_splits)
  next
    case True
    obtain e conn' where w: "WriteFrame c \<lparr>Version = ProtocolVersion, Type = MsgOK, Payload = []\<rparr> = (e, conn')" by fastforce
    show ?thesis
    proof (cases "gm_get (sv_clients s) ?cid")
      case None
      with True assms show ?thesis by (auto simp: registerStream_def Let_def)
    next
      case (Some cl)
      show ?thesis
      proof (cases "cl_Stream cl")
        case None
        then have "cl\<lparr>cl_Stream := None\<rparr> = cl" by simp
        with True Some None w assms
        have "c_closed c' \<and> gm_get (sv_clients s') = gm_get (sv_clients s) \<or>
            gm_get (sv_clients s') = (gm_get (sv_clients s))(?cid \<mapsto> cl\<lparr>cl_Stream := Some c'\<rparr>)"
          by (cases e) (auto simp: registerStream_def Let_def fun_eq_iff split: if_splits)
        with Some None show ?thesis by blast
      qed (use True Some assms in \<open>auto simp: registerStream_def Let_def\<close>)
    qed
  qed
qed

lemma handleConn_cases:
  assumes "handleConn env c s = (c', s')"
  shows "s' = s \<and> c_closed c' \<or>
    authenticated env c s \<and>
      (\<exists>fr conn creds. ReadFrame c = (Inr fr, conn) \<and> he_creds env = Some creds \<and>
        ((Payload fr ! 0 = ChannelControl \<and> registerControl env conn creds s = (c', s')) \<or>
         (Payload fr ! 0 = ChannelStream \<and> registerStream conn (Payload fr) s = (c', s'))))"
proof (cases "he_deadline env \<and> he_creds env \<noteq> None")
  case False
  with assms show ?thesis by (auto simp: handleConn_def refuse_def split: option.splits if_splits)
next
  case True
  then obtain creds where creds: "he_creds env = Some creds" by auto
  obtain r conn where r: "ReadFrame c = (r, conn)" by fastforce
  show ?thesis
  proof (cases r)
    case (Inl e)
    with True creds r assms show ?thesis by (auto simp: handleConn_def refuse_def)
  next
    case (Inr fr)
    with True creds r assms show ?thesis
      by (auto simp: handleConn_def refuse_def authenticated_def Verify_iff split: if_splits)
  qed
qed

section \<open>Broadcasting\<close>

lemma broadcast_loop_spec:
  "broadcast_loop f cs = (e, cs') \<Longrightarrow>
   cs' = map (\<lambda>(cid, c). (cid, snd (stream_write f c))) cs \<and>
   (e = None \<longleftrightarrow> list_all (\<lambda>(cid, c). fst (stream_write f c) = None) cs)"
  by (induction f cs arbitrary: e cs' rule: broadcast_loop.induct) (auto split: prod.splits if_splits)

lemma gm_get_map: "gm_get (map (\<lambda>(k, v). (k, g v)) m) k = map_option g (gm_get m k)"
  by (induction m) (auto simp: gm_get_Cons)

section \<open>The process tree\<close>

text \<open>\<open>k\<close> steps up from \<open>p\<close>, through existing, positive parents.\<close>

fun ancestor_at :: "(int \<Rightarrow> int option) \<Rightarrow> nat \<Rightarrow> int \<Rightarrow> int option" where
  "ancestor_at ppid 0 p = Some p"
| "ancestor_at ppid (Suc k) p =
     (case ppid p of None \<Rightarrow> None | Some q \<Rightarrow> if q \<le> 0 then None else ancestor_at ppid k q)"

lemma descend_iff: "descend ppid n p a \<longleftrightarrow> (\<exists>k \<ge> 1. k \<le> n \<and> ancestor_at ppid k p = Some a)"
proof (induction n arbitrary: p)
  case (Suc n)
  show ?case
  proof (cases "ppid p")
    case None
    have "ancestor_at ppid k p = Some a \<longrightarrow> k = 0" for k using None by (cases k) auto
    then have "\<not> (\<exists>k \<ge> 1. k \<le> Suc n \<and> ancestor_at ppid k p = Some a)" by fastforce
    with None show ?thesis by simp
  next
    case (Some q)
    have step: "ancestor_at ppid (Suc k) p = (if q \<le> 0 then None else ancestor_at ppid k q)" for k
      using Some by simp
    show ?thesis
    proof (cases "q \<le> 0")
      case True
      have "ancestor_at ppid k p = Some a \<longrightarrow> k = 0" for k using step True by (cases k) auto
      then have "\<not> (\<exists>k \<ge> 1. k \<le> Suc n \<and> ancestor_at ppid k p = Some a)" by fastforce
      with Some True show ?thesis by simp
    next
      case False
      have "(\<exists>k \<ge> 1. k \<le> Suc n \<and> ancestor_at ppid k p = Some a) \<longleftrightarrow> (\<exists>j \<le> n. ancestor_at ppid j q = Some a)"
        using step False by (metis One_nat_def Suc_le_D Suc_le_mono le_zero_eq not_one_le_zero Suc_leI zero_less_Suc)
      also have "\<dots> \<longleftrightarrow> q = a \<or> (\<exists>j \<ge> 1. j \<le> n \<and> ancestor_at ppid j q = Some a)"
        by (metis One_nat_def Suc_leI ancestor_at.simps(1) bot_nat_0.not_eq_extremum le0 option.inject)
      finally show ?thesis using Some False Suc.IH [of q] by auto
    qed
  qed
qed auto

section \<open>Heartbeats\<close>

definition stream_open :: "Client \<Rightarrow> bool" where
  "stream_open c \<longleftrightarrow> (case cl_Stream c of None \<Rightarrow> False | Some st \<Rightarrow> \<not> c_closed st \<and> c_accepts st = None)"

fun hb_ticks :: "nat \<Rightarrow> HeartbeatManager \<Rightarrow> bytes list list \<times> HeartbeatManager" where
  "hb_ticks 0 h = ([], h)"
| "hb_ticks (Suc n) h = (case hb_tick h of (d, h1) \<Rightarrow> case hb_ticks n h1 of (ds, h2) \<Rightarrow> (d # ds, h2))"

lemma beat_alive:
  assumes "stream_open c" and "cl_MissedHeartbeats c < m"
  shows "\<not> fst (beat m c) \<and> stream_open (snd (beat m c)) \<and>
     cl_MissedHeartbeats (snd (beat m c)) = cl_MissedHeartbeats c + 1"
  using assms
  by (auto simp: beat_def stream_open_def stream_write_def hbFrame_def WriteFrame_def Encode_def conn_write_def
      MaxPayloadSize_def Let_def split: option.splits prod.splits if_splits)

lemma beat_dead: "stream_open c \<Longrightarrow> m \<le> cl_MissedHeartbeats c \<Longrightarrow> fst (beat m c)"
  by (auto simp: beat_def stream_open_def Let_def split: option.splits)

lemma hb_tick_get:
  assumes "gm_ok (hb_clients h)"
  shows "gm_ok (hb_clients (snd (hb_tick h))) \<and> hb_maxMissed (snd (hb_tick h)) = hb_maxMissed h \<and>
    gm_get (hb_clients (snd (hb_tick h))) cid =
      (case gm_get (hb_clients h) cid of
         None \<Rightarrow> None
       | Some c \<Rightarrow> if fst (beat (hb_maxMissed h) c) then None else Some (snd (beat (hb_maxMissed h) c))) \<and>
    (cid \<in> set (fst (hb_tick h)) \<longleftrightarrow>
      (case gm_get (hb_clients h) cid of None \<Rightarrow> False | Some c \<Rightarrow> fst (beat (hb_maxMissed h) c)))"
proof -
  have "distinct (map fst m) \<Longrightarrow>
     distinct (map fst (map (\<lambda>(cid, b). (cid, snd b)) (filter (\<lambda>(cid, b). \<not> fst b) (map (\<lambda>(cid, c). (cid, g c)) m)))) \<and>
     gm_get (map (\<lambda>(cid, b). (cid, snd b)) (filter (\<lambda>(cid, b). \<not> fst b) (map (\<lambda>(cid, c). (cid, g c)) m))) cid =
       (case gm_get m cid of None \<Rightarrow> None | Some c \<Rightarrow> if fst (g c) then None else Some (snd (g c))) \<and>
     (cid \<in> set (map fst (filter (\<lambda>(cid, b). fst b) (map (\<lambda>(cid, c). (cid, g c)) m))) \<longleftrightarrow>
       (case gm_get m cid of None \<Rightarrow> False | Some c \<Rightarrow> fst (g c)))"
    for m :: "(bytes, Client) gomap" and g :: "Client \<Rightarrow> bool \<times> Client"
  proof (induction m)
    case (Cons x m)
    obtain k c where x: "x = (k, c)" by (cases x)
    have notin: "gm_get m k = None" using Cons.prems by (simp add: x gm_get_def map_of_eq_None_iff)
    have kk: "(k, y) \<notin> set m" for y using Cons.prems by (force simp: x)
    show ?case
      using Cons notin kk by (auto simp: x gm_get_Cons split: option.splits)
  qed simp
  from this [of "hb_clients h" "beat (hb_maxMissed h)"] assms show ?thesis
    by (simp add: hb_tick_def Let_def gm_ok_def)
qed

lemma hb_ticks_alive:
  assumes "gm_ok (hb_clients h)" and "gm_get (hb_clients h) cid = Some c" and "stream_open c"
    and "cl_MissedHeartbeats c + int n \<le> hb_maxMissed h"
  shows "list_all (\<lambda>dead. cid \<notin> set dead) (fst (hb_ticks n h)) \<and> gm_ok (hb_clients (snd (hb_ticks n h))) \<and>
     hb_maxMissed (snd (hb_ticks n h)) = hb_maxMissed h \<and>
     (\<exists>c'. gm_get (hb_clients (snd (hb_ticks n h))) cid = Some c' \<and> stream_open c' \<and>
        cl_MissedHeartbeats c' = cl_MissedHeartbeats c + int n)"
  using assms
proof (induction n arbitrary: h c)
  case (Suc n)
  obtain d h1 where t: "hb_tick h = (d, h1)" by fastforce
  let ?c1 = "snd (beat (hb_maxMissed h) c)"
  have al: "\<not> fst (beat (hb_maxMissed h) c)" "stream_open ?c1" "cl_MissedHeartbeats ?c1 = cl_MissedHeartbeats c + 1"
    using beat_alive [OF Suc.prems(3), of "hb_maxMissed h"] Suc.prems(4) by auto
  note g = hb_tick_get [OF Suc.prems(1), of cid, unfolded t]
  have h1: "gm_ok (hb_clients h1)" "hb_maxMissed h1 = hb_maxMissed h" "gm_get (hb_clients h1) cid = Some ?c1" "cid \<notin> set d"
    using g al Suc.prems(2) by auto
  have "cl_MissedHeartbeats ?c1 + int n \<le> hb_maxMissed h1" using al(3) h1(2) Suc.prems(4) by simp
  from Suc.IH [OF h1(1,3) al(2) this] t h1 al(3) show ?case by (auto split: prod.splits)
qed simp

section \<open>Properties\<close>



text \<open>A broadcast is tried on every stream, also after an earlier one failed: each client's stream ends up
as if the frame had been written to it alone, clients without a stream are untouched, and the
call reports success exactly when every write succeeded.\<close>

lemma broadcast_reaches_every_stream:
  "case Broadcast f s of (e, s') \<Rightarrow>
     gm_get (sv_clients s') cid = map_option (\<lambda>c. snd (stream_write f c)) (gm_get (sv_clients s) cid) \<and>
     (e = None \<longleftrightarrow> list_all (\<lambda>(cid, c). fst (stream_write f c) = None) (sv_clients s))"
  using broadcast_loop_spec [of f "sv_clients s"]
  by (auto simp: Broadcast_def gm_get_map split: prod.splits)

text \<open>The mode \<^verbatim>\<open>children\<close> admits exactly the processes that have the daemon among their first 64 ancestors
(walking through existing, positive parent ids), so the walk ends even on a cyclic process table.\<close>

lemma descendant_within_64:
  "isDescendant ppid child a \<longleftrightarrow> (\<exists>k \<ge> 1. k \<le> 64 \<and> ancestor_at ppid k child = Some a)"
  by (simp add: isDescendant_def descend_iff)

text \<open>A client that never acknowledges is declared dead exactly at the tick after \<^verbatim>\<open>maxMissed\<close> unanswered
heartbeats: it stays tracked and unreported for the first \<^verbatim>\<open>maxMissed\<close> ticks, the next tick reports
and drops it; an acknowledgement starts the count again.\<close>

lemma heartbeat_declares_dead:
  assumes "gm_ok (hb_clients h)" and "gm_get (hb_clients h) cid = Some c" and "stream_open c" and "hb_maxMissed h = int m"
  shows "case hb_ticks m (Ack cid now h) of (deads, h1) \<Rightarrow>
     list_all (\<lambda>dead. cid \<notin> set dead) deads \<and> gm_get (hb_clients h1) cid \<noteq> None \<and>
     (case hb_tick h1 of (dead, h2) \<Rightarrow> cid \<in> set dead \<and> gm_get (hb_clients h2) cid = None)"
proof -
  let ?h = "Ack cid now h" and ?c = "c\<lparr>cl_MissedHeartbeats := 0, cl_LastHeartbeatAck := now\<rparr>"
  have a: "gm_ok (hb_clients ?h)" "gm_get (hb_clients ?h) cid = Some ?c" "stream_open ?c" "hb_maxMissed ?h = int m"
    using assms by (simp_all add: Ack_def stream_open_def)
  have "cl_MissedHeartbeats ?c + int m \<le> hb_maxMissed ?h" using a(4) by simp
  note al = hb_ticks_alive [OF a(1,2,3) this]
  obtain deads h1 where t: "hb_ticks m ?h = (deads, h1)" by fastforce
  obtain c' where c': "gm_get (hb_clients h1) cid = Some c'" "stream_open c'" "cl_MissedHeartbeats c' = int m"
    "gm_ok (hb_clients h1)" "hb_maxMissed h1 = int m"
    using al t a(4) by auto
  have "fst (beat (hb_maxMissed h1) c')" using c' by (intro beat_dead) auto
  with hb_tick_get [OF c'(4), of cid] c'(1) al t show ?thesis by (auto split: prod.splits)
qed

end
