(* ===== verification/DaemonState.thy ===== *)
theory DaemonState
  imports Session Transport EventBus Osc Commands
begin

text \<open>
  The daemon's data (\<^verbatim>\<open>internal/daemon\<close>: entity.go, options.go, the \<^verbatim>\<open>Daemon\<close> struct of service.go) and the
  parts of service.go that are shared by the control handlers and the output broadcaster: replies,
  events, waiters, persistence and recordings. The daemon is wired to the session service, the
  transport server, the event bus and the command tracker through the adapters of
  \<^verbatim>\<open>pkg/client/adapter.go\<close>; here their states are fields of the daemon's state.

  Every handler runs as one step. The clock, the JSON codec, \<^verbatim>\<open>os.Stat\<close>, \<^verbatim>\<open>net/url\<close>, the time zone
  and the choices of \<^verbatim>\<open>sync.Pool\<close> are the record \<open>denv\<close>. A Go panic sets \<open>dm_panicked\<close>.
\<close>

section \<open>Requests and responses (entity.go)\<close>

record SessionInfo =
  si_ID :: bytes
  si_State :: bytes
  si_Pid :: int
  si_Cols :: int
  si_Rows :: int
  si_Shell :: bytes

record CreateRequest =
  cq_ID :: bytes
  cq_Shell :: bytes
  cq_Args :: "bytes list"
  cq_Cols :: int
  cq_Rows :: int
  cq_Cwd :: bytes
  cq_Env :: "bytes list"

record ResizeRequest =
  zq_SessionID :: bytes
  zq_Cols :: int
  zq_Rows :: int

record MetaSetRequest =
  ms_q_SessionID :: bytes
  ms_q_Key :: bytes
  ms_q_Value :: bytes

record MetaGetRequest =
  mg_SessionID :: bytes
  mg_Key :: bytes

record EnvForwardRequest =
  ef_SessionID :: bytes
  ef_Env :: "(bytes, bytes) gomap"

record ExecRequest =
  xq_SessionID :: bytes
  xq_Input :: bytes
  xq_Newline :: bool

record ExecSyncRequest =
  xs_SessionIDs :: "bytes list"
  xs_Prefix :: bytes
  xs_Input :: bytes
  xs_Newline :: bool

record ExecResult =
  xr_SessionID :: bytes
  xr_OK :: bool
  xr_Error :: bytes

record WaitRequest =
  wq_SessionID :: bytes
  wq_Mode :: bytes
  wq_Timeout :: int
  wq_IdleFor :: int
  wq_Pattern :: bytes

record WaitResponse =
  wr_SessionID :: bytes
  wr_Mode :: bytes
  wr_ExitCode :: "int option"
  wr_Matched :: bool
  wr_TimedOut :: bool

record RecordRequest =
  rq_SessionID :: bytes
  rq_Action :: bytes

record RecordResponse =
  rr_SessionID :: bytes
  rr_Recording :: bool
  rr_Path :: "path option"

record ScrollbackRequest =
  uq_SessionID :: bytes
  uq_ScrollbackLines :: int

record HistoryRequest =
  hq_SessionID :: bytes
  hq_Format :: bytes
  hq_Lines :: int

record CommandResponse =
  cp_StartedAt :: time
  cp_EndedAt :: time
  cp_ExitCode :: int
  cp_StartRow :: int
  cp_EndRow :: int
  cp_DurationMs :: int
  cp_Orphan :: bool
  cp_OrphanReason :: bytes

record AttachResponse =
  ap_Info :: SessionInfo
  ap_Snapshot :: "bytes option"
  ap_CommandHistory :: "CommandResponse list"
  ap_InFlightCommand :: "CommandResponse option"

record StatusResponse =
  st_Version :: bytes
  st_Uptime :: bytes
  st_SessionCount :: int
  st_ClientCount :: int

datatype response =
    RSession SessionInfo
  | RSessions "SessionInfo list"
  | RAttach AttachResponse
  | RStatus StatusResponse
  | RMeta bytes "(bytes, bytes) gomap option"
  | RExecSync "ExecResult list"
  | RWait WaitResponse
  | RRecord RecordResponse
  | RKillPrefix "bytes list" "(bytes, bytes) gomap"
  | RError bytes

text \<open>\<^verbatim>\<open>encoding/json\<close>: one decoder per request type (\<open>None\<close> is an error), one encoder for the responses.\<close>

record wire =
  wj_create :: "bytes \<Rightarrow> CreateRequest option"
  wj_sid :: "bytes \<Rightarrow> bytes option"
  wj_list :: "bytes \<Rightarrow> bytes"
  wj_resize :: "bytes \<Rightarrow> ResizeRequest option"
  wj_subscribe :: "bytes \<Rightarrow> bytes option"
  wj_metaset :: "bytes \<Rightarrow> MetaSetRequest option"
  wj_metaget :: "bytes \<Rightarrow> MetaGetRequest option"
  wj_env :: "bytes \<Rightarrow> EnvForwardRequest option"
  wj_exec :: "bytes \<Rightarrow> ExecRequest option"
  wj_execsync :: "bytes \<Rightarrow> ExecSyncRequest option"
  wj_wait :: "bytes \<Rightarrow> WaitRequest option"
  wj_record :: "bytes \<Rightarrow> RecordRequest option"
  wj_killprefix :: "bytes \<Rightarrow> bytes option"
  wj_scrollback :: "bytes \<Rightarrow> ScrollbackRequest option"
  wj_history :: "bytes \<Rightarrow> HistoryRequest option"
  wj_resp :: "response \<Rightarrow> bytes"
  wj_event :: "BusEvent \<Rightarrow> bytes option"

text \<open>The content of the PID file (\<^verbatim>\<open>Info\<close>) and its JSON form.\<close>

record Info =
  in_PID :: int
  in_Version :: bytes
  in_StartedAt :: time

record pid_json =
  pj_enc :: "Info \<Rightarrow> bytes"
  pj_dec :: "bytes \<Rightarrow> Info option"

text \<open>What the daemon reads from outside while it handles one input.\<close>

record 'e denv =
  de_ext :: "'e ext"
  de_wire :: wire
  de_meta :: meta_json
  de_rec :: rec_json
  de_cmd :: cmd_json
  de_pidj :: pid_json
  de_getpid :: int
  de_url :: "bytes \<Rightarrow> bytes option"
  de_stat :: "bytes \<Rightarrow> bool"
  de_stamp :: "time \<Rightarrow> bytes"
  de_oserr :: "path \<Rightarrow> bytes"
  de_now :: "nat \<Rightarrow> time"
  de_pick :: nat

section \<open>The daemon (service.go, options.go)\<close>

text \<open>
  A waiter with what its goroutine holds on its stack (client, session, deadlines). The channel
  \<^verbatim>\<open>done\<close> has room for one response.
\<close>

record waiter =
  w_mode :: bytes
  w_pattern :: bytes
  w_idleFor :: duration
  w_idleTimer :: "time option"
  w_done :: "WaitResponse option"
  w_client :: bytes
  w_session :: bytes
  w_timeout :: "time option"

record 'e daemon =
  dm_server :: Server
  dm_svc :: "'e service"
  dm_version :: bytes
  dm_pidFilePath :: "path option"
  dm_dataDir :: "path option"
  dm_hasCancel :: bool
  dm_cancelled :: bool
  dm_stopTimers :: nat
  dm_attachments :: "(bytes, bytes list) gomap"
  dm_clientSession :: "(bytes, bytes) gomap"
  dm_eventBus :: "Bus option"
  dm_forwards :: "(nat \<times> bytes \<times> bytes) list"
  dm_startedAt :: time
  dm_coldRestore :: bool
  dm_maxScrollbackSize :: int
  dm_scrollbackWriters :: "(bytes, HWriter) gomap"
  dm_waiters :: "(bytes, nat list) gomap"
  dm_waiterObjs :: "(nat, waiter) gomap"
  dm_nextWaiter :: nat
  dm_recordings :: "(bytes, RWriter) gomap"
  dm_recordingMaxSize :: int
  dm_recordingDir :: path
  dm_maxHistoryDumpSize :: int
  dm_dataReady :: "bytes list"
  dm_cmdSvc :: "cl_service option"
  dm_cmdSvcRepo :: cmdRepository
  dm_cmdRepo :: "cmdRepository option"
  dm_lineCounters :: "(bytes, int) gomap"
  dm_pool :: "bytes list"
  dm_fs :: fs
  dm_links :: "(path, bytes) gomap"
  dm_panicked :: bool

text \<open>
  \<open>svcRepo\<close> is the repository the command service was built on. It is a different object from
  \<open>dm_cmdRepo\<close>, which \<^verbatim>\<open>WithColdRestore\<close> creates and no other package can reach. \<open>dm_stopTimers\<close> counts
  the goroutines of \<^verbatim>\<open>handleShutdown\<close> that have not stopped the daemon yet.
\<close>

definition NewDaemon ::
  "Server \<Rightarrow> 'e service \<Rightarrow> cmdRepository \<Rightarrow> fs \<Rightarrow> ('e daemon \<Rightarrow> 'e daemon) list \<Rightarrow> 'e daemon" where
  "NewDaemon server svc svcRepo f opts =
     fold (\<lambda>o' d. o' d) opts
       \<lparr>dm_server = server, dm_svc = svc, dm_version = [], dm_pidFilePath = None, dm_dataDir = None,
        dm_hasCancel = False, dm_cancelled = False, dm_stopTimers = 0, dm_attachments = [], dm_clientSession = [],
        dm_eventBus = None, dm_forwards = [], dm_startedAt = 0, dm_coldRestore = False,
        dm_maxScrollbackSize = 0, dm_scrollbackWriters = [], dm_waiters = [], dm_waiterObjs = [],
        dm_nextWaiter = 0, dm_recordings = [], dm_recordingMaxSize = 0, dm_recordingDir = [],
        dm_maxHistoryDumpSize = 0, dm_dataReady = [], dm_cmdSvc = None, dm_cmdSvcRepo = svcRepo,
        dm_cmdRepo = None, dm_lineCounters = [], dm_pool = [], dm_fs = f, dm_links = [],
        dm_panicked = False\<rparr>"

definition WithVersion :: "bytes \<Rightarrow> 'e daemon \<Rightarrow> 'e daemon" where
  "WithVersion v d = d\<lparr>dm_version := v\<rparr>"

definition WithPIDFilePath :: "path option \<Rightarrow> 'e daemon \<Rightarrow> 'e daemon" where
  "WithPIDFilePath p d = d\<lparr>dm_pidFilePath := p\<rparr>"

definition WithDataDir :: "path option \<Rightarrow> 'e daemon \<Rightarrow> 'e daemon" where
  "WithDataDir dir d = d\<lparr>dm_dataDir := dir\<rparr>"

definition WithEventBus :: "Bus option \<Rightarrow> 'e daemon \<Rightarrow> 'e daemon" where
  "WithEventBus b d = d\<lparr>dm_eventBus := b\<rparr>"

definition WithColdRestore :: "bool \<Rightarrow> 'e daemon \<Rightarrow> 'e daemon" where
  "WithColdRestore on d = d\<lparr>dm_coldRestore := on, dm_cmdRepo := Some (newCmdRepository on)\<rparr>"

definition WithCommandLifecycle :: "cl_service \<Rightarrow> 'e daemon \<Rightarrow> 'e daemon" where
  "WithCommandLifecycle svc d = d\<lparr>dm_cmdSvc := Some svc\<rparr>"

definition WithMaxScrollbackSize :: "int \<Rightarrow> 'e daemon \<Rightarrow> 'e daemon" where
  "WithMaxScrollbackSize n d = d\<lparr>dm_maxScrollbackSize := n\<rparr>"

definition WithRecordingMaxSize :: "int \<Rightarrow> 'e daemon \<Rightarrow> 'e daemon" where
  "WithRecordingMaxSize n d = d\<lparr>dm_recordingMaxSize := n\<rparr>"

definition WithRecordingDir :: "path \<Rightarrow> 'e daemon \<Rightarrow> 'e daemon" where
  "WithRecordingDir dir d = d\<lparr>dm_recordingDir := dir\<rparr>"

definition WithMaxHistoryDumpSize :: "int \<Rightarrow> 'e daemon \<Rightarrow> 'e daemon" where
  "WithMaxHistoryDumpSize n d = d\<lparr>dm_maxHistoryDumpSize := n\<rparr>"

text \<open>The session service writes debug lines to the same tracer as the daemon.\<close>

definition trace :: "DebugEvent \<Rightarrow> 'e daemon \<Rightarrow> 'e daemon" where
  "trace ev d = d\<lparr>dm_svc := emit_if ev (dm_svc d)\<rparr>"

section \<open>The session adapter (pkg/client/adapter.go)\<close>

definition toInfo :: "Session \<Rightarrow> SessionInfo" where
  "toInfo s = \<lparr>si_ID = s_ID s, si_State = SessState_String (s_State s), si_Pid = s_Pid s, si_Cols = s_Cols s,
               si_Rows = s_Rows s, si_Shell = s_Shell s\<rparr>"

definition wrap_err :: "bytes \<Rightarrow> sess_error + 'a \<Rightarrow> bytes + 'a" where
  "wrap_err op r = (case r of Inl e \<Rightarrow> Inl (''session adapter: '' @ op @ '': '' @ sess_error_msg e) | Inr v \<Rightarrow> Inr v)"

definition sm_Create :: "'e denv \<Rightarrow> CreateRequest \<Rightarrow> 'e service \<Rightarrow> (bytes + SessionInfo) \<times> 'e service" where
  "sm_Create env req s =
     (case svc_Create (de_ext env) (de_now env 0) (cq_ID req)
             \<lparr>co_Shell = cq_Shell req, co_Args = cq_Args req, co_Cols = cq_Cols req, co_Rows = cq_Rows req,
              co_Cwd = cq_Cwd req, co_Env = cq_Env req, co_HighWatermark = 0, co_LowWatermark = 0,
              co_BatchInterval = 0, co_HistoryWriter = False\<rparr> s of
        (r, s') \<Rightarrow> (case wrap_err ''create'' r of Inl e \<Rightarrow> Inl e | Inr z \<Rightarrow> Inr (toInfo z), s'))"

definition sm_Get :: "'e service \<Rightarrow> bytes \<Rightarrow> bytes + SessionInfo" where
  "sm_Get s sid = (case wrap_err ''get'' (svc_Get s sid) of Inl e \<Rightarrow> Inl e | Inr z \<Rightarrow> Inr (toInfo z))"

definition sm_List :: "'e service \<Rightarrow> SessionInfo list" where
  "sm_List s = map toInfo (svc_List s)"

definition sm_Kill :: "bytes \<Rightarrow> 'e service \<Rightarrow> (bytes + unit) \<times> 'e service" where
  "sm_Kill sid s = apfst (wrap_err ''kill'') (svc_Kill sid s)"

definition sm_Resize :: "'e denv \<Rightarrow> bytes \<Rightarrow> int \<Rightarrow> int \<Rightarrow> 'e service \<Rightarrow> (bytes + unit) \<times> 'e service" where
  "sm_Resize env sid cols rows s = apfst (wrap_err ''resize'') (svc_Resize (de_ext env) sid cols rows s)"

definition sm_WriteInput :: "bytes \<Rightarrow> bytes \<Rightarrow> 'e service \<Rightarrow> (bytes + unit) \<times> 'e service" where
  "sm_WriteInput sid data s = apfst (wrap_err ''write input'') (svc_WriteInput sid data s)"

definition sm_ReadOutput :: "bytes \<Rightarrow> 'e service \<Rightarrow> (bytes + bytes) \<times> 'e service" where
  "sm_ReadOutput sid s = apfst (wrap_err ''read output'') (svc_ReadOutput sid s)"

definition sm_Attach :: "bytes \<Rightarrow> 'e service \<Rightarrow> (bytes + unit) \<times> 'e service" where
  "sm_Attach sid s = apfst (wrap_err ''attach'') (svc_Attach sid s)"

definition sm_Detach :: "bytes \<Rightarrow> 'e service \<Rightarrow> (bytes + unit) \<times> 'e service" where
  "sm_Detach sid s = apfst (wrap_err ''detach'') (svc_Detach sid s)"

definition sm_Snapshot :: "'e denv \<Rightarrow> 'e service \<Rightarrow> bytes \<Rightarrow> bytes + bytes" where
  "sm_Snapshot env s sid = wrap_err ''snapshot'' (svc_Snapshot (de_ext env) s sid)"

definition sm_MetaSet :: "bytes \<Rightarrow> bytes \<Rightarrow> bytes \<Rightarrow> 'e service \<Rightarrow> (bytes + unit) \<times> 'e service" where
  "sm_MetaSet sid key val s = apfst (wrap_err ''meta set'') (svc_MetaSet sid key val s)"

definition sm_MetaGet :: "'e service \<Rightarrow> bytes \<Rightarrow> bytes \<Rightarrow> bytes + bytes" where
  "sm_MetaGet s sid key = wrap_err ''meta get'' (svc_MetaGet s sid key)"

definition sm_MetaGetAll :: "'e service \<Rightarrow> bytes \<Rightarrow> bytes + (bytes, bytes) gomap" where
  "sm_MetaGetAll s sid = wrap_err ''meta get all'' (svc_MetaGetAll s sid)"

text \<open>The only call the adapter passes on without wrapping its error.\<close>

definition sm_UpdateEmulatorScrollback :: "'e denv \<Rightarrow> bytes \<Rightarrow> int \<Rightarrow> 'e service \<Rightarrow> (bytes + unit) \<times> 'e service" where
  "sm_UpdateEmulatorScrollback env sid n s =
     apfst (\<lambda>r. case r of Inl e \<Rightarrow> Inl (sess_error_msg e) | Inr v \<Rightarrow> Inr v)
       (svc_UpdateEmulatorScrollback (de_ext env) sid n s)"

section \<open>Replies and events\<close>

definition okFrame :: "'e denv \<Rightarrow> response option \<Rightarrow> Frame" where
  "okFrame env payload =
     \<lparr>Version = ProtocolVersion, Type = MsgOK,
      Payload = (case payload of None \<Rightarrow> [] | Some r \<Rightarrow> wj_resp (de_wire env) r)\<rparr>"

definition errorFrame :: "'e denv \<Rightarrow> bytes \<Rightarrow> Frame" where
  "errorFrame env msg =
     \<lparr>Version = ProtocolVersion, Type = MsgError, Payload = wj_resp (de_wire env) (RError msg)\<rparr>"

text \<open>
  \<^verbatim>\<open>c.Control().WriteFrame(f)\<close> with the error ignored. A client that is gone from the registry has
  its connection closed, so that the write has no effect.
\<close>

definition control_write :: "bytes \<Rightarrow> Frame \<Rightarrow> Server \<Rightarrow> Server" where
  "control_write cid f s =
     (case gm_get (sv_clients s) cid of
        None \<Rightarrow> s
      | Some c \<Rightarrow>
          (case cl_Control c of
             None \<Rightarrow> s
           | Some conn \<Rightarrow>
               s\<lparr>sv_clients := gm_put cid (c\<lparr>cl_Control := Some (snd (WriteFrame conn f))\<rparr>) (sv_clients s)\<rparr>))"

definition reply :: "bytes \<Rightarrow> Frame \<Rightarrow> 'e daemon \<Rightarrow> 'e daemon" where
  "reply cid f d = d\<lparr>dm_server := control_write cid f (dm_server d)\<rparr>"

definition publishEvent :: "BusEvent \<Rightarrow> 'e daemon \<Rightarrow> 'e daemon" where
  "publishEvent e d =
     (case dm_eventBus d of
        None \<Rightarrow> d
      | Some b \<Rightarrow>
          (case Publish e b of
             None \<Rightarrow> d\<lparr>dm_panicked := True\<rparr>
           | Some b' \<Rightarrow> d\<lparr>dm_eventBus := Some b'\<rparr>))"

definition mk_event :: "EvType \<Rightarrow> bytes \<Rightarrow> (bytes, pval) gomap \<Rightarrow> BusEvent" where
  "mk_event t sid p = \<lparr>be_Type = t, be_SessionID = sid, be_Payload = p\<rparr>"

text \<open>\<^verbatim>\<open>t.Sub(u).Milliseconds()\<close>: the difference saturates at 64 bits, the division truncates.\<close>

definition time_sub :: "time \<Rightarrow> time \<Rightarrow> duration" where
  "time_sub t u = max (- (2 ^ 63)) (min (2 ^ 63 - 1) (t - u))"

definition milliseconds :: "duration \<Rightarrow> int" where
  "milliseconds x = (if x < 0 then - ((- x) div 1000000) else x div 1000000)"

definition cmd_event :: "bytes \<Rightarrow> Event \<Rightarrow> BusEvent" where
  "cmd_event sid ev =
     (case Kind ev of
        EventPromptShown \<Rightarrow> mk_event CommandPromptShown sid [(''row'', VInt (Row ev))]
      | EventCommandStarted \<Rightarrow>
          mk_event CommandStarted sid
            (case Cmd ev of None \<Rightarrow> []
               | Some c \<Rightarrow> [(''started_at'', VTime (StartedAt c)), (''start_row'', VInt (StartRow c))])
      | EventCommandFinished \<Rightarrow>
          mk_event CommandFinished sid
            (case Cmd ev of None \<Rightarrow> []
               | Some c \<Rightarrow>
                   [(''started_at'', VTime (StartedAt c)), (''ended_at'', VTime (EndedAt c)),
                    (''exit_code'', VInt (ExitCode c)), (''start_row'', VInt (StartRow c)),
                    (''end_row'', VInt (EndRow c)),
                    (''duration_ms'', VInt (milliseconds (time_sub (EndedAt c) (StartedAt c)))),
                    (''orphan'', VBool (Orphan c))] @
                   (if OrphanReason c \<noteq> [] then [(''orphan_reason'', VStr (OrphanReason c))] else [])))"

definition publishCmdEvent :: "bytes \<Rightarrow> Event \<Rightarrow> 'e daemon \<Rightarrow> 'e daemon" where
  "publishCmdEvent sid ev d = publishEvent (cmd_event sid ev) d"

definition commandToResponse :: "Command \<Rightarrow> CommandResponse" where
  "commandToResponse c =
     \<lparr>cp_StartedAt = StartedAt c, cp_EndedAt = EndedAt c, cp_ExitCode = ExitCode c, cp_StartRow = StartRow c,
      cp_EndRow = EndRow c,
      cp_DurationMs = (if EndedAt c \<noteq> 0 then milliseconds (time_sub (EndedAt c) (StartedAt c)) else 0),
      cp_Orphan = Orphan c, cp_OrphanReason = OrphanReason c\<rparr>"

end
