(* ===== verification/DaemonOutput.thy ===== *)
theory DaemonOutput
  imports DaemonState
begin

text \<open>
  The output path of the daemon (\<^verbatim>\<open>internal/daemon/service.go\<close>): draining session buffers, scanning the
  drained bytes for control sequences, persisting and recording them, waking waiters and sending
  data frames to the attached clients.
\<close>

section \<open>Waiters\<close>

definition waiters_of :: "'e daemon \<Rightarrow> bytes \<Rightarrow> nat list" where
  "waiters_of d sid = (case gm_get (dm_waiters d) sid of None \<Rightarrow> [] | Some ws \<Rightarrow> ws)"

definition addWaiter :: "bytes \<Rightarrow> waiter \<Rightarrow> 'e daemon \<Rightarrow> nat \<times> 'e daemon" where
  "addWaiter sid w d =
     (let n = dm_nextWaiter d in
      (n, d\<lparr>dm_waiterObjs := gm_put n w (dm_waiterObjs d), dm_nextWaiter := Suc n,
            dm_waiters := gm_put sid (waiters_of d sid @ [n]) (dm_waiters d)\<rparr>))"

definition removeWaiter :: "bytes \<Rightarrow> nat \<Rightarrow> 'e daemon \<Rightarrow> 'e daemon" where
  "removeWaiter sid n d =
     (if n \<in> set (waiters_of d sid)
      then d\<lparr>dm_waiters := gm_put sid (remove1 n (waiters_of d sid)) (dm_waiters d)\<rparr>
      else d)"

text \<open>The loop over a copy of the waiters of a session, each reached through its pointer.\<close>

definition each_waiter :: "(waiter \<Rightarrow> waiter) \<Rightarrow> bytes \<Rightarrow> 'e daemon \<Rightarrow> 'e daemon" where
  "each_waiter f sid d =
     d\<lparr>dm_waiterObjs :=
         fold (\<lambda>n objs. case gm_get objs n of None \<Rightarrow> objs | Some w \<Rightarrow> gm_put n (f w) objs)
           (waiters_of d sid) (dm_waiterObjs d)\<rparr>"

text \<open>A non-blocking send on the channel of capacity one.\<close>

definition send_done :: "WaitResponse \<Rightarrow> waiter \<Rightarrow> waiter" where
  "send_done r w = (if w_done w = None then w\<lparr>w_done := Some r\<rparr> else w)"

definition wait_resp :: "bytes \<Rightarrow> bytes \<Rightarrow> int option \<Rightarrow> bool \<Rightarrow> bool \<Rightarrow> WaitResponse" where
  "wait_resp sid mode code matched timedOut =
     \<lparr>wr_SessionID = sid, wr_Mode = mode, wr_ExitCode = code, wr_Matched = matched, wr_TimedOut = timedOut\<rparr>"

definition notifyExitWaiters :: "bytes \<Rightarrow> int \<Rightarrow> 'e daemon \<Rightarrow> 'e daemon" where
  "notifyExitWaiters sid code d =
     each_waiter (\<lambda>w. if w_mode w = ''exit'' then send_done (wait_resp sid ''exit'' (Some code) False False) w else w) sid d"

definition notifyExitOnNonExitWaiters :: "bytes \<Rightarrow> int \<Rightarrow> 'e daemon \<Rightarrow> 'e daemon" where
  "notifyExitOnNonExitWaiters sid code d =
     each_waiter (\<lambda>w. if w_mode w = ''idle'' \<or> w_mode w = ''match''
                      then send_done (wait_resp sid (w_mode w) (Some code) False False) w else w) sid d"

definition notifyOutputWaiters :: "'e denv \<Rightarrow> bytes \<Rightarrow> bytes \<Rightarrow> 'e daemon \<Rightarrow> 'e daemon" where
  "notifyOutputWaiters env sid data d =
     each_waiter (\<lambda>w.
       if w_mode w = ''match''
       then if contains_sub data (w_pattern w) then send_done (wait_resp sid ''match'' None True False) w else w
       else if w_mode w = ''idle''
       then w\<lparr>w_idleTimer := map_option (\<lambda>_. de_now env 0 + w_idleFor w) (w_idleTimer w)\<rparr>
       else w) sid d"

section \<open>Persistence and recordings\<close>

definition persistSessionCreate :: "'e denv \<Rightarrow> bytes \<Rightarrow> CreateRequest \<Rightarrow> 'e daemon \<Rightarrow> 'e daemon" where
  "persistSessionCreate env sid req d =
     (case dm_dataDir d of
        None \<Rightarrow> d
      | Some dataDir \<Rightarrow>
          if \<not> dm_coldRestore d then d
          else case EnsureSessionDir dataDir sid (dm_fs d) of
                 (Inl e, f1) \<Rightarrow> d\<lparr>dm_fs := f1\<rparr>
               | (Inr sessionDir, f1) \<Rightarrow>
                   (case WriteMetadata (de_meta env) sessionDir
                           \<lparr>md_SessionID = sid, md_Shell = cq_Shell req, md_Cwd = cq_Cwd req, md_Cols = cq_Cols req,
                            md_Rows = cq_Rows req, md_StartedAt = de_now env 1, md_EndedAt = None, md_ExitCode = None\<rparr> f1 of
                      (Inl e, f2) \<Rightarrow> d\<lparr>dm_fs := f2\<rparr>
                    | (Inr u, f2) \<Rightarrow>
                        (case hist_NewWriter (Join sessionDir ''scrollback.bin'') (dm_maxScrollbackSize d) f2 of
                           Inl e \<Rightarrow> d\<lparr>dm_fs := f2\<rparr>
                         | Inr (w, f3) \<Rightarrow>
                             d\<lparr>dm_fs := f3, dm_scrollbackWriters := gm_put sid w (dm_scrollbackWriters d)\<rparr>)))"

definition persistSessionExit :: "'e denv \<Rightarrow> bytes \<Rightarrow> int \<Rightarrow> 'e daemon \<Rightarrow> 'e daemon" where
  "persistSessionExit env sid code d =
     (case dm_dataDir d of
        None \<Rightarrow> d
      | Some dataDir \<Rightarrow>
          if \<not> dm_coldRestore d then d
          else d\<lparr>dm_scrollbackWriters := gm_del sid (dm_scrollbackWriters d),
                 dm_fs := snd (UpdateMetadataExit (de_meta env) (Join dataDir sid) (de_now env 0) code (dm_fs d))\<rparr>)"

definition persistOutput :: "bytes \<Rightarrow> bytes \<Rightarrow> 'e daemon \<Rightarrow> 'e daemon" where
  "persistOutput sid data d =
     (case gm_get (dm_scrollbackWriters d) sid of
        None \<Rightarrow> d
      | Some w \<Rightarrow>
          (case hist_Write data (w, dm_fs d) of
             (r, (w', f')) \<Rightarrow> d\<lparr>dm_scrollbackWriters := gm_put sid w' (dm_scrollbackWriters d), dm_fs := f'\<rparr>))"

definition teeRecording :: "'e denv \<Rightarrow> bytes \<Rightarrow> bytes \<Rightarrow> 'e daemon \<Rightarrow> 'e daemon" where
  "teeRecording env sid data d =
     (case gm_get (dm_recordings d) sid of
        None \<Rightarrow> d
      | Some w \<Rightarrow>
          (case rec_Write (de_rec env) (de_now env 0) data (w, dm_fs d) of
             ((n, err), (w', f')) \<Rightarrow>
               if err = Some ErrSizeLimitReached
               then publishEvent (mk_event RecordingLimitReached sid [])
                      (d\<lparr>dm_recordings := gm_del sid (dm_recordings d), dm_fs := f'\<rparr>)
               else d\<lparr>dm_recordings := gm_put sid w' (dm_recordings d), dm_fs := f'\<rparr>))"

definition closeRecording :: "bytes \<Rightarrow> 'e daemon \<Rightarrow> 'e daemon" where
  "closeRecording sid d =
     (case gm_get (dm_recordings d) sid of
        None \<Rightarrow> d
      | Some w \<Rightarrow> d\<lparr>dm_recordings := gm_del sid (dm_recordings d)\<rparr>)"

section \<open>Scanning the output\<close>

text \<open>\<^verbatim>\<open>cmdSvc.HandleOSC\<close> with the daemon as event handler and the service's own repository.\<close>

definition cmd_marker :: "'e denv \<Rightarrow> bytes \<Rightarrow> bytes \<Rightarrow> int \<Rightarrow> 'e daemon \<Rightarrow> 'e daemon" where
  "cmd_marker env sid val row d =
     (case dm_cmdSvc d of
        None \<Rightarrow> d
      | Some s \<Rightarrow>
          (case HandleOSC s sid (fst (parseOSC133Value val)) (snd (parseOSC133Value val)) row (de_now env) of
             None \<Rightarrow> d\<lparr>dm_panicked := True\<rparr>
           | Some (Inl e) \<Rightarrow> d
           | Some (Inr (eff, s')) \<Rightarrow>
               (fold (publishCmdEvent sid) (dispatched eff) (d\<lparr>dm_cmdSvc := Some s'\<rparr>))
                 \<lparr>dm_cmdSvcRepo := fold (repo_Save sid) (saved eff) (dm_cmdSvcRepo d)\<rparr>))"

definition counter_add :: "bytes \<Rightarrow> nat \<Rightarrow> 'e daemon \<Rightarrow> 'e daemon" where
  "counter_add sid n d =
     (case gm_get (dm_lineCounters d) sid of
        None \<Rightarrow> d
      | Some c \<Rightarrow> d\<lparr>dm_lineCounters := gm_put sid (wrap64 (c + int n)) (dm_lineCounters d)\<rparr>)"

definition counter_row :: "bytes \<Rightarrow> 'e daemon \<Rightarrow> int" where
  "counter_row sid d = (case gm_get (dm_lineCounters d) sid of None \<Rightarrow> 0 | Some c \<Rightarrow> c)"

definition NL :: byte where "NL = CHR 0x0A"

text \<open>One result in the loop of \<^verbatim>\<open>scanOSC\<close>, with the cursor into the chunk; a slice with bounds out of order panics.\<close>

definition osc_step :: "'e denv \<Rightarrow> bytes \<Rightarrow> bytes \<Rightarrow> OSCResult \<Rightarrow> nat \<times> 'e daemon \<Rightarrow> nat \<times> 'e daemon" where
  "osc_step env sid data o' = (\<lambda>(cursor, d).
     case osc_Type o' of
       OSCTypeCwd \<Rightarrow>
         (cursor, publishEvent (mk_event CwdChanged sid [(''cwd'', VStr (osc_Value o'))])
                    (d\<lparr>dm_svc := snd (sm_MetaSet sid ''cwd'' (osc_Value o') (dm_svc d))\<rparr>))
     | OSCTypeNotification \<Rightarrow>
         (cursor, publishEvent (mk_event Notification sid [(''body'', VStr (osc_Value o'))]) d)
     | OSCTypeShellReady \<Rightarrow> (cursor, publishEvent (mk_event ShellReady sid []) d)
     | OSCType133 \<Rightarrow>
         (case gm_get (dm_lineCounters d) sid of
            None \<Rightarrow> (cursor, cmd_marker env sid (osc_Value o') 0 d)
          | Some c \<Rightarrow>
              if cursor > osc_Offset o' \<or> osc_Offset o' > length data then (cursor, d\<lparr>dm_panicked := True\<rparr>)
              else let d1 = counter_add sid (count_byte NL (take (osc_Offset o' - cursor) (drop cursor data))) d
                   in (osc_Offset o', cmd_marker env sid (osc_Value o') (counter_row sid d1) d1)))"

definition scanOSC :: "'e denv \<Rightarrow> bytes \<Rightarrow> bytes \<Rightarrow> 'e daemon \<Rightarrow> 'e daemon" where
  "scanOSC env sid data d =
     (let results = ParseOSC (de_url env) data in
      if results = [] then d
      else case fold (osc_step env sid data) results (0, d) of
             (cursor, d') \<Rightarrow> if cursor < length data then counter_add sid (count_byte NL (drop cursor data)) d' else d')"

definition da_response :: "DAType \<Rightarrow> bytes" where
  "da_response t = (case t of DATypeDA1 \<Rightarrow> DA1Response | DATypeDA2 \<Rightarrow> DA2Response)"

definition attached_to :: "'e daemon \<Rightarrow> bytes \<Rightarrow> bytes list" where
  "attached_to d sid = (case gm_get (dm_attachments d) sid of None \<Rightarrow> [] | Some cs \<Rightarrow> cs)"

definition scanDA :: "bytes \<Rightarrow> bytes \<Rightarrow> 'e daemon \<Rightarrow> 'e daemon" where
  "scanDA sid data d =
     (let requests = ParseDA data in
      if requests = [] then d
      else if length (attached_to d sid) > 0 then d
      else d\<lparr>dm_svc := fold (\<lambda>r s. snd (sm_WriteInput sid (da_response r) s)) requests (dm_svc d)\<rparr>)"

section \<open>The broadcaster\<close>

text \<open>\<^verbatim>\<open>ReadOutput\<close> as the broadcaster uses it: an error and an empty drain are the same.\<close>

definition drain :: "bytes \<Rightarrow> 'e daemon \<Rightarrow> bytes option \<times> 'e daemon" where
  "drain sid d =
     (case sm_ReadOutput sid (dm_svc d) of
        (r, s') \<Rightarrow> (case r of Inl e \<Rightarrow> None | Inr data \<Rightarrow> if data = [] then None else Some data, d\<lparr>dm_svc := s'\<rparr>))"

definition process_output :: "'e denv \<Rightarrow> bytes \<Rightarrow> bytes \<Rightarrow> 'e daemon \<Rightarrow> 'e daemon" where
  "process_output env sid data d =
     notifyOutputWaiters env sid data
       (teeRecording env sid data
         (persistOutput sid data
           (scanDA sid data
             (scanOSC env sid data d))))"

definition data_frame :: "bytes \<Rightarrow> Frame" where
  "data_frame payload = \<lparr>Version = ProtocolVersion, Type = MsgData, Payload = payload\<rparr>"

definition send_data :: "bytes \<Rightarrow> bytes \<Rightarrow> bytes \<Rightarrow> bytes \<Rightarrow> 'e daemon \<Rightarrow> 'e daemon" where
  "send_data sid data payload cid d =
     trace ((dbg sid StageFrameSend)\<lparr>de_ByteLen := int (length data)\<rparr>)
       (d\<lparr>dm_server := snd (BroadcastTo cid (data_frame payload) (dm_server d))\<rparr>)"

definition broadcast_data :: "'e denv \<Rightarrow> bytes \<Rightarrow> bytes \<Rightarrow> bytes list \<Rightarrow> 'e daemon \<Rightarrow> 'e daemon" where
  "broadcast_data env sid data cids d =
     (case AcquireDataPayload (de_pick env) (dm_pool d) sid data of
        (payload, pool) \<Rightarrow>
          let d1 = fold (send_data sid data payload) cids (d\<lparr>dm_pool := pool\<rparr>)
          in d1\<lparr>dm_pool := ReleaseDataPayload payload (dm_pool d1)\<rparr>)"

definition flush_attached :: "'e denv \<Rightarrow> bytes \<Rightarrow> bytes list \<Rightarrow> 'e daemon \<Rightarrow> 'e daemon" where
  "flush_attached env sid cids d =
     (case drain sid d of
        (None, d') \<Rightarrow> d'
      | (Some data, d') \<Rightarrow> broadcast_data env sid data cids (process_output env sid data d'))"

definition flush_waited :: "'e denv \<Rightarrow> bytes \<Rightarrow> 'e daemon \<Rightarrow> 'e daemon" where
  "flush_waited env sid d =
     (case drain sid d of
        (None, d') \<Rightarrow> d'
      | (Some data, d') \<Rightarrow> process_output env sid data d')"

definition waiter_sessions :: "'e daemon \<Rightarrow> (bytes, bytes list) gomap \<Rightarrow> bytes list" where
  "waiter_sessions d sessions =
     map fst (filter (\<lambda>(sid, ws). length ws > 0 \<and> gm_get sessions sid = None) (dm_waiters d))"

definition flushOutput :: "'e denv \<Rightarrow> 'e daemon \<Rightarrow> 'e daemon" where
  "flushOutput env d =
     (let sessions = dm_attachments d;
          d1 = fold (\<lambda>(sid, cids). flush_attached env sid cids) sessions d
      in fold (flush_waited env) (waiter_sessions d1 sessions) d1)"

definition flushSessionOutput :: "'e denv \<Rightarrow> bytes \<Rightarrow> 'e daemon \<Rightarrow> 'e daemon" where
  "flushSessionOutput env sid d =
     (let clientSet = attached_to d sid;
          attached = (gm_get (dm_attachments d) sid \<noteq> None);
          singleClient = (if length clientSet = 1 then hd clientSet else []);
          multiClients = (if length clientSet > 1 then clientSet else [])
      in if \<not> attached \<or> (singleClient = [] \<and> length multiClients = 0) then flushOutput env d
         else flush_attached env sid (if singleClient \<noteq> [] then [singleClient] else multiClients) d)"

text \<open>The \<^verbatim>\<open>OnDataReady\<close> callback, and one turn of the select loop of \<^verbatim>\<open>broadcastOutput\<close>.\<close>

definition dataReadyCap :: nat where "dataReadyCap = 256"

definition onDataReady :: "bytes \<Rightarrow> 'e daemon \<Rightarrow> 'e daemon" where
  "onDataReady sid d =
     (if length (dm_dataReady d) < dataReadyCap then d\<lparr>dm_dataReady := dm_dataReady d @ [sid]\<rparr> else d)"

datatype cast_arm = CastDone | CastReady | CastTick

text \<open>\<open>None\<close> when the arm is not ready; the flag tells whether the loop goes on.\<close>

definition broadcastOutput_step :: "'e denv \<Rightarrow> cast_arm \<Rightarrow> 'e daemon \<Rightarrow> (bool \<times> 'e daemon) option" where
  "broadcastOutput_step env arm d =
     (case arm of
        CastDone \<Rightarrow> if dm_cancelled d then Some (False, d) else None
      | CastReady \<Rightarrow>
          (case dm_dataReady d of
             [] \<Rightarrow> None
           | sid # rest \<Rightarrow> Some (True, flushSessionOutput env sid (d\<lparr>dm_dataReady := rest\<rparr>)))
      | CastTick \<Rightarrow> Some (True, flushOutput env d))"

section \<open>Callbacks of the session service\<close>

text \<open>The \<^verbatim>\<open>OnExit\<close> callback that \<^verbatim>\<open>Start\<close> registers.\<close>

definition onExit :: "'e denv \<Rightarrow> bytes \<Rightarrow> int \<Rightarrow> 'e daemon \<Rightarrow> 'e daemon" where
  "onExit env sid code d =
     (let d1 = closeRecording sid
                 (persistSessionExit env sid code
                   (notifyExitOnNonExitWaiters sid code
                     (notifyExitWaiters sid code d)));
          d2 = d1\<lparr>dm_cmdSvc := map_option (\<lambda>s. Unregister s sid) (dm_cmdSvc d1),
                  dm_lineCounters := gm_del sid (dm_lineCounters d1)\<rparr>;
          d3 = (case dm_cmdRepo d2 of
                  None \<Rightarrow> d2
                | Some r \<Rightarrow>
                    (case repo_Close (de_cmd env) (de_now env 1) sid r (dm_fs d2) of
                       (r', f') \<Rightarrow> d2\<lparr>dm_cmdRepo := Some r', dm_fs := f'\<rparr>))
      in publishEvent (mk_event SessionExited sid [(''exit_code'', VInt code)]) d3)"

fun run_callback :: "'e denv \<Rightarrow> callback \<Rightarrow> 'e daemon \<Rightarrow> 'e daemon" where
  "run_callback env (CbExit sid code) d = onExit env sid code d"
| "run_callback env (CbDataReady sid) d = onDataReady sid d"

text \<open>One step of a goroutine of the session service, followed by the callbacks it made.\<close>

definition session_step :: "'e denv \<Rightarrow> ('e service \<Rightarrow> 'e service) \<Rightarrow> 'e daemon \<Rightarrow> 'e daemon" where
  "session_step env g d =
     (let s = g (dm_svc d)
      in fold (run_callback env) (ss_callbacks s) (d\<lparr>dm_svc := s\<lparr>ss_callbacks := []\<rparr>\<rparr>))"

section \<open>Fields an operation leaves alone\<close>

lemma publishEvent_frame [simp, frame_simps]:
  "dm_server (publishEvent e d) = dm_server d" "dm_svc (publishEvent e d) = dm_svc d"
  "dm_attachments (publishEvent e d) = dm_attachments d" "dm_clientSession (publishEvent e d) = dm_clientSession d"
  "dm_waiters (publishEvent e d) = dm_waiters d" "dm_waiterObjs (publishEvent e d) = dm_waiterObjs d"
  "dm_lineCounters (publishEvent e d) = dm_lineCounters d" "dm_cmdSvc (publishEvent e d) = dm_cmdSvc d"
  "dm_cmdSvcRepo (publishEvent e d) = dm_cmdSvcRepo d" "dm_cmdRepo (publishEvent e d) = dm_cmdRepo d"
  "dm_recordings (publishEvent e d) = dm_recordings d"
  "dm_forwards (publishEvent e d) = dm_forwards d"
  "dm_nextWaiter (publishEvent e d) = dm_nextWaiter d"
  by (simp_all add: publishEvent_def split: option.split)

lemma trace_frame [simp, frame_simps]:
  "dm_server (trace ev d) = dm_server d" "dm_attachments (trace ev d) = dm_attachments d"
  "dm_clientSession (trace ev d) = dm_clientSession d" "dm_waiters (trace ev d) = dm_waiters d"
  "dm_waiterObjs (trace ev d) = dm_waiterObjs d" "dm_lineCounters (trace ev d) = dm_lineCounters d"
  "dm_cmdSvc (trace ev d) = dm_cmdSvc d" "dm_cmdSvcRepo (trace ev d) = dm_cmdSvcRepo d"
  "dm_cmdRepo (trace ev d) = dm_cmdRepo d" "dm_recordings (trace ev d) = dm_recordings d"
  "dm_eventBus (trace ev d) = dm_eventBus d" "dm_panicked (trace ev d) = dm_panicked d"
  "dm_forwards (trace ev d) = dm_forwards d"
  "dm_nextWaiter (trace ev d) = dm_nextWaiter d"
  by (simp_all add: trace_def)

lemma reply_frame [simp, frame_simps]:
  "dm_svc (reply cid fr d) = dm_svc d" "dm_attachments (reply cid fr d) = dm_attachments d"
  "dm_clientSession (reply cid fr d) = dm_clientSession d" "dm_waiters (reply cid fr d) = dm_waiters d"
  "dm_waiterObjs (reply cid fr d) = dm_waiterObjs d" "dm_lineCounters (reply cid fr d) = dm_lineCounters d"
  "dm_cmdSvc (reply cid fr d) = dm_cmdSvc d" "dm_cmdSvcRepo (reply cid fr d) = dm_cmdSvcRepo d"
  "dm_cmdRepo (reply cid fr d) = dm_cmdRepo d" "dm_recordings (reply cid fr d) = dm_recordings d"
  "dm_eventBus (reply cid fr d) = dm_eventBus d" "dm_panicked (reply cid fr d) = dm_panicked d"
  "dm_forwards (reply cid fr d) = dm_forwards d"
  "dm_nextWaiter (reply cid fr d) = dm_nextWaiter d"
  by (simp_all add: reply_def)

lemma each_waiter_frame [simp, frame_simps]:
  "dm_server (each_waiter g sid d) = dm_server d" "dm_svc (each_waiter g sid d) = dm_svc d"
  "dm_attachments (each_waiter g sid d) = dm_attachments d"
  "dm_clientSession (each_waiter g sid d) = dm_clientSession d" "dm_waiters (each_waiter g sid d) = dm_waiters d"
  "dm_lineCounters (each_waiter g sid d) = dm_lineCounters d" "dm_cmdSvc (each_waiter g sid d) = dm_cmdSvc d"
  "dm_cmdSvcRepo (each_waiter g sid d) = dm_cmdSvcRepo d" "dm_cmdRepo (each_waiter g sid d) = dm_cmdRepo d"
  "dm_recordings (each_waiter g sid d) = dm_recordings d" "dm_eventBus (each_waiter g sid d) = dm_eventBus d"
  "dm_panicked (each_waiter g sid d) = dm_panicked d"
  "dm_forwards (each_waiter g sid d) = dm_forwards d"
  "dm_nextWaiter (each_waiter g sid d) = dm_nextWaiter d"
  by (simp_all add: each_waiter_def)

lemma notifyExitWaiters_frame [simp, frame_simps]:
  "dm_server (notifyExitWaiters sid code d) = dm_server d" "dm_svc (notifyExitWaiters sid code d) = dm_svc d"
  "dm_attachments (notifyExitWaiters sid code d) = dm_attachments d"
  "dm_clientSession (notifyExitWaiters sid code d) = dm_clientSession d"
  "dm_waiters (notifyExitWaiters sid code d) = dm_waiters d"
  "dm_lineCounters (notifyExitWaiters sid code d) = dm_lineCounters d"
  "dm_cmdSvc (notifyExitWaiters sid code d) = dm_cmdSvc d"
  "dm_cmdSvcRepo (notifyExitWaiters sid code d) = dm_cmdSvcRepo d"
  "dm_cmdRepo (notifyExitWaiters sid code d) = dm_cmdRepo d"
  "dm_recordings (notifyExitWaiters sid code d) = dm_recordings d"
  "dm_eventBus (notifyExitWaiters sid code d) = dm_eventBus d"
  "dm_panicked (notifyExitWaiters sid code d) = dm_panicked d"
  "dm_forwards (notifyExitWaiters sid code d) = dm_forwards d"
  "dm_nextWaiter (notifyExitWaiters sid code d) = dm_nextWaiter d"
  by (simp_all add: notifyExitWaiters_def)

lemma notifyExitOnNonExitWaiters_frame [simp, frame_simps]:
  "dm_server (notifyExitOnNonExitWaiters sid code d) = dm_server d"
  "dm_svc (notifyExitOnNonExitWaiters sid code d) = dm_svc d"
  "dm_attachments (notifyExitOnNonExitWaiters sid code d) = dm_attachments d"
  "dm_clientSession (notifyExitOnNonExitWaiters sid code d) = dm_clientSession d"
  "dm_waiters (notifyExitOnNonExitWaiters sid code d) = dm_waiters d"
  "dm_lineCounters (notifyExitOnNonExitWaiters sid code d) = dm_lineCounters d"
  "dm_cmdSvc (notifyExitOnNonExitWaiters sid code d) = dm_cmdSvc d"
  "dm_cmdSvcRepo (notifyExitOnNonExitWaiters sid code d) = dm_cmdSvcRepo d"
  "dm_cmdRepo (notifyExitOnNonExitWaiters sid code d) = dm_cmdRepo d"
  "dm_recordings (notifyExitOnNonExitWaiters sid code d) = dm_recordings d"
  "dm_eventBus (notifyExitOnNonExitWaiters sid code d) = dm_eventBus d"
  "dm_panicked (notifyExitOnNonExitWaiters sid code d) = dm_panicked d"
  "dm_forwards (notifyExitOnNonExitWaiters sid code d) = dm_forwards d"
  "dm_nextWaiter (notifyExitOnNonExitWaiters sid code d) = dm_nextWaiter d"
  by (simp_all add: notifyExitOnNonExitWaiters_def)

lemma notifyOutputWaiters_frame [simp, frame_simps]:
  "dm_server (notifyOutputWaiters env sid data d) = dm_server d"
  "dm_svc (notifyOutputWaiters env sid data d) = dm_svc d"
  "dm_attachments (notifyOutputWaiters env sid data d) = dm_attachments d"
  "dm_clientSession (notifyOutputWaiters env sid data d) = dm_clientSession d"
  "dm_waiters (notifyOutputWaiters env sid data d) = dm_waiters d"
  "dm_lineCounters (notifyOutputWaiters env sid data d) = dm_lineCounters d"
  "dm_cmdSvc (notifyOutputWaiters env sid data d) = dm_cmdSvc d"
  "dm_cmdSvcRepo (notifyOutputWaiters env sid data d) = dm_cmdSvcRepo d"
  "dm_cmdRepo (notifyOutputWaiters env sid data d) = dm_cmdRepo d"
  "dm_recordings (notifyOutputWaiters env sid data d) = dm_recordings d"
  "dm_eventBus (notifyOutputWaiters env sid data d) = dm_eventBus d"
  "dm_panicked (notifyOutputWaiters env sid data d) = dm_panicked d"
  "dm_forwards (notifyOutputWaiters env sid data d) = dm_forwards d"
  "dm_nextWaiter (notifyOutputWaiters env sid data d) = dm_nextWaiter d"
  by (simp_all add: notifyOutputWaiters_def)

lemma removeWaiter_frame [simp, frame_simps]:
  "dm_server (removeWaiter sid n d) = dm_server d" "dm_svc (removeWaiter sid n d) = dm_svc d"
  "dm_attachments (removeWaiter sid n d) = dm_attachments d"
  "dm_clientSession (removeWaiter sid n d) = dm_clientSession d"
  "dm_waiterObjs (removeWaiter sid n d) = dm_waiterObjs d"
  "dm_lineCounters (removeWaiter sid n d) = dm_lineCounters d" "dm_cmdSvc (removeWaiter sid n d) = dm_cmdSvc d"
  "dm_cmdSvcRepo (removeWaiter sid n d) = dm_cmdSvcRepo d" "dm_cmdRepo (removeWaiter sid n d) = dm_cmdRepo d"
  "dm_recordings (removeWaiter sid n d) = dm_recordings d" "dm_eventBus (removeWaiter sid n d) = dm_eventBus d"
  "dm_panicked (removeWaiter sid n d) = dm_panicked d"
  "dm_forwards (removeWaiter sid n d) = dm_forwards d"
  "dm_nextWaiter (removeWaiter sid n d) = dm_nextWaiter d"
  by (simp_all add: removeWaiter_def)

lemma persistSessionCreate_frame [simp, frame_simps]:
  "dm_server (persistSessionCreate env sid req d) = dm_server d"
  "dm_svc (persistSessionCreate env sid req d) = dm_svc d"
  "dm_attachments (persistSessionCreate env sid req d) = dm_attachments d"
  "dm_clientSession (persistSessionCreate env sid req d) = dm_clientSession d"
  "dm_waiters (persistSessionCreate env sid req d) = dm_waiters d"
  "dm_waiterObjs (persistSessionCreate env sid req d) = dm_waiterObjs d"
  "dm_lineCounters (persistSessionCreate env sid req d) = dm_lineCounters d"
  "dm_cmdSvc (persistSessionCreate env sid req d) = dm_cmdSvc d"
  "dm_cmdSvcRepo (persistSessionCreate env sid req d) = dm_cmdSvcRepo d"
  "dm_cmdRepo (persistSessionCreate env sid req d) = dm_cmdRepo d"
  "dm_recordings (persistSessionCreate env sid req d) = dm_recordings d"
  "dm_eventBus (persistSessionCreate env sid req d) = dm_eventBus d"
  "dm_panicked (persistSessionCreate env sid req d) = dm_panicked d"
  "dm_forwards (persistSessionCreate env sid req d) = dm_forwards d"
  "dm_nextWaiter (persistSessionCreate env sid req d) = dm_nextWaiter d"
  by (simp_all add: persistSessionCreate_def split: option.split prod.split sum.split)

lemma persistSessionExit_frame [simp, frame_simps]:
  "dm_server (persistSessionExit env sid code d) = dm_server d"
  "dm_svc (persistSessionExit env sid code d) = dm_svc d"
  "dm_attachments (persistSessionExit env sid code d) = dm_attachments d"
  "dm_clientSession (persistSessionExit env sid code d) = dm_clientSession d"
  "dm_waiters (persistSessionExit env sid code d) = dm_waiters d"
  "dm_waiterObjs (persistSessionExit env sid code d) = dm_waiterObjs d"
  "dm_lineCounters (persistSessionExit env sid code d) = dm_lineCounters d"
  "dm_cmdSvc (persistSessionExit env sid code d) = dm_cmdSvc d"
  "dm_cmdSvcRepo (persistSessionExit env sid code d) = dm_cmdSvcRepo d"
  "dm_cmdRepo (persistSessionExit env sid code d) = dm_cmdRepo d"
  "dm_recordings (persistSessionExit env sid code d) = dm_recordings d"
  "dm_eventBus (persistSessionExit env sid code d) = dm_eventBus d"
  "dm_panicked (persistSessionExit env sid code d) = dm_panicked d"
  "dm_forwards (persistSessionExit env sid code d) = dm_forwards d"
  "dm_nextWaiter (persistSessionExit env sid code d) = dm_nextWaiter d"
  by (simp_all add: persistSessionExit_def split: option.split)

lemma persistOutput_frame [simp, frame_simps]:
  "dm_server (persistOutput sid data d) = dm_server d" "dm_svc (persistOutput sid data d) = dm_svc d"
  "dm_attachments (persistOutput sid data d) = dm_attachments d"
  "dm_clientSession (persistOutput sid data d) = dm_clientSession d"
  "dm_waiters (persistOutput sid data d) = dm_waiters d" "dm_waiterObjs (persistOutput sid data d) = dm_waiterObjs d"
  "dm_lineCounters (persistOutput sid data d) = dm_lineCounters d"
  "dm_cmdSvc (persistOutput sid data d) = dm_cmdSvc d" "dm_cmdSvcRepo (persistOutput sid data d) = dm_cmdSvcRepo d"
  "dm_cmdRepo (persistOutput sid data d) = dm_cmdRepo d" "dm_recordings (persistOutput sid data d) = dm_recordings d"
  "dm_eventBus (persistOutput sid data d) = dm_eventBus d" "dm_panicked (persistOutput sid data d) = dm_panicked d"
  "dm_forwards (persistOutput sid data d) = dm_forwards d"
  "dm_nextWaiter (persistOutput sid data d) = dm_nextWaiter d"
  by (simp_all add: persistOutput_def split: option.split prod.split)

lemma teeRecording_frame [simp, frame_simps]:
  "dm_server (teeRecording env sid data d) = dm_server d" "dm_svc (teeRecording env sid data d) = dm_svc d"
  "dm_attachments (teeRecording env sid data d) = dm_attachments d"
  "dm_clientSession (teeRecording env sid data d) = dm_clientSession d"
  "dm_waiters (teeRecording env sid data d) = dm_waiters d"
  "dm_waiterObjs (teeRecording env sid data d) = dm_waiterObjs d"
  "dm_lineCounters (teeRecording env sid data d) = dm_lineCounters d"
  "dm_cmdSvc (teeRecording env sid data d) = dm_cmdSvc d"
  "dm_cmdSvcRepo (teeRecording env sid data d) = dm_cmdSvcRepo d"
  "dm_cmdRepo (teeRecording env sid data d) = dm_cmdRepo d"
  "dm_forwards (teeRecording env sid data d) = dm_forwards d"
  "dm_nextWaiter (teeRecording env sid data d) = dm_nextWaiter d"
  by (simp_all add: teeRecording_def split: option.split prod.split)

lemma closeRecording_frame [simp, frame_simps]:
  "dm_server (closeRecording sid d) = dm_server d" "dm_svc (closeRecording sid d) = dm_svc d"
  "dm_attachments (closeRecording sid d) = dm_attachments d"
  "dm_clientSession (closeRecording sid d) = dm_clientSession d" "dm_waiters (closeRecording sid d) = dm_waiters d"
  "dm_waiterObjs (closeRecording sid d) = dm_waiterObjs d"
  "dm_lineCounters (closeRecording sid d) = dm_lineCounters d" "dm_cmdSvc (closeRecording sid d) = dm_cmdSvc d"
  "dm_cmdSvcRepo (closeRecording sid d) = dm_cmdSvcRepo d" "dm_cmdRepo (closeRecording sid d) = dm_cmdRepo d"
  "dm_eventBus (closeRecording sid d) = dm_eventBus d" "dm_panicked (closeRecording sid d) = dm_panicked d"
  "dm_forwards (closeRecording sid d) = dm_forwards d"
  "dm_nextWaiter (closeRecording sid d) = dm_nextWaiter d"
  by (simp_all add: closeRecording_def split: option.split)

lemma publishCmdEvent_frame [simp, frame_simps]:
  "dm_server (publishCmdEvent sid ev d) = dm_server d" "dm_svc (publishCmdEvent sid ev d) = dm_svc d"
  "dm_attachments (publishCmdEvent sid ev d) = dm_attachments d"
  "dm_clientSession (publishCmdEvent sid ev d) = dm_clientSession d"
  "dm_waiters (publishCmdEvent sid ev d) = dm_waiters d" "dm_waiterObjs (publishCmdEvent sid ev d) = dm_waiterObjs d"
  "dm_lineCounters (publishCmdEvent sid ev d) = dm_lineCounters d"
  "dm_cmdSvc (publishCmdEvent sid ev d) = dm_cmdSvc d" "dm_cmdSvcRepo (publishCmdEvent sid ev d) = dm_cmdSvcRepo d"
  "dm_cmdRepo (publishCmdEvent sid ev d) = dm_cmdRepo d" "dm_recordings (publishCmdEvent sid ev d) = dm_recordings d"
  "dm_forwards (publishCmdEvent sid ev d) = dm_forwards d"
  "dm_nextWaiter (publishCmdEvent sid ev d) = dm_nextWaiter d"
  by (simp_all add: publishCmdEvent_def)

lemma counter_add_frame [simp, frame_simps]:
  "dm_server (counter_add sid n d) = dm_server d" "dm_svc (counter_add sid n d) = dm_svc d"
  "dm_attachments (counter_add sid n d) = dm_attachments d"
  "dm_clientSession (counter_add sid n d) = dm_clientSession d" "dm_waiters (counter_add sid n d) = dm_waiters d"
  "dm_waiterObjs (counter_add sid n d) = dm_waiterObjs d" "dm_cmdSvc (counter_add sid n d) = dm_cmdSvc d"
  "dm_cmdSvcRepo (counter_add sid n d) = dm_cmdSvcRepo d" "dm_cmdRepo (counter_add sid n d) = dm_cmdRepo d"
  "dm_recordings (counter_add sid n d) = dm_recordings d" "dm_eventBus (counter_add sid n d) = dm_eventBus d"
  "dm_panicked (counter_add sid n d) = dm_panicked d"
  "dm_forwards (counter_add sid n d) = dm_forwards d"
  "dm_nextWaiter (counter_add sid n d) = dm_nextWaiter d"
  by (simp_all add: counter_add_def split: option.split)

section \<open>Operations on one session\<close>

text \<open>
  What the daemon relies on when it works on one session: the service stays well formed and every
  other session is as before. A loop over sessions then leaves the sessions it does not name alone.
\<close>

locale session_local =
  fixes ok :: "'s \<Rightarrow> bool" and look :: "'s \<Rightarrow> bytes \<Rightarrow> 'v option" and act :: "bytes \<Rightarrow> 'p \<Rightarrow> 's \<Rightarrow> 's"
  assumes act_ok: "ok s \<Longrightarrow> ok (act sid p s)"
    and act_other: "ok s \<Longrightarrow> sid' \<noteq> sid \<Longrightarrow> look (act sid p s) sid' = look s sid'"
begin

lemma fold_ok: "ok s \<Longrightarrow> ok (fold (\<lambda>(sid, p). act sid p) xs s)"
  by (induction xs arbitrary: s) (auto simp: act_ok)

lemma fold_other:
  "ok s \<Longrightarrow> sid' \<notin> fst ` set xs \<Longrightarrow> look (fold (\<lambda>(sid, p). act sid p) xs s) sid' = look s sid'"
proof (induction xs arbitrary: s)
  case (Cons x xs)
  obtain sid p where x: "x = (sid, p)" by (cases x)
  have "look (fold (\<lambda>(sid, p). act sid p) xs (act sid p s)) sid' = look (act sid p s) sid'"
    using Cons by (auto simp: act_ok)
  also have "\<dots> = look s sid'" using Cons.prems by (auto simp: act_other x)
  finally show ?case by (simp add: x)
qed simp

lemma repeat_ok: "ok s \<Longrightarrow> ok (fold (act sid) ps s)"
  by (induction ps arbitrary: s) (auto simp: act_ok)

lemma repeat_other: "ok s \<Longrightarrow> sid' \<noteq> sid \<Longrightarrow> look (fold (act sid) ps s) sid' = look s sid'"
  by (induction ps arbitrary: s) (auto simp: act_other act_ok)

end

lemma find_session_cong:
  "ss_objs s' = ss_objs s \<Longrightarrow> ss_sessions s' = ss_sessions s \<Longrightarrow> find_session s' sid = find_session s sid"
  by (simp add: find_session_def obj_def split: option.split)

lemma find_session_tracer [simp]: "find_session (s\<lparr>ss_tracer := t\<rparr>) = find_session s"
  by (rule ext, rule find_session_cong) simp_all

lemma find_session_callbacks [simp]: "find_session (s\<lparr>ss_callbacks := cb\<rparr>) = find_session s"
  by (rule ext, rule find_session_cong) simp_all

lemma find_session_emit [simp]: "find_session (emit_if ev s) = find_session s"
  by (rule ext, rule find_session_cong) simp_all

lemma svc_ok_emit [simp]: "svc_ok (emit_if ev s) = svc_ok s"
  by (rule svc_ok_cong) simp_all

interpretation killing: session_local svc_ok find_session "\<lambda>sid (_ :: unit) s. snd (sm_Kill sid s)"
  by unfold_locales (simp_all add: sm_Kill_def Kill_ok Kill_find)

interpretation reading: session_local svc_ok find_session "\<lambda>sid (_ :: unit) s. snd (sm_ReadOutput sid s)"
  by unfold_locales (auto simp: sm_ReadOutput_def ReadOutput_ok, auto simp: svc_ReadOutput_def find_set_session
      split: option.splits prod.splits)

interpretation typing: session_local svc_ok find_session "\<lambda>sid data s. snd (sm_WriteInput sid data s)"
  by unfold_locales (auto simp: sm_WriteInput_def WriteInput_ok, auto simp: svc_WriteInput_def find_set_session
      split: option.splits sum.splits)

interpretation tagging: session_local svc_ok find_session "\<lambda>sid kv s. snd (sm_MetaSet sid (fst kv) (snd kv) s)"
  by unfold_locales (auto simp: sm_MetaSet_def MetaSet_ok, auto simp: svc_MetaSet_def find_set_session
      split: option.splits)


section \<open>What a session has queued, seen from the daemon\<close>

definition pipe_view :: "'e service \<Rightarrow> bytes \<Rightarrow> (nat \<times> bytes) option" where
  "pipe_view s sid = map_option (apsnd pipeline) (find_session s sid)"

lemma pipe_view_tracer [simp]: "pipe_view (s\<lparr>ss_tracer := t\<rparr>) = pipe_view s"
  "pipe_view (s\<lparr>ss_callbacks := cb\<rparr>) = pipe_view s"
  "pipe_view (emit_if ev s) = pipe_view s"
  by (simp_all add: pipe_view_def fun_eq_iff)

lemma pipe_view_set_session:
  assumes "svc_ok s" and "find_session s sid = Some am" and "pipeline (f (snd am)) = pipeline (snd am)"
  shows "pipe_view (set_session f am s) = pipe_view s"
  using assms by (cases am) (auto simp: pipe_view_def fun_eq_iff find_set_session)

lemma pipe_view_MetaSet [simp]:
  assumes "svc_ok s"
  shows "pipe_view (snd (sm_MetaSet sid k v s)) = pipe_view s"
  using assms by (auto simp: sm_MetaSet_def svc_MetaSet_def pipeline_def update_session_def
      intro!: pipe_view_set_session split: option.splits)

lemma pipe_view_WriteInput [simp]:
  assumes "svc_ok s"
  shows "pipe_view (snd (sm_WriteInput sid data s)) = pipe_view s"
  using assms by (auto simp: sm_WriteInput_def svc_WriteInput_def pipeline_def
      intro!: pipe_view_set_session split: option.splits sum.splits)

lemma drain_spec:
  assumes "svc_ok (dm_svc d)" and "pipe_view (dm_svc d) sid = Some (a, p)" and "drain sid d = (r, d')"
  shows "\<exists>q. pipe_view (dm_svc d') sid = Some (a, q) \<and> p = (case r of None \<Rightarrow> [] | Some out \<Rightarrow> out) @ q \<and> r \<noteq> Some []"
proof -
  obtain ms where f: "find_session (dm_svc d) sid = Some (a, ms)" and p: "p = pipeline ms"
    using assms(2) by (auto simp: pipe_view_def)
  obtain ms' out where "fst (svc_ReadOutput sid (dm_svc d)) = Inr out"
    "find_session (snd (svc_ReadOutput sid (dm_svc d))) sid = Some (a, ms')" "out @ pipeline ms' = pipeline ms"
    using ReadOutput_pipeline [OF assms(1) f] by auto
  moreover obtain s' where "svc_ReadOutput sid (dm_svc d) = (Inr out, s')"
    using calculation(1) by (metis prod.collapse)
  ultimately show ?thesis using assms(3)
    by (auto simp: drain_def sm_ReadOutput_def wrap_err_def pipe_view_def p split: if_splits)
qed

lemma drain_frame:
  assumes "svc_ok (dm_svc d)" and "drain sid d = (r, d')"
  shows "svc_ok (dm_svc d')" and "sid' \<noteq> sid \<Longrightarrow> find_session (dm_svc d') sid' = find_session (dm_svc d) sid'"
    and "dm_server d' = dm_server d" and "dm_attachments d' = dm_attachments d" and "dm_waiters d' = dm_waiters d"
    and "dm_eventBus d' = dm_eventBus d" and "dm_cmdSvc d' = dm_cmdSvc d" and "dm_panicked d' = dm_panicked d"
    and "dm_forwards d' = dm_forwards d" and "dm_clientSession d' = dm_clientSession d"
    and "dm_waiterObjs d' = dm_waiterObjs d" and "dm_nextWaiter d' = dm_nextWaiter d"
  using assms reading.act_ok [OF assms(1)] reading.act_other [OF assms(1)]
  by (auto simp: drain_def split: prod.splits) (metis snd_conv)+

section \<open>Scanning leaves the queues alone\<close>

lemma fold_publishCmd_frame [simp, frame_simps]:
  "dm_server (fold (publishCmdEvent sid) evs d) = dm_server d" "dm_svc (fold (publishCmdEvent sid) evs d) = dm_svc d"
  "dm_attachments (fold (publishCmdEvent sid) evs d) = dm_attachments d"
  "dm_waiters (fold (publishCmdEvent sid) evs d) = dm_waiters d"
  "dm_lineCounters (fold (publishCmdEvent sid) evs d) = dm_lineCounters d"
  "dm_cmdSvc (fold (publishCmdEvent sid) evs d) = dm_cmdSvc d"
  "dm_cmdRepo (fold (publishCmdEvent sid) evs d) = dm_cmdRepo d"
  "dm_forwards (fold (publishCmdEvent sid) evs d) = dm_forwards d"
  "dm_clientSession (fold (publishCmdEvent sid) evs d) = dm_clientSession d"
  "dm_nextWaiter (fold (publishCmdEvent sid) evs d) = dm_nextWaiter d"
  "dm_waiterObjs (fold (publishCmdEvent sid) evs d) = dm_waiterObjs d"
  by (induction evs arbitrary: d) simp_all

lemma cmd_marker_frame [simp, frame_simps]:
  "dm_server (cmd_marker env sid v row d) = dm_server d" "dm_svc (cmd_marker env sid v row d) = dm_svc d"
  "dm_attachments (cmd_marker env sid v row d) = dm_attachments d"
  "dm_waiters (cmd_marker env sid v row d) = dm_waiters d"
  "dm_lineCounters (cmd_marker env sid v row d) = dm_lineCounters d"
  "dm_cmdRepo (cmd_marker env sid v row d) = dm_cmdRepo d"
  "dm_forwards (cmd_marker env sid v row d) = dm_forwards d"
  "dm_clientSession (cmd_marker env sid v row d) = dm_clientSession d"
  "dm_nextWaiter (cmd_marker env sid v row d) = dm_nextWaiter d"
  "dm_waiterObjs (cmd_marker env sid v row d) = dm_waiterObjs d"
  by (simp_all add: cmd_marker_def split: option.split sum.split prod.split)

text \<open>Everything the scanners change in the session service is the metadata and the input of the session itself.\<close>

definition same_queues :: "bytes \<Rightarrow> 'e daemon \<Rightarrow> 'e daemon \<Rightarrow> bool" where
  "same_queues sid d d' \<longleftrightarrow>
     (svc_ok (dm_svc d) \<longrightarrow> svc_ok (dm_svc d') \<and> pipe_view (dm_svc d') = pipe_view (dm_svc d) \<and>
        (\<forall>sid'. sid' \<noteq> sid \<longrightarrow> find_session (dm_svc d') sid' = find_session (dm_svc d) sid')) \<and>
     dm_server d' = dm_server d \<and> dm_attachments d' = dm_attachments d \<and> dm_waiters d' = dm_waiters d"

lemma same_queues_refl [simp]: "same_queues sid d d"
  by (simp add: same_queues_def)

lemma same_queues_trans: "same_queues sid d d1 \<Longrightarrow> same_queues sid d1 d2 \<Longrightarrow> same_queues sid d d2"
  by (simp add: same_queues_def)

lemma same_queues_svc:
  "dm_svc d' = dm_svc d \<Longrightarrow> dm_server d' = dm_server d \<Longrightarrow> dm_attachments d' = dm_attachments d \<Longrightarrow>
   dm_waiters d' = dm_waiters d \<Longrightarrow> same_queues sid d d'"
  by (simp add: same_queues_def)

lemma osc_step_queues: "same_queues sid d (snd (osc_step env sid data o' (cursor, d)))"
proof (cases "osc_Type o'")
  case OSCTypeCwd
  have "svc_ok (dm_svc d) \<Longrightarrow> svc_ok (snd (sm_MetaSet sid ''cwd'' (osc_Value o') (dm_svc d)))"
    using tagging.act_ok [of "dm_svc d" sid "(''cwd'', osc_Value o')"] by simp
  moreover have "svc_ok (dm_svc d) \<Longrightarrow> sid' \<noteq> sid \<Longrightarrow>
      find_session (snd (sm_MetaSet sid ''cwd'' (osc_Value o') (dm_svc d))) sid' = find_session (dm_svc d) sid'" for sid'
    using tagging.act_other [of "dm_svc d" sid' sid "(''cwd'', osc_Value o')"] by simp
  ultimately show ?thesis using OSCTypeCwd by (simp add: osc_step_def same_queues_def)
qed (auto simp: osc_step_def Let_def intro!: same_queues_svc split: option.splits)

lemma osc_fold_queues: "same_queues sid d (snd (fold (osc_step env sid data) rs (cursor, d)))"
proof (induction rs arbitrary: cursor d)
  case (Cons r rs)
  obtain c' d' where "osc_step env sid data r (cursor, d) = (c', d')" by fastforce
  with osc_step_queues [of sid d env data r cursor] Cons [of d' c'] show ?case
    by (auto intro: same_queues_trans)
qed simp

lemma scanOSC_queues: "same_queues sid d (scanOSC env sid data d)"
proof -
  obtain c' d' where f: "fold (osc_step env sid data) (ParseOSC (de_url env) data) (0, d) = (c', d')" by fastforce
  have "same_queues sid d d'" using osc_fold_queues [of sid d env data _ 0] f by (metis snd_conv)
  moreover have "same_queues sid d' (counter_add sid n d')" for n by (rule same_queues_svc) simp_all
  ultimately show ?thesis by (auto simp: scanOSC_def Let_def f intro: same_queues_trans)
qed

lemma scanDA_queues: "same_queues sid d (scanDA sid data d)"
proof -
  let ?f = "\<lambda>r s. snd (sm_WriteInput sid (da_response r) s)"
  have *: "svc_ok s \<Longrightarrow> svc_ok (fold ?f rs s) \<and> pipe_view (fold ?f rs s) = pipe_view s \<and>
      (\<forall>sid'. sid' \<noteq> sid \<longrightarrow> find_session (fold ?f rs s) sid' = find_session s sid')" for rs and s :: "'a service"
    by (induction rs arbitrary: s) (simp_all add: typing.act_ok typing.act_other)
  show ?thesis by (auto simp: scanDA_def Let_def same_queues_def *)
qed

lemma process_output_queues: "same_queues sid d (process_output env sid data d)"
proof -
  have "same_queues sid d (scanDA sid data (scanOSC env sid data d))"
    using scanOSC_queues scanDA_queues by (rule same_queues_trans)
  moreover have "same_queues sid d1 (notifyOutputWaiters env sid data (teeRecording env sid data (persistOutput sid data d1)))" for d1
    by (rule same_queues_svc) simp_all
  ultimately show ?thesis unfolding process_output_def by (rule same_queues_trans)
qed


section \<open>Data frames on the client streams\<close>

definition stream_of :: "Server \<Rightarrow> bytes \<Rightarrow> Conn option" where
  "stream_of s cid = (case gm_get (sv_clients s) cid of None \<Rightarrow> None | Some c \<Rightarrow> cl_Stream c)"

definition conn_healthy :: "Conn \<Rightarrow> bool" where
  "conn_healthy c \<longleftrightarrow> \<not> c_closed c \<and> c_accepts c = None"

lemma WriteFrame_healthy:
  "conn_healthy c \<Longrightarrow> snd (WriteFrame c f) =
     (if length (Payload f) \<le> MaxPayloadSize then c\<lparr>c_out := c_out c @ encode_frame f\<rparr> else c)"
  by (auto simp: conn_healthy_def WriteFrame_def Encode_def conn_write_def encode_frame_def)

lemma conn_healthy_out [simp]: "conn_healthy (c\<lparr>c_out := o'\<rparr>) = conn_healthy c"
  by (simp add: conn_healthy_def)

lemma stream_of_BroadcastTo:
  "stream_of (snd (BroadcastTo cid f s)) cid' =
     (if cid' = cid then map_option (\<lambda>st. snd (WriteFrame st f)) (stream_of s cid) else stream_of s cid')"
  by (auto simp: stream_of_def BroadcastTo_def stream_write_def split: option.splits prod.splits)

lemma send_data_frame [simp]:
  "dm_attachments (send_data sid data pl cid d) = dm_attachments d" "dm_waiters (send_data sid data pl cid d) = dm_waiters d"
  "pipe_view (dm_svc (send_data sid data pl cid d)) = pipe_view (dm_svc d)"
  "svc_ok (dm_svc (send_data sid data pl cid d)) = svc_ok (dm_svc d)"
  "find_session (dm_svc (send_data sid data pl cid d)) = find_session (dm_svc d)"
  "dm_eventBus (send_data sid data pl cid d) = dm_eventBus d" "dm_cmdSvc (send_data sid data pl cid d) = dm_cmdSvc d"
  "dm_panicked (send_data sid data pl cid d) = dm_panicked d"
  "dm_forwards (send_data sid data pl cid d) = dm_forwards d"
  "dm_clientSession (send_data sid data pl cid d) = dm_clientSession d"
  "dm_nextWaiter (send_data sid data pl cid d) = dm_nextWaiter d"
  "dm_waiterObjs (send_data sid data pl cid d) = dm_waiterObjs d"
  by (simp_all add: send_data_def trace_def)

lemma fold_send_frame [simp]:
  "dm_attachments (fold (send_data sid data pl) cids d) = dm_attachments d"
  "dm_waiters (fold (send_data sid data pl) cids d) = dm_waiters d"
  "pipe_view (dm_svc (fold (send_data sid data pl) cids d)) = pipe_view (dm_svc d)"
  "svc_ok (dm_svc (fold (send_data sid data pl) cids d)) = svc_ok (dm_svc d)"
  "find_session (dm_svc (fold (send_data sid data pl) cids d)) = find_session (dm_svc d)"
  "dm_eventBus (fold (send_data sid data pl) cids d) = dm_eventBus d"
  "dm_cmdSvc (fold (send_data sid data pl) cids d) = dm_cmdSvc d"
  "dm_panicked (fold (send_data sid data pl) cids d) = dm_panicked d"
  "dm_forwards (fold (send_data sid data pl) cids d) = dm_forwards d"
  "dm_clientSession (fold (send_data sid data pl) cids d) = dm_clientSession d"
  "dm_nextWaiter (fold (send_data sid data pl) cids d) = dm_nextWaiter d"
  "dm_waiterObjs (fold (send_data sid data pl) cids d) = dm_waiterObjs d"
  by (induction cids arbitrary: d) simp_all

lemma fold_send_stream:
  assumes "distinct cids"
  shows "stream_of (dm_server (fold (send_data sid data pl) cids d)) cid =
     (if cid \<in> set cids then map_option (\<lambda>st. snd (WriteFrame st (data_frame pl))) (stream_of (dm_server d) cid)
      else stream_of (dm_server d) cid)"
  using assms
proof (induction cids arbitrary: d)
  case (Cons c cs)
  have "stream_of (dm_server (send_data sid data pl c d)) cid =
      (if cid = c then map_option (\<lambda>st. snd (WriteFrame st (data_frame pl))) (stream_of (dm_server d) c)
       else stream_of (dm_server d) cid)"
    by (simp add: send_data_def trace_def stream_of_BroadcastTo)
  with Cons show ?case by auto
qed simp

text \<open>The bytes one drained chunk adds to the stream of an attached client: nothing when the frame is too large.\<close>

definition fits :: "bytes \<Rightarrow> bytes \<Rightarrow> bool" where
  "fits sid data \<longleftrightarrow> 1 + length sid + length data \<le> MaxPayloadSize"

definition chunk_bytes :: "bytes \<Rightarrow> bytes \<Rightarrow> bytes" where
  "chunk_bytes sid data = encode_frame (data_frame (EncodeDataPayload sid data))"

lemma length_EncodeDataPayload [simp]: "length (EncodeDataPayload sid data) = 1 + length sid + length data"
  by (simp add: EncodeDataPayload_def)

lemma broadcast_data_stream:
  assumes "distinct cids"
  shows "stream_of (dm_server (broadcast_data env sid data cids d)) cid =
     (if cid \<in> set cids
      then map_option (\<lambda>st. snd (WriteFrame st (data_frame (EncodeDataPayload sid data)))) (stream_of (dm_server d) cid)
      else stream_of (dm_server d) cid)"
  using AcquireDataPayload_eq [of "de_pick env" "dm_pool d" sid data]
  by (auto simp: broadcast_data_def Let_def fold_send_stream [OF assms] split: prod.splits)

lemma broadcast_data_frame [simp]:
  "dm_attachments (broadcast_data env sid data cids d) = dm_attachments d"
  "dm_waiters (broadcast_data env sid data cids d) = dm_waiters d"
  "pipe_view (dm_svc (broadcast_data env sid data cids d)) = pipe_view (dm_svc d)"
  "svc_ok (dm_svc (broadcast_data env sid data cids d)) = svc_ok (dm_svc d)"
  "find_session (dm_svc (broadcast_data env sid data cids d)) = find_session (dm_svc d)"
  "dm_eventBus (broadcast_data env sid data cids d) = dm_eventBus d"
  "dm_cmdSvc (broadcast_data env sid data cids d) = dm_cmdSvc d"
  "dm_panicked (broadcast_data env sid data cids d) = dm_panicked d"
  "dm_forwards (broadcast_data env sid data cids d) = dm_forwards d"
  "dm_clientSession (broadcast_data env sid data cids d) = dm_clientSession d"
  "dm_nextWaiter (broadcast_data env sid data cids d) = dm_nextWaiter d"
  "dm_waiterObjs (broadcast_data env sid data cids d) = dm_waiterObjs d"
  by (simp_all add: broadcast_data_def Let_def split: prod.split)

section \<open>Flushing one session\<close>

lemma flush_attached_stream:
  assumes "svc_ok (dm_svc d)" and "distinct cids" and "cid \<notin> set cids"
  shows "stream_of (dm_server (flush_attached env sid cids d)) cid = stream_of (dm_server d) cid"
proof -
  obtain r d' where dr: "drain sid d = (r, d')" by fastforce
  from drain_frame [OF assms(1) dr] process_output_queues [of sid d' env, unfolded same_queues_def] assms(3)
  show ?thesis by (simp add: flush_attached_def dr broadcast_data_stream [OF assms(2)] split: option.split)
qed

lemma flush_attached_delivers:
  assumes "svc_ok (dm_svc d)" and "distinct cids" and "cid \<in> set cids"
    and "pipe_view (dm_svc d) sid = Some (a, p)" and "stream_of (dm_server d) cid = Some st" and "conn_healthy st"
  shows "\<exists>chunks q. p = concat chunks @ q \<and> pipe_view (dm_svc (flush_attached env sid cids d)) sid = Some (a, q) \<and>
     stream_of (dm_server (flush_attached env sid cids d)) cid =
       Some (st\<lparr>c_out := c_out st @ concat (map (chunk_bytes sid) (filter (fits sid) chunks))\<rparr>)"
proof -
  obtain r d' where dr: "drain sid d = (r, d')" by fastforce
  note f = drain_frame [OF assms(1) dr]
  note pq = process_output_queues [of sid d' env, unfolded same_queues_def]
  obtain q where q: "pipe_view (dm_svc d') sid = Some (a, q)" "p = (case r of None \<Rightarrow> [] | Some out \<Rightarrow> out) @ q"
    using drain_spec [OF assms(1,4) dr] by auto
  show ?thesis
  proof (cases r)
    case None
    with q f assms(5) show ?thesis
      by (intro exI [of _ "[]"] exI [of _ q]) (simp add: flush_attached_def dr)
  next
    case (Some out)
    have "stream_of (dm_server (flush_attached env sid cids d)) cid =
        Some (snd (WriteFrame st (data_frame (EncodeDataPayload sid out))))"
      using Some assms f pq by (simp add: flush_attached_def dr broadcast_data_stream)
    with Some q f pq assms(6) show ?thesis
      by (intro exI [of _ "[out]"] exI [of _ q])
        (simp add: flush_attached_def dr WriteFrame_healthy data_frame_def fits_def chunk_bytes_def)
  qed
qed

lemma flush_waited_other:
  assumes "svc_ok (dm_svc d)"
  shows "svc_ok (dm_svc (flush_waited env sid d))"
    and "sid' \<noteq> sid \<Longrightarrow> find_session (dm_svc (flush_waited env sid d)) sid' = find_session (dm_svc d) sid'"
    and "dm_server (flush_waited env sid d) = dm_server d"
    and "dm_attachments (flush_waited env sid d) = dm_attachments d"
    and "dm_waiters (flush_waited env sid d) = dm_waiters d"
proof -
  obtain r d' where dr: "drain sid d = (r, d')" by fastforce
  note f = drain_frame [OF assms(1) dr]
  note q = process_output_queues [of sid d' env, unfolded same_queues_def]
  show "svc_ok (dm_svc (flush_waited env sid d))"
    "sid' \<noteq> sid \<Longrightarrow> find_session (dm_svc (flush_waited env sid d)) sid' = find_session (dm_svc d) sid'"
    "dm_server (flush_waited env sid d) = dm_server d" "dm_attachments (flush_waited env sid d) = dm_attachments d"
    "dm_waiters (flush_waited env sid d) = dm_waiters d"
    using f q by (simp_all add: flush_waited_def dr split: option.split)
qed


section \<open>Flushing all sessions\<close>

text \<open>The attachment table: one non-empty set of clients per session.\<close>

definition att_ok :: "'e daemon \<Rightarrow> bool" where
  "att_ok d \<longleftrightarrow> gm_ok (dm_attachments d) \<and> (\<forall>(sid, cids) \<in> set (dm_attachments d). cids \<noteq> [] \<and> distinct cids)"

lemma flush_attached_local:
  assumes "svc_ok (dm_svc d)"
  shows "svc_ok (dm_svc (flush_attached env sid cids d))"
    and "sid' \<noteq> sid \<Longrightarrow> find_session (dm_svc (flush_attached env sid cids d)) sid' = find_session (dm_svc d) sid'"
    and "dm_attachments (flush_attached env sid cids d) = dm_attachments d"
    and "dm_waiters (flush_attached env sid cids d) = dm_waiters d"
proof -
  obtain r d' where dr: "drain sid d = (r, d')" by fastforce
  note f = drain_frame [OF assms(1) dr]
  note q = process_output_queues [of sid d' env, unfolded same_queues_def]
  show "svc_ok (dm_svc (flush_attached env sid cids d))"
    "sid' \<noteq> sid \<Longrightarrow> find_session (dm_svc (flush_attached env sid cids d)) sid' = find_session (dm_svc d) sid'"
    "dm_attachments (flush_attached env sid cids d) = dm_attachments d"
    "dm_waiters (flush_attached env sid cids d) = dm_waiters d"
    using f q by (simp_all add: flush_attached_def dr split: option.split)
qed

interpretation flushing: session_local "\<lambda>d. svc_ok (dm_svc d)" "\<lambda>d. find_session (dm_svc d)" "flush_attached env"
  by unfold_locales (simp_all add: flush_attached_local)

interpretation waited: session_local "\<lambda>d. svc_ok (dm_svc d)" "\<lambda>d. find_session (dm_svc d)"
  "\<lambda>sid (_ :: unit). flush_waited env sid"
  by unfold_locales (simp_all add: flush_waited_other)

lemma fold_waited_eq:
  "fold (flush_waited env) sids d = fold (\<lambda>(sid, u). flush_waited env sid) (map (\<lambda>s. (s, ())) sids) d"
  by (simp add: fold_map comp_def)

lemma fold_waited_frame:
  "svc_ok (dm_svc d) \<Longrightarrow> dm_server (fold (flush_waited env) sids d) = dm_server d \<and>
     dm_attachments (fold (flush_waited env) sids d) = dm_attachments d \<and>
     dm_waiters (fold (flush_waited env) sids d) = dm_waiters d"
  by (induction sids arbitrary: d) (simp_all add: flush_waited_other)

lemma fold_attached_frame:
  "svc_ok (dm_svc d) \<Longrightarrow>
     dm_attachments (fold (\<lambda>(sid, cids). flush_attached env sid cids) xs d) = dm_attachments d \<and>
     dm_waiters (fold (\<lambda>(sid, cids). flush_attached env sid cids) xs d) = dm_waiters d"
  by (induction xs arbitrary: d) (auto simp: flush_attached_local)

lemma fold_attached_stream:
  "svc_ok (dm_svc d) \<Longrightarrow> \<forall>(sid, cids) \<in> set xs. distinct cids \<and> cid \<notin> set cids \<Longrightarrow>
     stream_of (dm_server (fold (\<lambda>(sid, cids). flush_attached env sid cids) xs d)) cid = stream_of (dm_server d) cid"
  by (induction xs arbitrary: d) (auto simp: flush_attached_stream flush_attached_local)

lemma waiter_sessions_attached: "gm_get sessions sid \<noteq> None \<Longrightarrow> sid \<notin> set (waiter_sessions d sessions)"
  by (auto simp: waiter_sessions_def)

lemma flushOutput_frame:
  assumes "svc_ok (dm_svc d)"
  shows "svc_ok (dm_svc (flushOutput env d))" and "dm_attachments (flushOutput env d) = dm_attachments d"
    and "dm_waiters (flushOutput env d) = dm_waiters d"
proof -
  let ?d1 = "fold (\<lambda>(sid, cids). flush_attached env sid cids) (dm_attachments d) d"
  have ok: "svc_ok (dm_svc ?d1)" using flushing.fold_ok [of d env "dm_attachments d"] assms by simp
  show "svc_ok (dm_svc (flushOutput env d))"
    unfolding flushOutput_def Let_def fold_waited_eq using waited.fold_ok ok by blast
  show "dm_attachments (flushOutput env d) = dm_attachments d" "dm_waiters (flushOutput env d) = dm_waiters d"
    using fold_waited_frame [OF ok] fold_attached_frame [OF assms] by (simp_all add: flushOutput_def Let_def)
qed

lemma flushOutput_other:
  assumes "svc_ok (dm_svc d)" and "sid \<notin> fst ` set (dm_attachments d)" and "waiters_of d sid = []" and "gm_ok (dm_waiters d)"
  shows "find_session (dm_svc (flushOutput env d)) sid = find_session (dm_svc d) sid"
proof -
  let ?d1 = "fold (\<lambda>(sid, cids). flush_attached env sid cids) (dm_attachments d) d"
  have ok: "svc_ok (dm_svc ?d1)" using flushing.fold_ok [of d env "dm_attachments d"] assms by simp
  have w: "dm_waiters ?d1 = dm_waiters d" using fold_attached_frame [OF assms(1)] by simp
  have "sid \<notin> set (waiter_sessions ?d1 (dm_attachments d))"
    using assms(3,4) by (auto simp: waiter_sessions_def waiters_of_def w gm_get_iff_mem [symmetric] split: option.splits)
  then have "find_session (dm_svc (flushOutput env d)) sid = find_session (dm_svc ?d1) sid"
    unfolding flushOutput_def Let_def fold_waited_eq by (intro waited.fold_other) (use ok in \<open>auto simp: image_iff\<close>)
  also have "\<dots> = find_session (dm_svc d) sid" using flushing.fold_other [of d sid "dm_attachments d" env] assms by simp
  finally show ?thesis .
qed

text \<open>The clients of a session only appear in its own entry of the attachment table.\<close>

definition attached_only :: "'e daemon \<Rightarrow> bytes \<Rightarrow> bytes \<Rightarrow> bool" where
  "attached_only d cid sid \<longleftrightarrow>
     (\<forall>(sid', cids) \<in> set (dm_attachments d). cid \<in> set cids \<longleftrightarrow> sid' = sid) \<and> gm_get (dm_attachments d) sid \<noteq> None"

lemma flushOutput_delivers:
  assumes ok: "svc_ok (dm_svc d)" and att: "att_ok d" and only: "attached_only d cid sid"
    and v: "pipe_view (dm_svc d) sid = Some (a, p)" and st: "stream_of (dm_server d) cid = Some st" "conn_healthy st"
  shows "\<exists>chunks q. p = concat chunks @ q \<and> pipe_view (dm_svc (flushOutput env d)) sid = Some (a, q) \<and>
     stream_of (dm_server (flushOutput env d)) cid =
       Some (st\<lparr>c_out := c_out st @ concat (map (chunk_bytes sid) (filter (fits sid) chunks))\<rparr>)"
proof -
  let ?F = "\<lambda>(sid, cids). flush_attached env sid cids"
  obtain cids where g: "gm_get (dm_attachments d) sid = Some cids" using only by (auto simp: attached_only_def)
  then have "(sid, cids) \<in> set (dm_attachments d)" using att by (simp add: att_ok_def gm_get_iff_mem)
  then obtain xs ys where sp: "dm_attachments d = xs @ (sid, cids) # ys" by (meson split_list)
  have others: "sid \<notin> fst ` set xs" "sid \<notin> fst ` set ys" using att by (auto simp: att_ok_def gm_ok_def sp)
  have dist: "distinct cids" and c: "cid \<in> set cids"
    using att only by (auto simp: att_ok_def attached_only_def sp)
  have rest: "\<forall>(s, cs) \<in> set (xs @ ys). distinct cs \<and> cid \<notin> set cs"
  proof clarify
    fix s cs assume m: "(s, cs) \<in> set (xs @ ys)"
    then have "s \<noteq> sid" using others by force
    moreover have "cid \<in> set cs \<longleftrightarrow> s = sid" using only m by (force simp: attached_only_def sp)
    moreover have "distinct cs" using att m by (force simp: att_ok_def sp)
    ultimately show "distinct cs \<and> cid \<notin> set cs" by simp
  qed
  let ?d1 = "fold ?F xs d" and ?d2 = "flush_attached env sid cids (fold ?F xs d)"
  have ok1: "svc_ok (dm_svc ?d1)" using flushing.fold_ok ok by blast
  have "find_session (dm_svc ?d1) sid = find_session (dm_svc d) sid"
    using flushing.fold_other [of d sid xs env] ok others(1) by simp
  then have v1: "pipe_view (dm_svc ?d1) sid = Some (a, p)" using v by (simp add: pipe_view_def)
  have s1: "stream_of (dm_server ?d1) cid = Some st" using fold_attached_stream [OF ok, of xs cid] rest st by auto
  obtain chunks q where 2: "p = concat chunks @ q" "pipe_view (dm_svc ?d2) sid = Some (a, q)"
      "stream_of (dm_server ?d2) cid = Some (st\<lparr>c_out := c_out st @ concat (map (chunk_bytes sid) (filter (fits sid) chunks))\<rparr>)"
    using flush_attached_delivers [OF ok1 dist c v1 s1 st(2)] by blast
  have ok2: "svc_ok (dm_svc ?d2)" using ok1 by (rule flush_attached_local)
  let ?d3 = "fold ?F ys ?d2"
  have ok3: "svc_ok (dm_svc ?d3)" using flushing.fold_ok ok2 by blast
  have f3: "find_session (dm_svc ?d3) sid = find_session (dm_svc ?d2) sid"
    using flushing.fold_other [of ?d2 sid ys env] ok2 others(2) by simp
  have s3: "stream_of (dm_server ?d3) cid = stream_of (dm_server ?d2) cid" using fold_attached_stream [OF ok2, of ys cid] rest by auto
  have fo: "flushOutput env d = fold (flush_waited env) (waiter_sessions ?d3 (dm_attachments d)) ?d3"
    by (simp add: flushOutput_def Let_def sp)
  have "sid \<notin> set (waiter_sessions ?d3 (dm_attachments d))" using g by (simp add: waiter_sessions_attached)
  then have "find_session (dm_svc (flushOutput env d)) sid = find_session (dm_svc ?d3) sid"
    unfolding fo fold_waited_eq by (intro waited.fold_other) (use ok3 in \<open>auto simp: image_iff\<close>)
  moreover have "dm_server (flushOutput env d) = dm_server ?d3" unfolding fo using fold_waited_frame [OF ok3] by simp
  ultimately show ?thesis using 2 f3 s3 by (auto simp: pipe_view_def)
qed


lemma flushSession_cases:
  obtains "flushSessionOutput env sid d = flushOutput env d"
  | cids where "gm_get (dm_attachments d) sid = Some cids" "cids \<noteq> []"
      "flushSessionOutput env sid d = flush_attached env sid cids d"
proof (cases "gm_get (dm_attachments d) sid")
  case None
  then show ?thesis using that(1) by (simp add: flushSessionOutput_def)
next
  case (Some cids)
  consider "cids = []" | c where "cids = [c]" | "1 < length cids" by (cases cids rule: remdups_adj.cases) auto
  then show ?thesis
  proof cases
    case 1
    with Some show ?thesis using that(1) by (simp add: flushSessionOutput_def attached_to_def)
  next
    case 2
    with Some that show ?thesis by (cases "c = []") (auto simp: flushSessionOutput_def attached_to_def)
  next
    case 3
    then have "length cids \<noteq> 1" "cids \<noteq> []" by auto
    with 3 Some show ?thesis by (intro that(2) [of cids]) (auto simp: flushSessionOutput_def attached_to_def)
  qed
qed

lemma flushSession_frame:
  assumes "svc_ok (dm_svc d)"
  shows "svc_ok (dm_svc (flushSessionOutput env sid d))"
    and "dm_attachments (flushSessionOutput env sid d) = dm_attachments d"
    and "dm_waiters (flushSessionOutput env sid d) = dm_waiters d"
  by (rule flushSession_cases [of env sid d]; use assms in \<open>simp add: flushOutput_frame flush_attached_local\<close>)+

lemma flushSession_delivers:
  assumes ok: "svc_ok (dm_svc d)" and att: "att_ok d" and only: "attached_only d cid sid"
    and v: "pipe_view (dm_svc d) sid = Some (a, p)" and st: "stream_of (dm_server d) cid = Some st" "conn_healthy st"
  shows "\<exists>chunks q. p = concat chunks @ q \<and> pipe_view (dm_svc (flushSessionOutput env sid' d)) sid = Some (a, q) \<and>
     stream_of (dm_server (flushSessionOutput env sid' d)) cid =
       Some (st\<lparr>c_out := c_out st @ concat (map (chunk_bytes sid) (filter (fits sid) chunks))\<rparr>)"
proof (rule flushSession_cases [of env sid' d])
  assume "flushSessionOutput env sid' d = flushOutput env d"
  with flushOutput_delivers [OF assms] show ?thesis by simp
next
  fix cids assume g: "gm_get (dm_attachments d) sid' = Some cids" and e: "flushSessionOutput env sid' d = flush_attached env sid' cids d"
  have m: "(sid', cids) \<in> set (dm_attachments d)" using g att by (simp add: att_ok_def gm_get_iff_mem)
  have dist: "distinct cids" and c: "cid \<in> set cids \<longleftrightarrow> sid' = sid"
    using m att only by (force simp: att_ok_def attached_only_def)+
  show ?thesis
  proof (cases "sid' = sid")
    case True
    with flush_attached_delivers [OF ok dist _ v st] c e show ?thesis by simp
  next
    case False
    with flush_attached_local(2) [OF ok, of sid sid'] flush_attached_stream [OF ok dist, of cid] c v st e show ?thesis
      by (intro exI [of _ "[]"] exI [of _ p]) (auto simp: pipe_view_def)
  qed
qed

section \<open>Runs of the output path\<close>

text \<open>
  A run interleaves the goroutines of one session (with the callbacks they make) and turns of the
  broadcaster. \<open>run_out\<close> returns what was read from the terminal and the final daemon.
\<close>

datatype 'e out_ev = OPipe "'e denv" pipe_ev | OCast "'e denv" cast_arm

fun step_out :: "bytes \<Rightarrow> nat \<Rightarrow> 'e out_ev \<Rightarrow> 'e daemon \<Rightarrow> bytes \<times> 'e daemon" where
  "step_out sid a (OPipe env e) d =
     (if e = PDrain then ([], d)
      else (fst (step_pipe (de_ext env) sid a e (dm_svc d)),
            session_step env (\<lambda>s. snd (snd (step_pipe (de_ext env) sid a e s))) d))"
| "step_out sid a (OCast env arm) d =
     ([], case broadcastOutput_step env arm d of None \<Rightarrow> d | Some (go, d') \<Rightarrow> d')"

fun run_out :: "bytes \<Rightarrow> nat \<Rightarrow> 'e out_ev list \<Rightarrow> 'e daemon \<Rightarrow> bytes \<times> 'e daemon" where
  "run_out sid a [] d = ([], d)"
| "run_out sid a (e # es) d =
     (case step_out sid a e d of (rd, d1) \<Rightarrow> case run_out sid a es d1 of (rd', d2) \<Rightarrow> (rd @ rd', d2))"

lemma onExit_frame [simp, frame_simps]:
  "dm_server (onExit env sid code d) = dm_server d" "dm_svc (onExit env sid code d) = dm_svc d"
  "dm_attachments (onExit env sid code d) = dm_attachments d" "dm_waiters (onExit env sid code d) = dm_waiters d"
  "dm_cmdSvcRepo (onExit env sid code d) = dm_cmdSvcRepo d" "dm_clientSession (onExit env sid code d) = dm_clientSession d"
  "dm_forwards (onExit env sid code d) = dm_forwards d"
  "dm_nextWaiter (onExit env sid code d) = dm_nextWaiter d"
  by (simp_all add: onExit_def Let_def split: option.split prod.split)

lemma run_callback_frame [simp, frame_simps]:
  "dm_server (run_callback env c d) = dm_server d" "dm_svc (run_callback env c d) = dm_svc d"
  "dm_attachments (run_callback env c d) = dm_attachments d" "dm_waiters (run_callback env c d) = dm_waiters d"
  "dm_cmdSvcRepo (run_callback env c d) = dm_cmdSvcRepo d" "dm_clientSession (run_callback env c d) = dm_clientSession d"
  "dm_forwards (run_callback env c d) = dm_forwards d"
  "dm_nextWaiter (run_callback env c d) = dm_nextWaiter d"
  by (cases c; simp add: onDataReady_def)+

lemma fold_callback_frame [simp, frame_simps]:
  "dm_server (fold (run_callback env) cs d) = dm_server d" "dm_svc (fold (run_callback env) cs d) = dm_svc d"
  "dm_attachments (fold (run_callback env) cs d) = dm_attachments d" "dm_waiters (fold (run_callback env) cs d) = dm_waiters d"
  "dm_cmdSvcRepo (fold (run_callback env) cs d) = dm_cmdSvcRepo d"
  "dm_clientSession (fold (run_callback env) cs d) = dm_clientSession d"
  "dm_forwards (fold (run_callback env) cs d) = dm_forwards d"
  "dm_nextWaiter (fold (run_callback env) cs d) = dm_nextWaiter d"
  by (induction cs arbitrary: d) simp_all

lemma session_step_frame [simp, frame_simps]:
  "dm_server (session_step env g d) = dm_server d" "dm_svc (session_step env g d) = (g (dm_svc d))\<lparr>ss_callbacks := []\<rparr>"
  "dm_attachments (session_step env g d) = dm_attachments d" "dm_waiters (session_step env g d) = dm_waiters d"
  "dm_forwards (session_step env g d) = dm_forwards d"
  "dm_clientSession (session_step env g d) = dm_clientSession d"
  "dm_nextWaiter (session_step env g d) = dm_nextWaiter d"
  by (simp_all add: session_step_def Let_def)

lemma svc_ok_callbacks [simp]: "svc_ok (s\<lparr>ss_callbacks := cb\<rparr>) = svc_ok s"
  by (rule svc_ok_cong) simp_all

lemma att_ok_cong: "dm_attachments d' = dm_attachments d \<Longrightarrow> att_ok d' = att_ok d"
  by (simp add: att_ok_def)

lemma attached_only_cong: "dm_attachments d' = dm_attachments d \<Longrightarrow> attached_only d' = attached_only d"
  by (simp add: attached_only_def fun_eq_iff)

lemma step_out_delivers:
  assumes ok: "svc_ok (dm_svc d)" and att: "att_ok d" and only: "attached_only d cid sid"
    and v: "pipe_view (dm_svc d) sid = Some (a, p)" and st: "stream_of (dm_server d) cid = Some st" "conn_healthy st"
    and s: "step_out sid a e d = (rd, d')"
  shows "svc_ok (dm_svc d') \<and> dm_attachments d' = dm_attachments d \<and>
    (\<exists>chunks q. p @ rd = concat chunks @ q \<and> pipe_view (dm_svc d') sid = Some (a, q) \<and>
     stream_of (dm_server d') cid = Some (st\<lparr>c_out := c_out st @ concat (map (chunk_bytes sid) (filter (fits sid) chunks))\<rparr>))"
proof (cases e)
  case (OPipe env pe)
  obtain ms where ms: "find_session (dm_svc d) sid = Some (a, ms)" "p = pipeline ms" using v by (auto simp: pipe_view_def)
  obtain rd' out s' where sp: "step_pipe (de_ext env) sid a pe (dm_svc d) = (rd', out, s')" by (rule prod_cases3)
  show ?thesis
  proof (cases "pe = PDrain")
    case True
    with OPipe s assms show ?thesis by (auto intro!: exI [of _ "[]"])
  next
    case False
    then have "out = []" using sp by (cases pe) auto
    moreover have "rd = rd'" "d' = session_step env (\<lambda>s. snd (snd (step_pipe (de_ext env) sid a pe s))) d"
      using OPipe s sp False by auto
    ultimately show ?thesis using step_pipe_bytes [OF ok ms(1) sp] sp st ms
      by (auto simp: pipe_view_def intro: exI [of _ "[]"])
  qed
next
  case (OCast env arm)
  have keep: ?thesis if "rd = []" "d' = d" using that assms by (auto intro!: exI [of _ "[]"])
  show ?thesis
  proof (cases arm)
    case CastDone
    with OCast s keep show ?thesis by (auto simp: broadcastOutput_step_def split: if_splits)
  next
    case CastReady
    show ?thesis
    proof (cases "dm_dataReady d")
      case Nil
      with CastReady OCast s keep show ?thesis by (simp add: broadcastOutput_step_def)
    next
      case (Cons i rest)
      let ?d0 = "d\<lparr>dm_dataReady := rest\<rparr>"
      have "svc_ok (dm_svc ?d0)" "att_ok ?d0" "attached_only ?d0 cid sid" using ok att only by (simp_all add: att_ok_def attached_only_def)
      note h = this flushSession_delivers [OF this, of a p st env i] flushSession_frame [OF this(1), of env i]
      with Cons CastReady OCast s v st show ?thesis by (auto simp: broadcastOutput_step_def)
    qed
  next
    case CastTick
    with flushOutput_delivers [OF ok att only v st, of env] flushOutput_frame [OF ok, of env] OCast s show ?thesis
      by (auto simp: broadcastOutput_step_def)
  qed
qed

lemma run_out_delivers:
  assumes "svc_ok (dm_svc d)" and "att_ok d" and "attached_only d cid sid"
    and "pipe_view (dm_svc d) sid = Some (a, p)" and "stream_of (dm_server d) cid = Some st" and "conn_healthy st"
    and "run_out sid a es d = (rd, d')"
  shows "\<exists>chunks q. p @ rd = concat chunks @ q \<and> pipe_view (dm_svc d') sid = Some (a, q) \<and>
     stream_of (dm_server d') cid = Some (st\<lparr>c_out := c_out st @ concat (map (chunk_bytes sid) (filter (fits sid) chunks))\<rparr>)"
  using assms
proof (induction es arbitrary: d p st rd)
  case (Cons e es)
  obtain rd1 d1 where s: "step_out sid a e d = (rd1, d1)" by fastforce
  obtain rd2 where r: "run_out sid a es d1 = (rd2, d')" and rd: "rd = rd1 @ rd2"
    using Cons.prems(7) s by (auto split: prod.splits)
  obtain c1 q1 where 1: "svc_ok (dm_svc d1)" "dm_attachments d1 = dm_attachments d" "p @ rd1 = concat c1 @ q1"
      "pipe_view (dm_svc d1) sid = Some (a, q1)"
      "stream_of (dm_server d1) cid = Some (st\<lparr>c_out := c_out st @ concat (map (chunk_bytes sid) (filter (fits sid) c1))\<rparr>)"
    using step_out_delivers [OF Cons.prems(1-6) s] by blast
  have "att_ok d1" "attached_only d1 cid sid"
    using Cons.prems(2,3) att_ok_cong [OF 1(2)] attached_only_cong [OF 1(2)] by simp_all
  from Cons.IH [OF 1(1) this 1(4,5) _ r] Cons.prems(6) obtain c2 q2 where
    2: "q1 @ rd2 = concat c2 @ q2" "pipe_view (dm_svc d') sid = Some (a, q2)"
      "stream_of (dm_server d') cid = Some (st\<lparr>c_out := c_out st @ concat (map (chunk_bytes sid) (filter (fits sid) c1))
          @ concat (map (chunk_bytes sid) (filter (fits sid) c2))\<rparr>)"
    by auto
  have "p @ rd = concat (c1 @ c2) @ q2" using 1(3) 2(1) rd by (metis append.assoc concat_append)
  with 2 show ?case by (intro exI [of _ "c1 @ c2"] exI [of _ q2]) simp
qed (auto intro!: exI [of _ "[]"])


fun cast_run :: "('e denv \<times> cast_arm) list \<Rightarrow> 'e daemon \<Rightarrow> 'e daemon" where
  "cast_run [] d = d"
| "cast_run ((env, arm) # es) d =
     cast_run es (case broadcastOutput_step env arm d of None \<Rightarrow> d | Some (go, d') \<Rightarrow> d')"

text \<open>A session nobody watches: no client is attached to it and no waiter is registered on it.\<close>

definition unattended :: "'e daemon \<Rightarrow> bytes \<Rightarrow> bool" where
  "unattended d sid \<longleftrightarrow> sid \<notin> fst ` set (dm_attachments d) \<and> waiters_of d sid = []"

lemma flushSession_other:
  assumes "svc_ok (dm_svc d)" and "unattended d sid" and "gm_ok (dm_waiters d)"
  shows "find_session (dm_svc (flushSessionOutput env sid' d)) sid = find_session (dm_svc d) sid"
proof (rule flushSession_cases [of env sid' d])
  assume "flushSessionOutput env sid' d = flushOutput env d"
  with flushOutput_other [of d sid env] assms show ?thesis by (simp add: unattended_def)
next
  fix cids assume g: "gm_get (dm_attachments d) sid' = Some cids"
    and e: "flushSessionOutput env sid' d = flush_attached env sid' cids d"
  have "sid \<noteq> sid'" using gm_get_in_keys [OF g] assms(2) by (auto simp: unattended_def)
  with flush_attached_local(2) [OF assms(1)] e show ?thesis by simp
qed

lemma cast_step_other:
  assumes "svc_ok (dm_svc d)" and "unattended d sid" and "gm_ok (dm_waiters d)"
    and "broadcastOutput_step env arm d = Some (go, d')"
  shows "svc_ok (dm_svc d')" and "unattended d' sid" and "gm_ok (dm_waiters d')"
    and "find_session (dm_svc d') sid = find_session (dm_svc d) sid"
proof -
  have r: "svc_ok (dm_svc (d\<lparr>dm_dataReady := rest\<rparr>))" "unattended (d\<lparr>dm_dataReady := rest\<rparr>) sid"
    "gm_ok (dm_waiters (d\<lparr>dm_dataReady := rest\<rparr>))" for rest
    using assms by (simp_all add: unattended_def waiters_of_def)
  have "svc_ok (dm_svc d') \<and> dm_attachments d' = dm_attachments d \<and> dm_waiters d' = dm_waiters d \<and>
      find_session (dm_svc d') sid = find_session (dm_svc d) sid"
    using assms(4) flushOutput_frame [OF assms(1)] flushOutput_other [of d sid env] assms(1-3)
      flushSession_frame [OF r(1)] flushSession_other [OF r]
    by (auto simp: broadcastOutput_step_def unattended_def split: cast_arm.splits if_splits list.splits)
  then show "svc_ok (dm_svc d')" "unattended d' sid" "gm_ok (dm_waiters d')"
    "find_session (dm_svc d') sid = find_session (dm_svc d) sid"
    using assms by (simp_all add: unattended_def waiters_of_def)
qed

lemma cast_run_other:
  assumes "svc_ok (dm_svc d)" and "unattended d sid" and "gm_ok (dm_waiters d)"
  shows "find_session (dm_svc (cast_run es d)) sid = find_session (dm_svc d) sid"
  using assms
proof (induction es d rule: cast_run.induct)
  case (2 env arm es d)
  show ?case
  proof (cases "broadcastOutput_step env arm d")
    case None
    with 2 show ?thesis by simp
  next
    case (Some r)
    obtain go d' where r: "r = (go, d')" by (cases r)
    note h = cast_step_other [OF 2(2-4) Some [unfolded r]]
    have "(case broadcastOutput_step env arm d of None \<Rightarrow> d | Some (go, d') \<Rightarrow> d') = d'" by (simp add: Some r)
    with 2(1) h show ?thesis by simp
  qed
qed simp

section \<open>A sample daemon\<close>

definition sample_wire :: wire where
  "sample_wire =
     \<lparr>wj_create = (\<lambda>p. Some \<lparr>cq_ID = p, cq_Shell = ''sh'', cq_Args = [], cq_Cols = 0, cq_Rows = 0, cq_Cwd = [], cq_Env = []\<rparr>),
      wj_sid = Some, wj_list = id, wj_resize = (\<lambda>p. None), wj_subscribe = Some, wj_metaset = (\<lambda>p. None),
      wj_metaget = (\<lambda>p. None),
      wj_env = (\<lambda>p. Some \<lparr>ef_SessionID = p, ef_Env = [(''X'', ''y'')]\<rparr>),
      wj_exec = (\<lambda>p. None), wj_execsync = (\<lambda>p. None),
      wj_wait = (\<lambda>p. Some \<lparr>wq_SessionID = p, wq_Mode = ''exit'', wq_Timeout = 0, wq_IdleFor = 0, wq_Pattern = []\<rparr>),
      wj_record = (\<lambda>p. None), wj_killprefix = Some, wj_scrollback = (\<lambda>p. None),
      wj_history = (\<lambda>p. Some \<lparr>hq_SessionID = p, hq_Format = ''ansi'', hq_Lines = 0\<rparr>),
      wj_resp = (\<lambda>r. case r of RError m \<Rightarrow> m | _ \<Rightarrow> ''{}''), wj_event = (\<lambda>e. Some (be_SessionID e))\<rparr>"

definition sample_denv :: "unit denv" where
  "sample_denv =
     \<lparr>de_ext = sample_ext, de_wire = sample_wire, de_meta = \<lparr>mj_enc = (\<lambda>m. []), mj_dec = (\<lambda>d. None)\<rparr>,
      de_rec = \<lparr>rj_header = (\<lambda>c r t. []), rj_event = (\<lambda>t d. d)\<rparr>,
      de_cmd = \<lparr>cj_enc = (\<lambda>f. []), cj_dec = (\<lambda>d. None)\<rparr>,
      de_pidj = \<lparr>pj_enc = (\<lambda>i. []), pj_dec = (\<lambda>d. None)\<rparr>, de_getpid = 1, de_url = Some, de_stat = (\<lambda>p. False), de_stamp = (\<lambda>t. []),
      de_oserr = (\<lambda>p. []), de_now = int, de_pick = 0\<rparr>"

definition sample_client :: "bytes \<Rightarrow> Client" where
  "sample_client cid =
     \<lparr>cl_ID = cid, cl_Control = Some (open_conn []), cl_Stream = Some (open_conn []),
      cl_Creds = \<lparr>pc_UID = 0, pc_PID = 1\<rparr>, cl_ConnectedAt = 0, cl_LastHeartbeatAck = 0, cl_MissedHeartbeats = 0\<rparr>"

definition sample_daemon :: "unit daemon" where
  "sample_daemon =
     (NewDaemon ((NewServer [] [])\<lparr>sv_clients := [(''c'', sample_client ''c'')]\<rparr>) sample_svc
        (newCmdRepository False) empty_fs [])
       \<lparr>dm_attachments := [(''a'', [''c''])], dm_clientSession := [(''c'', ''a'')]\<rparr>"

lemma sample_daemon_simps [simp]:
  "dm_svc sample_daemon = sample_svc" "dm_attachments sample_daemon = [(''a'', [''c''])]" "dm_waiters sample_daemon = []"
  by (simp_all add: sample_daemon_def NewDaemon_def)

lemma sample_daemon_att: "att_ok sample_daemon" "attached_only sample_daemon ''c'' ''a''"
  by (simp_all add: att_ok_def attached_only_def gm_ok_def gm_get_Cons)

lemma sample_stream: "stream_of (dm_server sample_daemon) ''c'' = Some (open_conn [])" "conn_healthy (open_conn [])"
  by (simp_all add: stream_of_def sample_daemon_def NewDaemon_def gm_get_Cons sample_client_def conn_healthy_def open_conn_def)

section \<open>Properties\<close>

text \<open>(C1) End to end: for a client attached to a session (and to no other), with a healthy stream, every
interleaving of the session's read loop, batcher and emulator with the broadcaster's turns sends
the client the session's output in order, without gaps or duplicates, as data frames; what is
missing is what is still queued. The only bytes that never arrive are those of drains whose
frame would exceed the maximum payload: the refused frame is dropped silently.\<close>

theorem attached_client_sees_output:
  assumes "svc_ok (dm_svc d)" and "att_ok d" and "attached_only d cid sid"
    and "find_session (dm_svc d) sid = Some (a, ms)"
    and "stream_of (dm_server d) cid = Some st" and "conn_healthy st"
    and "run_out sid a evs d = (rd, d')"
  shows "\<exists>chunks.
     (case find_session (dm_svc d') sid of
        None \<Rightarrow> False
      | Some (b, ms') \<Rightarrow> b = a \<and> pipeline ms @ rd = concat chunks @ pipeline ms') \<and>
     stream_of (dm_server d') cid =
       Some (st\<lparr>c_out := c_out st @ concat (map (chunk_bytes sid) (filter (fits sid) chunks))\<rparr>)"
proof -
  have "pipe_view (dm_svc d) sid = Some (a, pipeline ms)" using assms(4) by (simp add: pipe_view_def)
  from run_out_delivers [OF assms(1-3) this assms(5-7)] show ?thesis
    by (fastforce simp: pipe_view_def)
qed

theorem attached_client_sees_output_witness:
  "case run_out ''a'' 0 [OPipe sample_denv (PRead ''hi'' False 2), OPipe sample_denv (PBatch SelTick),
       OCast sample_denv CastReady, OCast sample_denv CastTick] sample_daemon of
     (rd, d') \<Rightarrow> \<exists>chunks ms'. find_session (dm_svc d') ''a'' = Some (0, ms') \<and> rd = concat chunks @ pipeline ms' \<and>
        map_option c_out (stream_of (dm_server d') ''c'') = Some (concat (map (chunk_bytes ''a'') (filter (fits ''a'') chunks)))"
proof -
  obtain ms where ms: "find_session sample_svc ''a'' = Some (0, ms)" "pipeline ms = []" using sample_find by auto
  obtain rd d' where r: "run_out ''a'' 0 [OPipe sample_denv (PRead ''hi'' False 2), OPipe sample_denv (PBatch SelTick),
       OCast sample_denv CastReady, OCast sample_denv CastTick] sample_daemon = (rd, d')" by fastforce
  have "\<exists>chunks. (case find_session (dm_svc d') ''a'' of None \<Rightarrow> False
        | Some (b, ms') \<Rightarrow> b = 0 \<and> pipeline ms @ rd = concat chunks @ pipeline ms') \<and>
     stream_of (dm_server d') ''c'' = Some ((open_conn [])\<lparr>c_out := c_out (open_conn []) @
        concat (map (chunk_bytes ''a'') (filter (fits ''a'') chunks))\<rparr>)"
    by (rule attached_client_sees_output [OF _ sample_daemon_att _ sample_stream r])
      (simp_all add: sample_svc_ok ms)
  with r ms(2) show ?thesis by (fastforce simp: open_conn_def split: option.splits)
qed




end
