(* ===== verification/DaemonScan.thy ===== *)
theory DaemonScan
  imports DaemonOutput
begin

text \<open>
  What the scanners and notifiers of the output path do: the row numbers given to command markers,
  absence of panics, and the wake-up of waiters.
\<close>

section \<open>Row numbers\<close>

lemma gm_put_put [simp]: "gm_put k v (gm_put k w m) = gm_put k v m"
  by (simp add: gm_put_def)

lemma gm_put_triv: "gm_get m k = Some v \<Longrightarrow> gm_put k v m = m"
  by (simp add: gm_put_def gm_get_def update_triv)

lemma wrap64_add: "wrap64 (wrap64 x + y) = wrap64 (x + y)"
  by (simp add: wrap64_def mod_simps algebra_simps)

text \<open>
  The reference: no cursor and no running counter; a marker's row is the starting count plus all
  newlines before it in the chunk.
\<close>

definition ref_osc :: "'e denv \<Rightarrow> bytes \<Rightarrow> int \<Rightarrow> bytes \<Rightarrow> OSCResult \<Rightarrow> 'e daemon \<Rightarrow> 'e daemon" where
  "ref_osc env sid base data o' d =
     (case osc_Type o' of
        OSCTypeCwd \<Rightarrow>
          publishEvent (mk_event CwdChanged sid [(''cwd'', VStr (osc_Value o'))])
            (d\<lparr>dm_svc := snd (sm_MetaSet sid ''cwd'' (osc_Value o') (dm_svc d))\<rparr>)
      | OSCTypeNotification \<Rightarrow> publishEvent (mk_event Notification sid [(''body'', VStr (osc_Value o'))]) d
      | OSCTypeShellReady \<Rightarrow> publishEvent (mk_event ShellReady sid []) d
      | OSCType133 \<Rightarrow> cmd_marker env sid (osc_Value o') (wrap64 (base + int (count_byte NL (take (osc_Offset o') data)))) d)"

text \<open>Nothing but the counter itself reads or writes the line counters.\<close>

lemma lines_last:
  "d\<lparr>dm_lineCounters := L, dm_svc := s\<rparr> = d\<lparr>dm_svc := s, dm_lineCounters := L\<rparr>"
  "d\<lparr>dm_lineCounters := L, dm_cmdSvc := c\<rparr> = d\<lparr>dm_cmdSvc := c, dm_lineCounters := L\<rparr>"
  by simp_all

lemma publishEvent_lines: "publishEvent e (d\<lparr>dm_lineCounters := L\<rparr>) = (publishEvent e d)\<lparr>dm_lineCounters := L\<rparr>"
  by (simp add: publishEvent_def split: option.split)

lemma fold_publishCmd_lines:
  "fold (publishCmdEvent sid) evs (d\<lparr>dm_lineCounters := L\<rparr>) = (fold (publishCmdEvent sid) evs d)\<lparr>dm_lineCounters := L\<rparr>"
  by (induction evs arbitrary: d) (simp_all add: publishCmdEvent_def publishEvent_lines)

lemma cmd_marker_lines: "cmd_marker env sid v row (d\<lparr>dm_lineCounters := L\<rparr>) = (cmd_marker env sid v row d)\<lparr>dm_lineCounters := L\<rparr>"
  by (simp add: cmd_marker_def fold_publishCmd_lines lines_last(2) split: option.split sum.split prod.split)

lemma ref_osc_lines [simp]:
  "dm_lineCounters (ref_osc env sid base data o' d) = dm_lineCounters d"
  by (simp add: ref_osc_def split: OSCType.split)

text \<open>One step keeps the counter at the newlines before the cursor.\<close>

lemma osc_step_ref:
  assumes "cur \<le> osc_Offset o'" and "osc_Offset o' \<le> length data"
  shows "\<exists>cur'. cur \<le> cur' \<and> cur' \<le> osc_Offset o' \<and>
     osc_step env sid data o' (cur, d\<lparr>dm_lineCounters := gm_put sid (wrap64 (base + int (count_byte NL (take cur data)))) L\<rparr>)
     = (cur', (ref_osc env sid base data o' d)
              \<lparr>dm_lineCounters := gm_put sid (wrap64 (base + int (count_byte NL (take cur' data)))) L\<rparr>)"
proof (cases "osc_Type o' = OSCType133")
  case True
  let ?o = "osc_Offset o'"
  have "count_byte NL (take cur data) + count_byte NL (take (?o - cur) (drop cur data)) = count_byte NL (take ?o data)"
    using assms(1) by (metis count_byte_append le_add_diff_inverse take_add)
  then have row: "wrap64 (wrap64 (base + int (count_byte NL (take cur data))) + int (count_byte NL (take (?o - cur) (drop cur data))))
      = wrap64 (base + int (count_byte NL (take ?o data)))"
    by (simp add: wrap64_add add.assoc flip: of_nat_add)
  show ?thesis
    using True assms
    by (intro exI [of _ ?o]) (simp add: osc_step_def ref_osc_def Let_def counter_add_def counter_row_def row cmd_marker_lines)
next
  case False
  then show ?thesis using assms
    by (intro exI [of _ cur]) (cases "osc_Type o'"; simp add: osc_step_def ref_osc_def publishEvent_lines lines_last(1))
qed

lemma osc_fold_ref:
  assumes "\<forall>r \<in> set rs. cur \<le> osc_Offset r \<and> osc_Offset r \<le> length data"
    and "sorted_wrt (\<lambda>r r'. osc_Offset r < osc_Offset r') rs" and "cur \<le> length data"
  shows "\<exists>cur'. cur' \<le> length data \<and>
     fold (osc_step env sid data) rs (cur, d\<lparr>dm_lineCounters := gm_put sid (wrap64 (base + int (count_byte NL (take cur data)))) L\<rparr>)
     = (cur', (fold (ref_osc env sid base data) rs d)
              \<lparr>dm_lineCounters := gm_put sid (wrap64 (base + int (count_byte NL (take cur' data)))) L\<rparr>)"
  using assms
proof (induction rs arbitrary: cur d)
  case (Cons r rs)
  obtain c1 where 1: "cur \<le> c1" "c1 \<le> osc_Offset r" and s: "osc_step env sid data r
      (cur, d\<lparr>dm_lineCounters := gm_put sid (wrap64 (base + int (count_byte NL (take cur data)))) L\<rparr>) =
      (c1, (ref_osc env sid base data r d)\<lparr>dm_lineCounters := gm_put sid (wrap64 (base + int (count_byte NL (take c1 data)))) L\<rparr>)"
    using osc_step_ref [of cur r data env sid base L d] Cons.prems(1) by auto
  have "\<forall>r' \<in> set rs. c1 \<le> osc_Offset r' \<and> osc_Offset r' \<le> length data"
    using Cons.prems(1,2) 1(2) by fastforce
  moreover have "c1 \<le> length data" using 1(2) Cons.prems(1) by auto
  ultimately show ?case using Cons.IH [of c1 "ref_osc env sid base data r d"] Cons.prems(2) by (simp add: s)
next
  case Nil
  then show ?case by (intro exI [of _ cur]) simp
qed

lemma ParseOSC_bounds:
  assumes "r \<in> set (ParseOSC url data)"
  shows "osc_Offset r \<le> length data"
proof (rule ccontr)
  assume "\<not> ?thesis"
  then have "drop (osc_Offset r) data = []" by simp
  moreover have "prefix oscIntroducer (drop (osc_Offset r) data)"
    using parse_osc_offsets [of 0 data url] assms by (auto simp: ParseOSC_def list_all_iff)
  ultimately show False by (simp add: oscIntroducer_def)
qed

lemma ParseOSC_sorted: "sorted_wrt (\<lambda>r r'. osc_Offset r < osc_Offset r') (ParseOSC url data)"
  using parse_osc_offsets [of 0 data url] by (simp add: ParseOSC_def)

section \<open>No panic\<close>

text \<open>
  The bus is open while the daemon serves, and every forwarding goroutine has a subscription that
  exists; the command service has well-formed trackers.
\<close>

fun bus_serves :: "Bus option \<Rightarrow> (nat \<times> bytes \<times> bytes) list \<Rightarrow> bool" where
  "bus_serves None fws = (fws = [])"
| "bus_serves (Some b) fws =
     (\<not> bus_closed b \<and> bus_inv (b, []) \<and> list_all (\<lambda>fw. gm_get (bus_store b) (fst fw) \<noteq> None) fws)"

definition calm :: "'e daemon \<Rightarrow> bool" where
  "calm d \<longleftrightarrow> \<not> dm_panicked d \<and>
     bus_serves (dm_eventBus d) (dm_forwards d) \<and>
     (case dm_cmdSvc d of None \<Rightarrow> True | Some s \<Rightarrow> cl_service_ok s)"

lemma calm_cong:
  "dm_panicked d' = dm_panicked d \<Longrightarrow> dm_eventBus d' = dm_eventBus d \<Longrightarrow> dm_forwards d' = dm_forwards d \<Longrightarrow>
   dm_cmdSvc d' = dm_cmdSvc d \<Longrightarrow> calm d' = calm d"
  by (simp add: calm_def)

lemma bus_serves_publish:
  assumes "bus_serves (Some b) fws"
  shows "\<exists>b'. Publish e b = Some b' \<and> bus_serves (Some b') fws"
proof -
  have o: "\<not> bus_closed b" and inv: "bus_inv (b, [])" using assms by simp_all
  obtain b' where b': "Publish e b = Some b'" "bus_inv (b', [])"
    "\<forall>a. gm_get (bus_store b') a = (if a \<in> set (bus_subs b) then map_option (\<lambda>s. the (send_event e s)) (gm_get (bus_store b) a)
        else gm_get (bus_store b) a)"
    using Publish_spec [OF inv, of e] o by auto
  moreover have "\<not> bus_closed b'" using b'(1) o by (auto simp: Publish_def)
  ultimately show ?thesis using assms by (auto simp: list_all_iff)
qed

lemma calm_publish [inv_intros]:
  assumes "calm d"
  shows "calm (publishEvent e d)"
proof (cases "dm_eventBus d")
  case (Some b)
  with assms have "bus_serves (Some b) (dm_forwards d)" by (simp add: calm_def)
  from bus_serves_publish [OF this, of e] obtain b' where "Publish e b = Some b'" "bus_serves (Some b') (dm_forwards d)" by blast
  with assms Some show ?thesis by (simp add: calm_def publishEvent_def)
qed (use assms in \<open>simp add: publishEvent_def\<close>)

lemma calm_publish_cmds: "calm d \<Longrightarrow> calm (fold (publishCmdEvent sid) evs d)"
  by (induction evs arbitrary: d) (simp_all add: publishCmdEvent_def calm_publish)

lemma calm_marker [inv_intros]:
  assumes "calm d"
  shows "calm (cmd_marker env sid v row d)"
proof (cases "dm_cmdSvc d")
  case (Some s)
  with assms have "cl_service_ok s" by (simp add: calm_def)
  from HandleOSC_total [OF this, of sid "fst (parseOSC133Value v)" "snd (parseOSC133Value v)" row "de_now env"]
  obtain r where r: "HandleOSC s sid (fst (parseOSC133Value v)) (snd (parseOSC133Value v)) row (de_now env) = Some r"
    "\<And>eff s'. r = Inr (eff, s') \<Longrightarrow> cl_service_ok s'" by blast
  show ?thesis
  proof (cases r)
    case (Inr p)
    obtain eff s' where p: "p = (eff, s')" by (cases p)
    have "calm (d\<lparr>dm_cmdSvc := Some s'\<rparr>)" using assms r(2) Inr p by (simp add: calm_def)
    from calm_publish_cmds [OF this, of sid "dispatched eff"] show ?thesis
      by (simp add: cmd_marker_def Some r(1) Inr p calm_def)
  qed (simp add: cmd_marker_def Some r assms)
qed (simp add: cmd_marker_def assms)

lemma calm_osc_fold:
  assumes "calm d" and "\<forall>r \<in> set rs. cur \<le> osc_Offset r \<and> osc_Offset r \<le> length data"
    and "sorted_wrt (\<lambda>r r'. osc_Offset r < osc_Offset r') rs"
  shows "calm (snd (fold (osc_step env sid data) rs (cur, d)))"
  using assms
proof (induction rs arbitrary: cur d)
  case (Cons r rs)
  obtain c1 d1 where s: "osc_step env sid data r (cur, d) = (c1, d1)" by fastforce
  have add: "calm (counter_add sid n d)" for n using Cons.prems(1) by (subst calm_cong [of _ d]) simp_all
  have svc: "calm (d\<lparr>dm_svc := s'\<rparr>)" for s' using Cons.prems(1) by (simp add: calm_def)
  have "cur \<le> osc_Offset r" "osc_Offset r \<le> length data" using Cons.prems(2) by auto
  then have "c1 \<le> osc_Offset r \<and> calm d1"
    using s Cons.prems(1) add svc
    by (auto simp: osc_step_def Let_def intro: calm_publish calm_marker split: OSCType.splits option.splits)
  moreover have "\<forall>r' \<in> set rs. osc_Offset r \<le> osc_Offset r' \<and> osc_Offset r' \<le> length data"
    using Cons.prems(2,3) by fastforce
  ultimately show ?case using Cons.IH [of d1 c1] Cons.prems(3) s by fastforce
qed simp

lemma calm_scanOSC [inv_intros]:
  assumes "calm d"
  shows "calm (scanOSC env sid data d)"
proof -
  obtain c1 d1 where f: "fold (osc_step env sid data) (ParseOSC (de_url env) data) (0, d) = (c1, d1)" by fastforce
  have "calm d1"
    using calm_osc_fold [OF assms, of "ParseOSC (de_url env) data" 0 data env sid] ParseOSC_bounds ParseOSC_sorted f
    by fastforce
  moreover have "calm (counter_add sid n d1) = calm d1" for n by (rule calm_cong) simp_all
  ultimately show ?thesis using assms by (simp add: scanOSC_def Let_def f)
qed

lemma calm_scanDA [inv_intros]: "calm d \<Longrightarrow> calm (scanDA sid data d)"
  by (simp add: scanDA_def Let_def calm_def)

lemma calm_tee [inv_intros]: "calm d \<Longrightarrow> calm (teeRecording env sid data d)"
  by (auto simp: teeRecording_def calm_def [of "_\<lparr>dm_recordings := _, dm_fs := _\<rparr>"] simp flip: calm_def
      intro!: calm_publish split: option.split prod.split)

lemma calm_process [inv_intros]:
  assumes "calm d"
  shows "calm (process_output env sid data d)"
proof -
  have "calm (teeRecording env sid data (persistOutput sid data (scanDA sid data (scanOSC env sid data d))))"
    using assms by (intro calm_tee) (simp add: calm_cong [of "persistOutput _ _ _"] calm_scanDA calm_scanOSC)
  then show ?thesis by (simp add: process_output_def calm_cong [of "notifyOutputWaiters _ _ _ _"])
qed

lemma calm_drain: "drain sid d = (r, d') \<Longrightarrow> calm d' = calm d"
  by (rule calm_cong) (auto simp: drain_def split: prod.splits)

lemma calm_flush [inv_intros]:
  assumes "calm d"
  shows "calm (flush_attached env sid cids d)" and "calm (flush_waited env sid d)"
proof -
  obtain r d' where dr: "drain sid d = (r, d')" by fastforce
  have "calm d'" using calm_drain [OF dr] assms by simp
  then show "calm (flush_attached env sid cids d)" "calm (flush_waited env sid d)"
    by (auto simp: flush_attached_def flush_waited_def dr calm_cong [of "broadcast_data _ _ _ _ _"] calm_process
        split: option.split)
qed

lemma calm_flushOutput [inv_intros]:
  assumes "calm d"
  shows "calm (flushOutput env d)"
proof -
  have 1: "calm e \<Longrightarrow> calm (fold (\<lambda>(sid, cids). flush_attached env sid cids) xs e)" for xs and e :: "'a daemon"
    by (induction xs arbitrary: e) (auto simp: calm_flush)
  have 2: "calm e \<Longrightarrow> calm (fold (flush_waited env) xs e)" for xs and e :: "'a daemon"
    by (induction xs arbitrary: e) (auto simp: calm_flush)
  show ?thesis unfolding flushOutput_def Let_def by (intro 1 2 assms)
qed

lemma calm_flushSession [inv_intros]: "calm d \<Longrightarrow> calm (flushSessionOutput env sid d)"
  by (rule flushSession_cases [of env sid d]) (simp_all add: calm_flushOutput calm_flush)

lemma calm_onExit [inv_intros]:
  assumes "calm d"
  shows "calm (onExit env sid code d)"
proof -
  let ?d1 = "closeRecording sid (persistSessionExit env sid code (notifyExitOnNonExitWaiters sid code (notifyExitWaiters sid code d)))"
  have "calm ?d1 = calm d" by (rule calm_cong) simp_all
  with assms have 2: "calm (?d1\<lparr>dm_cmdSvc := map_option (\<lambda>s. Unregister s sid) (dm_cmdSvc ?d1),
      dm_lineCounters := gm_del sid (dm_lineCounters ?d1)\<rparr>)"
    by (auto simp: calm_def Unregister_ok split: option.splits)
  have 3: "calm e \<Longrightarrow> calm (e\<lparr>dm_cmdRepo := r, dm_fs := f\<rparr>)" for e :: "'a daemon" and r f by (simp add: calm_def)
  show ?thesis unfolding onExit_def Let_def
    by (intro calm_publish) (use 2 3 [OF 2] in \<open>simp split: option.split prod.split\<close>)
qed

lemma calm_step_out:
  assumes "calm d"
  shows "calm (snd (step_out sid a e d))"
proof (cases e)
  case (OPipe env pe)
  have cb: "calm x \<Longrightarrow> calm (run_callback env c x)" for c and x :: "'a daemon"
    by (cases c) (simp_all add: calm_onExit onDataReady_def calm_cong [of "_\<lparr>dm_dataReady := _\<rparr>"])
  have "calm x \<Longrightarrow> calm (fold (run_callback env) cs x)" for cs and x :: "'a daemon"
    by (induction cs arbitrary: x) (simp_all add: cb)
  moreover have "calm (d\<lparr>dm_svc := s\<rparr>)" for s using assms by (simp add: calm_def)
  ultimately have "calm (session_step env g d)" for g by (simp add: session_step_def Let_def)
  with OPipe assms show ?thesis by simp
next
  case (OCast env arm)
  have "calm (d\<lparr>dm_dataReady := rest\<rparr>)" for rest using assms by (simp add: calm_def)
  with OCast assms show ?thesis
    by (auto simp: broadcastOutput_step_def calm_flushOutput calm_flushSession
        split: cast_arm.splits list.splits if_splits option.splits)
qed

lemma calm_run_out: "calm d \<Longrightarrow> calm (snd (run_out sid a es d))"
proof (induction es arbitrary: d)
  case (Cons e es)
  obtain rd1 d1 where s: "step_out sid a e d = (rd1, d1)" by fastforce
  have "calm d1" using calm_step_out [OF Cons.prems, of sid a e] s by simp
  from Cons.IH [OF this] show ?case by (simp add: s case_prod_beta)
qed simp

section \<open>Waiters\<close>

lemma fold_waiter_get:
  assumes "distinct ws"
  shows "gm_get (fold (\<lambda>n objs. case gm_get objs n of None \<Rightarrow> objs | Some w \<Rightarrow> gm_put n (f w) objs) ws objs) n =
     (if n \<in> set ws then map_option f (gm_get objs n) else gm_get objs n)"
  using assms
proof (induction ws arbitrary: objs)
  case (Cons k ws)
  have "gm_get (case gm_get objs k of None \<Rightarrow> objs | Some w \<Rightarrow> gm_put k (f w) objs) n =
      (if n = k then map_option f (gm_get objs k) else gm_get objs n)"
    by (auto split: option.split)
  with Cons show ?case by auto
qed simp

lemma each_waiter_get:
  "distinct (waiters_of d sid) \<Longrightarrow> gm_get (dm_waiterObjs (each_waiter f sid d)) n =
     (if n \<in> set (waiters_of d sid) then map_option f (gm_get (dm_waiterObjs d) n) else gm_get (dm_waiterObjs d) n)"
  by (simp add: each_waiter_def fold_waiter_get)

lemma waiters_of_each [simp]: "waiters_of (each_waiter f sid d) = waiters_of d"
  by (simp add: waiters_of_def fun_eq_iff)

definition exit_answer :: "bytes \<Rightarrow> int \<Rightarrow> waiter \<Rightarrow> waiter" where
  "exit_answer sid code w =
     (if w_mode w \<in> {''exit'', ''idle'', ''match''} then send_done (wait_resp sid (w_mode w) (Some code) False False) w else w)"

lemma notify_exit_get:
  assumes "distinct (waiters_of d sid)"
  shows "gm_get (dm_waiterObjs (notifyExitOnNonExitWaiters sid code (notifyExitWaiters sid code d))) n =
     (if n \<in> set (waiters_of d sid) then map_option (exit_answer sid code) (gm_get (dm_waiterObjs d) n)
      else gm_get (dm_waiterObjs d) n)"
  using assms
  by (cases "gm_get (dm_waiterObjs d) n")
    (auto simp: notifyExitOnNonExitWaiters_def notifyExitWaiters_def each_waiter_get exit_answer_def send_done_def)

section \<open>Properties\<close>

text \<open>(C31) The line counter that gives command markers their rows: a chunk with at least one recognised OSC
sequence is scanned exactly as if every marker's row were the count at the start of the chunk
plus the newlines before the marker, and afterwards the counter has grown by all newlines of the
chunk (in 64-bit arithmetic). A chunk without one changes nothing, so that its newlines are
never counted, against the comment that promises a cumulative count over all bytes scanned.\<close>

theorem scanOSC_rows:
  assumes "gm_get (dm_lineCounters d) sid = Some c" and "in_int64 c"
  shows "scanOSC env sid data d =
     (if ParseOSC (de_url env) data = [] then d
      else (fold (ref_osc env sid c data) (ParseOSC (de_url env) data) d)
             \<lparr>dm_lineCounters := gm_put sid (wrap64 (c + int (count_byte NL data))) (dm_lineCounters d)\<rparr>)"
proof (cases "ParseOSC (de_url env) data = []")
  case False
  let ?rs = "ParseOSC (de_url env) data" and ?L = "dm_lineCounters d"
  have d: "d\<lparr>dm_lineCounters := gm_put sid (wrap64 (c + int (count_byte NL (take 0 data)))) ?L\<rparr> = d"
    using assms by (simp add: wrap64_id gm_put_triv)
  obtain cur where cur: "cur \<le> length data" and f: "fold (osc_step env sid data) ?rs (0, d) =
      (cur, (fold (ref_osc env sid c data) ?rs d)\<lparr>dm_lineCounters := gm_put sid (wrap64 (c + int (count_byte NL (take cur data)))) ?L\<rparr>)"
    using osc_fold_ref [of ?rs 0 data env sid c ?L d, unfolded d] ParseOSC_bounds ParseOSC_sorted by fastforce
  have "count_byte NL (take cur data) + count_byte NL (drop cur data) = count_byte NL data"
    by (metis append_take_drop_id count_byte_append)
  then have "wrap64 (wrap64 (c + int (count_byte NL (take cur data))) + int (count_byte NL (drop cur data)))
      = wrap64 (c + int (count_byte NL data))"
    by (simp add: wrap64_add add.assoc flip: of_nat_add)
  with False f cur show ?thesis by (auto simp: scanOSC_def Let_def counter_add_def)
qed (simp add: scanOSC_def)

theorem scanOSC_rows_witness:
  "let d = sample_daemon\<lparr>dm_lineCounters := [(''a'', 5)]\<rparr>
   in scanOSC sample_denv ''a'' [NL] d = d \<and> count_byte NL [NL] = 1"
proof -
  have "ParseOSC (de_url sample_denv) [NL] = []"
    by (simp add: ParseOSC_def parse_osc.simps oscIntroducer_def index_of.simps NL_def ESC_def)
  then show ?thesis
    using scanOSC_rows [of "sample_daemon\<lparr>dm_lineCounters := [(''a'', 5)]\<rparr>" "''a''" 5 sample_denv "[NL]"]
    by (simp add: gm_get_Cons in_int64_def count_byte_def)
qed

text \<open>Nothing on the output path panics: with a well-formed bus and command tracker, no interleaving of
session goroutines, exit callbacks and broadcaster turns sends on a closed channel, slices out of
range or handles a marker without a tracker state.\<close>

lemma output_path_never_panics:
  assumes "calm d" and "run_out sid a evs d = (rd, d')"
  shows "\<not> dm_panicked d' \<and> calm d'"
  using calm_run_out [OF assms(1), of sid a evs] assms(2) by (simp add: calm_def)



end
