(* ===== verification/DaemonFiles.thy ===== *)
theory DaemonFiles
  imports DaemonState
begin

text \<open>
  Small files of the daemon: the PID file (\<^verbatim>\<open>internal/daemon/pidfile.go\<close>) and the forwarded
  environment of a session (\<^verbatim>\<open>internal/daemon/environment.go\<close>). Symbolic links are a map from paths to
  targets beside the file system; opening a file follows at most 40 of them, as the kernel does.
\<close>

section \<open>The PID file (pidfile.go)\<close>

datatype pid_error = PidIO io_error | PidParse

definition WritePIDFile :: "pid_json \<Rightarrow> path \<Rightarrow> Info \<Rightarrow> fs \<Rightarrow> (pid_error + unit) \<times> fs" where
  "WritePIDFile J p info f =
     (case WriteFile p (pj_enc J info) f of
        (Inl e, f') \<Rightarrow> (Inl (PidIO e), f')
      | (Inr u, f') \<Rightarrow> (Inr (), f'))"

definition ReadPIDFile :: "pid_json \<Rightarrow> path \<Rightarrow> fs \<Rightarrow> pid_error + Info" where
  "ReadPIDFile J p f =
     (case ReadFile p f of
        Inl e \<Rightarrow> Inl (PidIO e)
      | Inr data \<Rightarrow> (case pj_dec J data of None \<Rightarrow> Inl PidParse | Some info \<Rightarrow> Inr info))"

definition RemovePIDFile :: "path \<Rightarrow> fs \<Rightarrow> (pid_error + unit) \<times> fs" where
  "RemovePIDFile p f =
     (if p \<in> set (fs_deny f) then (Inl (PidIO ErrIO), f) else (Inr (), Remove p f))"

text \<open>\<open>alive\<close> is \<^verbatim>\<open>processRunning\<close>, the kernel's answer to signal 0.\<close>

definition zero_info :: Info where
  "zero_info = \<lparr>in_PID = 0, in_Version = [], in_StartedAt = 0\<rparr>"

definition CheckPIDFile :: "pid_json \<Rightarrow> (int \<Rightarrow> bool) \<Rightarrow> path \<Rightarrow> fs \<Rightarrow> pid_error + (bool \<times> Info)" where
  "CheckPIDFile J alive p f =
     (case ReadPIDFile J p f of
        Inl (PidIO ErrNotExist) \<Rightarrow> Inr (False, zero_info)
      | Inl e \<Rightarrow> Inl e
      | Inr info \<Rightarrow> Inr (alive (in_PID info), info))"

section \<open>Forwarded environment (environment.go)\<close>

type_synonym links = "(path, bytes) gomap"

definition link_target :: "path \<Rightarrow> bytes \<Rightarrow> path" where
  "link_target p t = (if t \<noteq> [] \<and> hd t = CHR ''/'' then Join [] t else Join (butlast p) t)"

text \<open>Following the links at a path; \<open>None\<close> is the kernel's \<^verbatim>\<open>ELOOP\<close>.\<close>

fun resolve :: "nat \<Rightarrow> links \<Rightarrow> path \<Rightarrow> path option" where
  "resolve n L p =
     (case gm_get L p of
        None \<Rightarrow> Some p
      | Some t \<Rightarrow> (case n of 0 \<Rightarrow> None | Suc m \<Rightarrow> resolve m L (link_target p t)))"

declare resolve.simps [simp del]

text \<open>\<^verbatim>\<open>os.Remove\<close>: a link, a file or an empty directory.\<close>

definition has_children :: "path \<Rightarrow> fs \<Rightarrow> links \<Rightarrow> bool" where
  "has_children p f L \<longleftrightarrow> (\<exists>q \<in> set (map fst (fs_nodes f) @ map fst L). q \<noteq> [] \<and> butlast q = p)"

definition remove_entry :: "path \<Rightarrow> fs \<times> links \<Rightarrow> fs \<times> links" where
  "remove_entry p = (\<lambda>(f, L).
     if p \<in> set (fs_deny f) then (f, L)
     else if gm_get L p \<noteq> None then (f, gm_del p L)
     else if is_dir f p \<and> has_children p f L then (f, L)
     else (Remove p f, L))"

definition Symlink :: "bytes \<Rightarrow> path \<Rightarrow> fs \<times> links \<Rightarrow> (io_error + unit) \<times> (fs \<times> links)" where
  "Symlink target p = (\<lambda>(f, L).
     if p = [] \<or> p \<in> set (fs_deny f) \<or> gm_get L p \<noteq> None \<or> fs_get f p \<noteq> None \<or> \<not> is_dir f (butlast p)
     then (Inl ErrIO, (f, L))
     else (Inr (), (f, gm_put p target L)))"

definition ForwardEnv :: "(bytes \<Rightarrow> bool) \<Rightarrow> path \<Rightarrow> bytes \<Rightarrow> bytes \<Rightarrow> fs \<times> links \<Rightarrow> (io_error + unit) \<times> (fs \<times> links)" where
  "ForwardEnv stat sessionDir varName val fl =
     (let symlinkPath = Join sessionDir varName in
      if \<not> stat val then (Inl ErrNotExist, fl)
      else Symlink val symlinkPath (remove_entry symlinkPath fl))"

definition join_lines :: "bytes list \<Rightarrow> bytes" where
  "join_lines ls = concat (map (\<lambda>l. l @ [CHR 0x0A]) ls)"

text \<open>\<^verbatim>\<open>strings.Join(lines, "\n") + "\n"\<close>: a single line break when there are no lines.\<close>

definition env_content :: "(bytes, bytes) gomap \<Rightarrow> bytes" where
  "env_content env =
     (let lines = map (\<lambda>k. k @ ''='' @ (case gm_get env k of None \<Rightarrow> [] | Some v \<Rightarrow> v)) (sort (map fst env))
      in if lines = [] then [CHR 0x0A] else join_lines lines)"

definition WriteEnvFile :: "path \<Rightarrow> (bytes, bytes) gomap \<Rightarrow> fs \<times> links \<Rightarrow> (io_error + unit) \<times> (fs \<times> links)" where
  "WriteEnvFile sessionDir env = (\<lambda>(f, L).
     case resolve 40 L (Join sessionDir ''env'') of
       None \<Rightarrow> (Inl ErrIO, (f, L))
     | Some p \<Rightarrow> (case WriteFile p (env_content env) f of (r, f') \<Rightarrow> (r, (f', L))))"

end
