(* ===== verification/DaemonControl.thy ===== *)
theory DaemonControl
  imports DaemonScan DaemonFiles Ansi
begin

text \<open>
  The control plane of the daemon (\<^verbatim>\<open>internal/daemon/service.go\<close>, shutdown.go): one definition per
  message handler, the dispatcher, the control loop of a client, start-up and shutdown. A handler
  takes the environment, the id of the client and the payload of the frame.
\<close>

section \<open>Replies\<close>

definition ok_reply :: "'e denv \<Rightarrow> bytes \<Rightarrow> response option \<Rightarrow> 'e daemon \<Rightarrow> 'e daemon" where
  "ok_reply env cid r d = reply cid (okFrame env r) d"

definition err_reply :: "'e denv \<Rightarrow> bytes \<Rightarrow> bytes \<Rightarrow> 'e daemon \<Rightarrow> 'e daemon" where
  "err_reply env cid msg d = reply cid (errorFrame env msg) d"

text \<open>The reply to a call of the session manager that returns only an error.\<close>

definition unit_reply :: "'e denv \<Rightarrow> bytes \<Rightarrow> (bytes + unit) \<times> 'e service \<Rightarrow> 'e daemon \<Rightarrow> 'e daemon" where
  "unit_reply env cid rs d =
     (case rs of
        (Inl e, s') \<Rightarrow> err_reply env cid e (d\<lparr>dm_svc := s'\<rparr>)
      | (Inr u, s') \<Rightarrow> ok_reply env cid None (d\<lparr>dm_svc := s'\<rparr>))"

section \<open>Sessions\<close>

definition register_cmds :: "bytes \<Rightarrow> cl_service option \<Rightarrow> cl_service option" where
  "register_cmds sid = map_option (\<lambda>s. case Register s sid of Inl e \<Rightarrow> s | Inr s' \<Rightarrow> s')"

definition commands_path :: "path \<Rightarrow> bytes \<Rightarrow> path" where
  "commands_path dataDir sid = Join (Join dataDir sid) ''commands.json''"

definition open_cmd_writer :: "bytes \<Rightarrow> 'e daemon \<Rightarrow> 'e daemon" where
  "open_cmd_writer sid d =
     (case (dm_cmdRepo d, dm_dataDir d) of
        (Some r, Some dataDir) \<Rightarrow> d\<lparr>dm_cmdRepo := Some (snd (repo_Open sid (commands_path dataDir sid) r))\<rparr>
      | _ \<Rightarrow> d)"

definition handleCreate :: "'e denv \<Rightarrow> bytes \<Rightarrow> bytes \<Rightarrow> 'e daemon \<Rightarrow> 'e daemon" where
  "handleCreate env cid payload d =
     (case wj_create (de_wire env) payload of
        None \<Rightarrow> err_reply env cid ''invalid create request'' d
      | Some req \<Rightarrow>
          (case sm_Create env req (dm_svc d) of
             (Inl e, s') \<Rightarrow> err_reply env cid e (d\<lparr>dm_svc := s'\<rparr>)
           | (Inr info, s') \<Rightarrow>
               let sid = cq_ID req;
                   d1 = persistSessionCreate env sid req (d\<lparr>dm_svc := s'\<rparr>);
                   d2 = d1\<lparr>dm_cmdSvc := register_cmds sid (dm_cmdSvc d1),
                           dm_lineCounters := gm_put sid 0 (dm_lineCounters d1)\<rparr>;
                   d3 = (if dm_coldRestore d2 then open_cmd_writer sid d2 else d2);
                   d4 = ok_reply env cid (Some (RSession info)) d3;
                   d5 = publishEvent (mk_event SessionCreated sid
                          [(''shell'', VStr (cq_Shell req)), (''pid'', VInt (si_Pid info))]) d4
               in trace ((dbg sid StageSessionCreate)\<lparr>de_Cols := cq_Cols req, de_Rows := cq_Rows req\<rparr>) d5))"

definition under_prefix :: "bytes \<Rightarrow> bytes \<Rightarrow> bool" where
  "under_prefix pfx sid \<longleftrightarrow> prefix (pfx @ ''/'') sid"

definition handleList :: "'e denv \<Rightarrow> bytes \<Rightarrow> bytes \<Rightarrow> 'e daemon \<Rightarrow> 'e daemon" where
  "handleList env cid payload d =
     (let pfx = (if payload = [] then [] else wj_list (de_wire env) payload)
      in ok_reply env cid
           (Some (RSessions (filter (\<lambda>i. pfx = [] \<or> under_prefix pfx (si_ID i)) (sm_List (dm_svc d))))) d)"

definition handleInfo :: "'e denv \<Rightarrow> bytes \<Rightarrow> bytes \<Rightarrow> 'e daemon \<Rightarrow> 'e daemon" where
  "handleInfo env cid payload d =
     (case wj_sid (de_wire env) payload of
        None \<Rightarrow> err_reply env cid ''invalid info request'' d
      | Some sid \<Rightarrow>
          (case sm_Get (dm_svc d) sid of
             Inl e \<Rightarrow> err_reply env cid e d
           | Inr info \<Rightarrow> ok_reply env cid (Some (RSession info)) d))"

definition handleKill :: "'e denv \<Rightarrow> bytes \<Rightarrow> bytes \<Rightarrow> 'e daemon \<Rightarrow> 'e daemon" where
  "handleKill env cid payload d =
     (case wj_sid (de_wire env) payload of
        None \<Rightarrow> err_reply env cid ''invalid kill request'' d
      | Some sid \<Rightarrow> unit_reply env cid (sm_Kill sid (dm_svc d)) d)"

definition handleResize :: "'e denv \<Rightarrow> bytes \<Rightarrow> bytes \<Rightarrow> 'e daemon \<Rightarrow> 'e daemon" where
  "handleResize env cid payload d =
     (case wj_resize (de_wire env) payload of
        None \<Rightarrow> err_reply env cid ''invalid resize request'' d
      | Some req \<Rightarrow>
          (case sm_Resize env (zq_SessionID req) (zq_Cols req) (zq_Rows req) (dm_svc d) of
             (Inl e, s') \<Rightarrow> err_reply env cid e (d\<lparr>dm_svc := s'\<rparr>)
           | (Inr u, s') \<Rightarrow>
               ok_reply env cid None
                 (trace ((dbg (zq_SessionID req) StageResize)\<lparr>de_Cols := zq_Cols req, de_Rows := zq_Rows req\<rparr>)
                   (d\<lparr>dm_svc := s'\<rparr>))))"

definition handleInput :: "'e denv \<Rightarrow> bytes \<Rightarrow> bytes \<Rightarrow> 'e daemon \<Rightarrow> 'e daemon" where
  "handleInput env cid payload d =
     (case DecodeInputPayload payload of
        Inl e \<Rightarrow> err_reply env cid ''invalid input payload'' d
      | Inr (sid, data) \<Rightarrow> unit_reply env cid (sm_WriteInput sid data (dm_svc d)) d)"

section \<open>Attaching and detaching\<close>

definition add_attachment :: "bytes \<Rightarrow> bytes \<Rightarrow> 'e daemon \<Rightarrow> 'e daemon" where
  "add_attachment sid cid d =
     (let cids = attached_to d sid
      in d\<lparr>dm_attachments := gm_put sid (if cid \<in> set cids then cids else cids @ [cid]) (dm_attachments d),
           dm_clientSession := gm_put cid sid (dm_clientSession d)\<rparr>)"

text \<open>Removing a client from the set of a session; the flag tells that it was the last one.\<close>

definition drop_attachment :: "bytes \<Rightarrow> bytes \<Rightarrow> 'e daemon \<Rightarrow> bool \<times> 'e daemon" where
  "drop_attachment sid cid d =
     (case gm_get (dm_attachments d) sid of
        None \<Rightarrow> (False, d)
      | Some cids \<Rightarrow>
          let rest = removeAll cid cids
          in if rest = [] then (True, d\<lparr>dm_attachments := gm_del sid (dm_attachments d)\<rparr>)
             else (False, d\<lparr>dm_attachments := gm_put sid rest (dm_attachments d)\<rparr>))"

definition attach_commands :: "bytes \<Rightarrow> 'e daemon \<Rightarrow> AttachResponse \<Rightarrow> AttachResponse" where
  "attach_commands sid d resp =
     (case dm_cmdSvc d of
        None \<Rightarrow> resp
      | Some s \<Rightarrow>
          (case Snapshot s sid of
             Inl e \<Rightarrow> resp
           | Inr st \<Rightarrow>
               resp\<lparr>ap_CommandHistory := map commandToResponse (SessionState.History st),
                    ap_InFlightCommand := map_option commandToResponse (InFlight st)\<rparr>))"

definition handleAttach :: "'e denv \<Rightarrow> bytes \<Rightarrow> bytes \<Rightarrow> 'e daemon \<Rightarrow> 'e daemon" where
  "handleAttach env cid payload d =
     (case wj_sid (de_wire env) payload of
        None \<Rightarrow> err_reply env cid ''invalid attach request'' d
      | Some sid \<Rightarrow>
          (case sm_Get (dm_svc d) sid of
             Inl e \<Rightarrow> err_reply env cid e d
           | Inr info \<Rightarrow>
               (case sm_Attach sid (dm_svc d) of
                  (Inl e, s') \<Rightarrow> err_reply env cid e (d\<lparr>dm_svc := s'\<rparr>)
                | (Inr u, s') \<Rightarrow>
                    let d1 = add_attachment sid cid (d\<lparr>dm_svc := s'\<rparr>);
                        d2 = trace (dbg sid StageSnapshotStart) (trace (dbg sid StageAttach) d1);
                        snap = sm_Snapshot env (dm_svc d2) sid;
                        replay = (case snap of Inl e \<Rightarrow> [] | Inr r \<Rightarrow> r);
                        d3 = trace ((dbg sid StageSnapshotDone)\<lparr>de_ByteLen := int (length replay)\<rparr>) d2;
                        resp = attach_commands sid d3
                          \<lparr>ap_Info = info, ap_Snapshot = (if replay \<noteq> [] then Some replay else None),
                           ap_CommandHistory = [], ap_InFlightCommand = None\<rparr>;
                        d4 = ok_reply env cid (Some (RAttach resp)) d3
                    in publishEvent (mk_event SessionAttached sid [(''client_id'', VStr cid)]) d4)))"

definition session_detached :: "bytes \<Rightarrow> 'e daemon \<Rightarrow> 'e daemon" where
  "session_detached sid d =
     publishEvent (mk_event SessionDetached sid []) (d\<lparr>dm_svc := snd (sm_Detach sid (dm_svc d))\<rparr>)"

definition handleDetach :: "'e denv \<Rightarrow> bytes \<Rightarrow> bytes \<Rightarrow> 'e daemon \<Rightarrow> 'e daemon" where
  "handleDetach env cid payload d =
     (case wj_sid (de_wire env) payload of
        None \<Rightarrow> err_reply env cid ''invalid detach request'' d
      | Some sid \<Rightarrow>
          (case drop_attachment sid cid d of
             (shouldDetach, d1) \<Rightarrow>
               let d2 = d1\<lparr>dm_clientSession := gm_del cid (dm_clientSession d1)\<rparr>;
                   d3 = (if shouldDetach then trace (dbg sid StageDetach) (session_detached sid d2) else d2)
               in ok_reply env cid None d3))"

definition detachClient :: "bytes \<Rightarrow> 'e daemon \<Rightarrow> 'e daemon" where
  "detachClient cid d =
     (case gm_get (dm_clientSession d) cid of
        None \<Rightarrow> d
      | Some sid \<Rightarrow>
          (case drop_attachment sid cid (d\<lparr>dm_clientSession := gm_del cid (dm_clientSession d)\<rparr>) of
             (shouldDetach, d1) \<Rightarrow> if shouldDetach then session_detached sid d1 else d1))"

section \<open>Status, events and shutdown\<close>

text \<open>\<^verbatim>\<open>Duration.String\<close> of a duration truncated to whole seconds.\<close>

definition uptime_string :: "duration \<Rightarrow> bytes" where
  "uptime_string x =
     (let secs = abs x div 1000000000; h = secs div 3600; m = secs div 60 mod 60; s = secs mod 60;
          body = (if h > 0 then Itoa h @ ''h'' @ Itoa m @ ''m'' @ Itoa s @ ''s''
                  else if m > 0 then Itoa m @ ''m'' @ Itoa s @ ''s'' else Itoa s @ ''s'')
      in if x < 0 \<and> secs \<noteq> 0 then ''-'' @ body else body)"

definition handleStatus :: "'e denv \<Rightarrow> bytes \<Rightarrow> 'e daemon \<Rightarrow> 'e daemon" where
  "handleStatus env cid d =
     ok_reply env cid
       (Some (RStatus \<lparr>st_Version = dm_version d, st_Uptime = uptime_string (time_sub (de_now env 0) (dm_startedAt d)),
                       st_SessionCount = int (length (sm_List (dm_svc d))),
                       st_ClientCount = int (length (dm_clientSession d))\<rparr>)) d"

definition handleSubscribe :: "'e denv \<Rightarrow> bytes \<Rightarrow> bytes \<Rightarrow> 'e daemon \<Rightarrow> 'e daemon" where
  "handleSubscribe env cid payload d =
     (case dm_eventBus d of
        None \<Rightarrow> err_reply env cid ''events not enabled'' d
      | Some b \<Rightarrow>
          (case (if payload = [] then Some [] else wj_subscribe (de_wire env) payload) of
             None \<Rightarrow> err_reply env cid ''invalid event subscribe request'' d
           | Some flt \<Rightarrow>
               (case Subscribe b of
                  (a, b') \<Rightarrow>
                    ok_reply env cid None
                      (d\<lparr>dm_eventBus := Some b', dm_forwards := dm_forwards d @ [(a, cid, flt)]\<rparr>))))"

definition control_fails :: "bytes \<Rightarrow> Frame \<Rightarrow> Server \<Rightarrow> bool" where
  "control_fails cid f s =
     (case gm_get (sv_clients s) cid of
        None \<Rightarrow> True
      | Some c \<Rightarrow> (case cl_Control c of None \<Rightarrow> True | Some conn \<Rightarrow> fst (WriteFrame conn f) \<noteq> None))"

text \<open>The end of a forwarding goroutine: its deferred \<^verbatim>\<open>Unsubscribe\<close>.\<close>

definition end_forward :: "nat \<times> bytes \<times> bytes \<Rightarrow> Bus \<Rightarrow> 'e daemon \<Rightarrow> 'e daemon" where
  "end_forward fw b d =
     (case Unsubscribe (fst fw) b of
        None \<Rightarrow> d\<lparr>dm_panicked := True\<rparr>
      | Some b' \<Rightarrow> d\<lparr>dm_eventBus := Some b', dm_forwards := remove1 fw (dm_forwards d)\<rparr>)"

text \<open>One turn of the forwarding goroutine; it blocks on an empty open channel.\<close>

definition forward_step :: "'e denv \<Rightarrow> nat \<times> bytes \<times> bytes \<Rightarrow> 'e daemon \<Rightarrow> 'e daemon" where
  "forward_step env fw d =
     (case (dm_eventBus d, fw) of
        (None, _) \<Rightarrow> d
      | (Some b, (a, cid, flt)) \<Rightarrow>
          (case receive a b of
             (None, _) \<Rightarrow>
               (case gm_get (bus_store b) a of
                  Some s \<Rightarrow> if sb_closed s then end_forward fw b d else d
                | None \<Rightarrow> d)
           | (Some e, b') \<Rightarrow>
               let d1 = d\<lparr>dm_eventBus := Some b'\<rparr> in
               if flt \<noteq> [] \<and> be_SessionID e \<noteq> flt then d1
               else case wj_event (de_wire env) e of
                      None \<Rightarrow> d1
                    | Some data \<Rightarrow>
                        let f = \<lparr>Version = ProtocolVersion, Type = MsgEvent, Payload = data\<rparr>;
                            d2 = reply cid f d1
                        in if control_fails cid f (dm_server d1) then end_forward fw b' d2 else d2))"

definition Daemon_Stop :: "'e daemon \<Rightarrow> 'e daemon" where
  "Daemon_Stop d = (if dm_hasCancel d then d\<lparr>dm_cancelled := True\<rparr> else d)"

text \<open>\<^verbatim>\<open>handleShutdown\<close> replies and leaves a goroutine that stops the daemon after a delay.\<close>

definition handleShutdown :: "'e denv \<Rightarrow> bytes \<Rightarrow> 'e daemon \<Rightarrow> 'e daemon" where
  "handleShutdown env cid d = (ok_reply env cid None d)\<lparr>dm_stopTimers := Suc (dm_stopTimers d)\<rparr>"

definition stop_timer :: "'e daemon \<Rightarrow> 'e daemon option" where
  "stop_timer d =
     (if dm_stopTimers d = 0 then None else Some (Daemon_Stop (d\<lparr>dm_stopTimers := dm_stopTimers d - 1\<rparr>)))"

definition GracefulShutdown :: "'e daemon \<Rightarrow> 'e daemon" where
  "GracefulShutdown d =
     Daemon_Stop (d\<lparr>dm_svc := fold (\<lambda>i s. snd (sm_Kill (si_ID i) s)) (sm_List (dm_svc d)) (dm_svc d)\<rparr>)"

section \<open>Metadata and environment\<close>

definition handleMetaSet :: "'e denv \<Rightarrow> bytes \<Rightarrow> bytes \<Rightarrow> 'e daemon \<Rightarrow> 'e daemon" where
  "handleMetaSet env cid payload d =
     (case wj_metaset (de_wire env) payload of
        None \<Rightarrow> err_reply env cid ''invalid meta set request'' d
      | Some req \<Rightarrow>
          unit_reply env cid (sm_MetaSet (ms_q_SessionID req) (ms_q_Key req) (ms_q_Value req) (dm_svc d)) d)"

definition handleMetaGet :: "'e denv \<Rightarrow> bytes \<Rightarrow> bytes \<Rightarrow> 'e daemon \<Rightarrow> 'e daemon" where
  "handleMetaGet env cid payload d =
     (case wj_metaget (de_wire env) payload of
        None \<Rightarrow> err_reply env cid ''invalid meta get request'' d
      | Some req \<Rightarrow>
          if mg_Key req = []
          then (case sm_MetaGetAll (dm_svc d) (mg_SessionID req) of
                  Inl e \<Rightarrow> err_reply env cid e d
                | Inr meta \<Rightarrow> ok_reply env cid (Some (RMeta [] (Some meta))) d)
          else (case sm_MetaGet (dm_svc d) (mg_SessionID req) (mg_Key req) of
                  Inl e \<Rightarrow> err_reply env cid e d
                | Inr val \<Rightarrow> ok_reply env cid (Some (RMeta val None)) d))"

text \<open>The loop over the variables: links for existing paths, the others are collected.\<close>

definition forward_var :: "'e denv \<Rightarrow> path \<Rightarrow> bytes \<times> bytes \<Rightarrow> (fs \<times> links) \<times> (bytes, bytes) gomap \<Rightarrow> (fs \<times> links) \<times> (bytes, bytes) gomap" where
  "forward_var env sessionDir kv = (\<lambda>(fl, rest).
     if de_stat env (snd kv) then (snd (ForwardEnv (de_stat env) sessionDir (fst kv) (snd kv) fl), rest)
     else (fl, gm_put (fst kv) (snd kv) rest))"

definition handleEnvForward :: "'e denv \<Rightarrow> bytes \<Rightarrow> bytes \<Rightarrow> 'e daemon \<Rightarrow> 'e daemon" where
  "handleEnvForward env cid payload d =
     (case wj_env (de_wire env) payload of
        None \<Rightarrow> err_reply env cid ''invalid env forward request'' d
      | Some req \<Rightarrow>
          (case dm_dataDir d of
             None \<Rightarrow> ok_reply env cid None d
           | Some dataDir \<Rightarrow>
               let sessionDir = Join dataDir (ef_SessionID req);
                   f1 = snd (MkdirAll sessionDir (dm_fs d))
               in case fold (forward_var env sessionDir) (ef_Env req) ((f1, dm_links d), []) of
                    (fl, nonPathEnv) \<Rightarrow>
                      let fl' = (if nonPathEnv \<noteq> [] then snd (WriteEnvFile sessionDir nonPathEnv fl) else fl)
                      in ok_reply env cid None (d\<lparr>dm_fs := fst fl', dm_links := snd fl'\<rparr>)))"

section \<open>Commands to sessions\<close>

definition exec_input :: "bytes \<Rightarrow> bool \<Rightarrow> bytes" where
  "exec_input inp newline = (if newline then inp @ [NL] else inp)"

definition handleExec :: "'e denv \<Rightarrow> bytes \<Rightarrow> bytes \<Rightarrow> 'e daemon \<Rightarrow> 'e daemon" where
  "handleExec env cid payload d =
     (case wj_exec (de_wire env) payload of
        None \<Rightarrow> err_reply env cid ''invalid exec request'' d
      | Some req \<Rightarrow>
          unit_reply env cid
            (sm_WriteInput (xq_SessionID req) (exec_input (xq_Input req) (xq_Newline req)) (dm_svc d)) d)"

definition sessionsByPrefix :: "bytes \<Rightarrow> 'e service \<Rightarrow> bytes list" where
  "sessionsByPrefix pfx s = filter (under_prefix pfx) (map si_ID (sm_List s))"

fun exec_loop :: "bytes \<Rightarrow> bytes list \<Rightarrow> 'e service \<Rightarrow> ExecResult list \<times> 'e service" where
  "exec_loop inp [] s = ([], s)"
| "exec_loop inp (sid # sids) s =
     (case sm_WriteInput sid inp s of (r, s1) \<Rightarrow>
      case exec_loop inp sids s1 of (rs, s2) \<Rightarrow>
        ((case r of Inl e \<Rightarrow> \<lparr>xr_SessionID = sid, xr_OK = False, xr_Error = e\<rparr>
                  | Inr u \<Rightarrow> \<lparr>xr_SessionID = sid, xr_OK = True, xr_Error = []\<rparr>) # rs, s2))"

definition handleExecSync :: "'e denv \<Rightarrow> bytes \<Rightarrow> bytes \<Rightarrow> 'e daemon \<Rightarrow> 'e daemon" where
  "handleExecSync env cid payload d =
     (case wj_execsync (de_wire env) payload of
        None \<Rightarrow> err_reply env cid ''invalid exec_sync request'' d
      | Some req \<Rightarrow>
          if xs_SessionIDs req \<noteq> [] \<and> xs_Prefix req \<noteq> []
          then err_reply env cid ''specify session_ids or prefix, not both'' d
          else
            let targets = (if xs_Prefix req \<noteq> [] then sessionsByPrefix (xs_Prefix req) (dm_svc d) else xs_SessionIDs req)
            in if targets = [] then err_reply env cid ''no matching sessions'' d
               else case exec_loop (exec_input (xs_Input req) (xs_Newline req)) targets (dm_svc d) of
                      (results, s') \<Rightarrow> ok_reply env cid (Some (RExecSync results)) (d\<lparr>dm_svc := s'\<rparr>))"

fun kill_loop :: "bytes list \<Rightarrow> 'e service \<Rightarrow> bytes list \<times> (bytes, bytes) gomap \<times> 'e service" where
  "kill_loop [] s = ([], [], s)"
| "kill_loop (sid # sids) s =
     (case sm_Kill sid s of (r, s1) \<Rightarrow>
      case kill_loop sids s1 of (killed, errs, s2) \<Rightarrow>
        (case r of Inl e \<Rightarrow> (killed, gm_put sid e errs, s2) | Inr u \<Rightarrow> (sid # killed, errs, s2)))"

definition handleKillPrefix :: "'e denv \<Rightarrow> bytes \<Rightarrow> bytes \<Rightarrow> 'e daemon \<Rightarrow> 'e daemon" where
  "handleKillPrefix env cid payload d =
     (case wj_killprefix (de_wire env) payload of
        None \<Rightarrow> err_reply env cid ''invalid kill_prefix request'' d
      | Some pfx \<Rightarrow>
          if pfx = [] then err_reply env cid ''prefix is required'' d
          else
            let targets = sessionsByPrefix pfx (dm_svc d)
            in if targets = [] then err_reply env cid ''no sessions match prefix'' d
               else case kill_loop targets (dm_svc d) of
                      (killed, errs, s') \<Rightarrow> ok_reply env cid (Some (RKillPrefix killed errs)) (d\<lparr>dm_svc := s'\<rparr>))"

definition handleUpdateEmulatorScrollback :: "'e denv \<Rightarrow> bytes \<Rightarrow> bytes \<Rightarrow> 'e daemon \<Rightarrow> 'e daemon" where
  "handleUpdateEmulatorScrollback env cid payload d =
     (case wj_scrollback (de_wire env) payload of
        None \<Rightarrow> err_reply env cid ''invalid update emulator scrollback request'' d
      | Some req \<Rightarrow>
          unit_reply env cid
            (sm_UpdateEmulatorScrollback env (uq_SessionID req) (uq_ScrollbackLines req) (dm_svc d)) d)"

section \<open>Waiting\<close>

definition ms_after :: "'e denv \<Rightarrow> int \<Rightarrow> time" where
  "ms_after env n = de_now env 0 + wrap64 (n * 1000000)"

text \<open>
  The waiter the three \<^verbatim>\<open>waitUntil\<close> functions build: the timers are their deadlines, with the product
  of milliseconds and nanoseconds in 64 bits.
\<close>

definition new_waiter :: "'e denv \<Rightarrow> bytes \<Rightarrow> WaitRequest \<Rightarrow> waiter" where
  "new_waiter env cid req =
     \<lparr>w_mode = wq_Mode req,
      w_pattern = (if wq_Mode req = ''match'' then wq_Pattern req else []),
      w_idleFor = (if wq_Mode req = ''idle'' then wrap64 (wq_IdleFor req * 1000000) else 0),
      w_idleTimer = (if wq_Mode req = ''idle'' then Some (ms_after env (wq_IdleFor req)) else None),
      w_done = None, w_client = cid, w_session = wq_SessionID req,
      w_timeout = (if wq_Timeout req > 0 then Some (ms_after env (wq_Timeout req)) else None)\<rparr>"

definition handleWait :: "'e denv \<Rightarrow> bytes \<Rightarrow> bytes \<Rightarrow> 'e daemon \<Rightarrow> 'e daemon" where
  "handleWait env cid payload d =
     (case wj_wait (de_wire env) payload of
        None \<Rightarrow> err_reply env cid ''invalid wait request'' d
      | Some req \<Rightarrow>
          (case sm_Get (dm_svc d) (wq_SessionID req) of
             Inl e \<Rightarrow> err_reply env cid e d
           | Inr info \<Rightarrow>
               if wq_Mode req \<in> {''exit'', ''idle'', ''match''}
               then snd (addWaiter (wq_SessionID req) (new_waiter env cid req) d)
               else err_reply env cid (''invalid wait mode: '' @ wq_Mode req) d))"

text \<open>The select in which the goroutine of a waiter blocks; \<open>None\<close> when the arm is not ready.\<close>

datatype wait_arm = WaitDone | WaitIdle | WaitTimeout

definition wait_answer :: "'e denv \<Rightarrow> wait_arm \<Rightarrow> waiter \<Rightarrow> WaitResponse option" where
  "wait_answer env arm w =
     (case arm of
        WaitDone \<Rightarrow> w_done w
      | WaitIdle \<Rightarrow>
          (case w_idleTimer w of
             None \<Rightarrow> None
           | Some t \<Rightarrow> if t \<le> de_now env 0 then Some (wait_resp (w_session w) ''idle'' None False False) else None)
      | WaitTimeout \<Rightarrow>
          (case w_timeout w of
             None \<Rightarrow> None
           | Some t \<Rightarrow> if t \<le> de_now env 0 then Some (wait_resp (w_session w) (w_mode w) None False True) else None))"

definition wait_fire :: "'e denv \<Rightarrow> wait_arm \<Rightarrow> nat \<Rightarrow> 'e daemon \<Rightarrow> 'e daemon option" where
  "wait_fire env arm n d =
     (case gm_get (dm_waiterObjs d) n of
        None \<Rightarrow> None
      | Some w \<Rightarrow>
          if n \<notin> set (waiters_of d (w_session w)) then None
          else map_option (\<lambda>r. removeWaiter (w_session w) n (ok_reply env (w_client w) (Some (RWait r)) d))
                 (wait_answer env arm w))"

section \<open>Recordings\<close>

definition recordStart :: "'e denv \<Rightarrow> bytes \<Rightarrow> RecordRequest \<Rightarrow> 'e daemon \<Rightarrow> 'e daemon" where
  "recordStart env cid req d =
     (let sid = rq_SessionID req in
      if gm_get (dm_recordings d) sid \<noteq> None then err_reply env cid ''session already being recorded'' d
      else case sm_Get (dm_svc d) sid of
             Inl e \<Rightarrow> err_reply env cid e d
           | Inr info \<Rightarrow>
               let sessionDir = Join (dm_recordingDir d) sid in
               (case MkdirAll sessionDir (dm_fs d) of
                  (Inl e, f1) \<Rightarrow> err_reply env cid (''create recording dir: '' @ de_oserr env sessionDir) (d\<lparr>dm_fs := f1\<rparr>)
                | (Inr u, f1) \<Rightarrow>
                    let recordPath = Join sessionDir (''recording-'' @ de_stamp env (de_now env 0) @ ''.cast'') in
                    (case rec_NewWriter (de_rec env) recordPath (si_Cols info) (si_Rows info) (dm_recordingMaxSize d)
                            (de_now env 1) f1 of
                       (Inl e, f2) \<Rightarrow> err_reply env cid (''start recording: '' @ de_oserr env recordPath) (d\<lparr>dm_fs := f2\<rparr>)
                     | (Inr w, f2) \<Rightarrow>
                         ok_reply env cid
                           (Some (RRecord \<lparr>rr_SessionID = sid, rr_Recording = True, rr_Path = Some recordPath\<rparr>))
                           (d\<lparr>dm_fs := f2, dm_recordings := gm_put sid w (dm_recordings d)\<rparr>))))"

definition recordStop :: "'e denv \<Rightarrow> bytes \<Rightarrow> RecordRequest \<Rightarrow> 'e daemon \<Rightarrow> 'e daemon" where
  "recordStop env cid req d =
     (let sid = rq_SessionID req in
      case gm_get (dm_recordings d) sid of
        None \<Rightarrow> err_reply env cid ''session is not being recorded'' d
      | Some w \<Rightarrow>
          ok_reply env cid (Some (RRecord \<lparr>rr_SessionID = sid, rr_Recording = False, rr_Path = None\<rparr>))
            (d\<lparr>dm_recordings := gm_del sid (dm_recordings d)\<rparr>))"

definition handleRecord :: "'e denv \<Rightarrow> bytes \<Rightarrow> bytes \<Rightarrow> 'e daemon \<Rightarrow> 'e daemon" where
  "handleRecord env cid payload d =
     (case wj_record (de_wire env) payload of
        None \<Rightarrow> err_reply env cid ''invalid record request'' d
      | Some req \<Rightarrow>
          if rq_Action req = ''start'' then recordStart env cid req d
          else if rq_Action req = ''stop'' then recordStop env cid req d
          else err_reply env cid ''invalid action: must be start or stop'' d)"

section \<open>History dumps\<close>

definition chunkSize :: nat where "chunkSize = 1024 * 1024"

function history_chunks :: "nat \<Rightarrow> bytes \<Rightarrow> bytes list" where
  "history_chunks n data =
     (if data = [] \<or> n = 0 then []
      else let e = (if n > length data then length data else n)
           in take e data # history_chunks n (drop e data))"
  by pat_completeness auto
termination by (relation "measure (\<lambda>(n, data). length data)") auto

declare history_chunks.simps [simp del]

definition history_frame :: "bytes \<Rightarrow> Frame" where
  "history_frame chunk = \<lparr>Version = ProtocolVersion, Type = MsgHistory, Payload = chunk\<rparr>"

definition history_end :: Frame where
  "history_end = \<lparr>Version = ProtocolVersion, Type = MsgHistoryEnd, Payload = []\<rparr>"

definition history_data :: "bytes \<Rightarrow> int \<Rightarrow> bytes \<Rightarrow> bytes" where
  "history_data fmt maxSize replay =
     (let data = (if fmt = ''text'' then Strip replay else if fmt = ''html'' then ToHTML replay else replay)
      in if maxSize > 0 \<and> int (length data) > maxSize then take (nat maxSize) data else data)"

definition handleHistory :: "'e denv \<Rightarrow> bytes \<Rightarrow> bytes \<Rightarrow> 'e daemon \<Rightarrow> 'e daemon" where
  "handleHistory env cid payload d =
     (case wj_history (de_wire env) payload of
        None \<Rightarrow> err_reply env cid ''invalid history request'' d
      | Some req \<Rightarrow>
          if hq_Format req \<notin> {''ansi'', ''text'', ''html''}
          then err_reply env cid ''invalid format: must be ansi, text, or html'' d
          else case sm_Snapshot env (dm_svc d) (hq_SessionID req) of
                 Inl e \<Rightarrow> err_reply env cid e d
               | Inr replay \<Rightarrow>
                   reply cid history_end
                     (fold (\<lambda>chunk. reply cid (history_frame chunk))
                        (history_chunks chunkSize (history_data (hq_Format req) (dm_maxHistoryDumpSize d) replay)) d))"

section \<open>The dispatcher and the control loop\<close>

definition dispatch :: "'e denv \<Rightarrow> bytes \<Rightarrow> Frame \<Rightarrow> 'e daemon \<Rightarrow> 'e daemon" where
  "dispatch env cid frame d =
     (let t = Type frame; p = Payload frame in
      if t = MsgCreate then handleCreate env cid p d
      else if t = MsgList then handleList env cid p d
      else if t = MsgInfo then handleInfo env cid p d
      else if t = MsgKill then handleKill env cid p d
      else if t = MsgResize then handleResize env cid p d
      else if t = MsgInput then handleInput env cid p d
      else if t = MsgAttach then handleAttach env cid p d
      else if t = MsgDetach then handleDetach env cid p d
      else if t = MsgShutdown then handleShutdown env cid d
      else if t = MsgEvent then handleSubscribe env cid p d
      else if t = MsgStatus then handleStatus env cid d
      else if t = MsgMetaSet then handleMetaSet env cid p d
      else if t = MsgMetaGet then handleMetaGet env cid p d
      else if t = MsgEnvForward then handleEnvForward env cid p d
      else if t = MsgExec then handleExec env cid p d
      else if t = MsgExecSync then handleExecSync env cid p d
      else if t = MsgWait then handleWait env cid p d
      else if t = MsgRecord then handleRecord env cid p d
      else if t = MsgHistory then handleHistory env cid p d
      else if t = MsgKillPrefix then handleKillPrefix env cid p d
      else if t = MsgUpdateEmulatorScrollback then handleUpdateEmulatorScrollback env cid p d
      else err_reply env cid ''unknown message type'' d)"

definition control_conn :: "bytes \<Rightarrow> Server \<Rightarrow> Conn option" where
  "control_conn cid s = (case gm_get (sv_clients s) cid of None \<Rightarrow> None | Some c \<Rightarrow> cl_Control c)"

definition set_control :: "bytes \<Rightarrow> Conn \<Rightarrow> Server \<Rightarrow> Server" where
  "set_control cid conn s =
     (case gm_get (sv_clients s) cid of
        None \<Rightarrow> s
      | Some c \<Rightarrow> s\<lparr>sv_clients := gm_put cid (c\<lparr>cl_Control := Some conn\<rparr>) (sv_clients s)\<rparr>)"

text \<open>
  One iteration of \<^verbatim>\<open>readControl\<close>; the flag tells whether the loop goes on. The connection of a client
  that was removed from the registry is closed, so that the read fails.
\<close>

definition readControl_step :: "'e denv \<Rightarrow> bytes \<Rightarrow> 'e daemon \<Rightarrow> bool \<times> 'e daemon" where
  "readControl_step env cid d =
     (case control_conn cid (dm_server d) of
        None \<Rightarrow> (False, detachClient cid d)
      | Some conn \<Rightarrow>
          (case ReadFrame conn of
             (Inl e, conn') \<Rightarrow> (False, detachClient cid (d\<lparr>dm_server := set_control cid conn' (dm_server d)\<rparr>))
           | (Inr frame, conn') \<Rightarrow>
               let d1 = d\<lparr>dm_server := set_control cid conn' (dm_server d)\<rparr>
               in if dm_cancelled d1 then (False, detachClient cid d1)
                  else (True, dispatch env cid frame d1)))"

section \<open>Start-up\<close>

text \<open>One directory entry in \<^verbatim>\<open>restoreCommandHistoriesAtStartup\<close>.\<close>

definition restore_entry :: "'e denv \<Rightarrow> path \<Rightarrow> bytes \<times> node \<Rightarrow> 'e daemon \<Rightarrow> 'e daemon" where
  "restore_entry env dataDir e d =
     (if snd e \<noteq> DirN then d
      else let sid = fst e in
        case RestoreCommandsForSession (de_cmd env) dataDir sid (de_now env 0) (dm_fs d) (dm_cmdSvc d) of
          None \<Rightarrow> d\<lparr>dm_panicked := True\<rparr>
        | Some (Some err, svc) \<Rightarrow> d
        | Some (None, svc) \<Rightarrow>
            let d1 = d\<lparr>dm_cmdSvc := svc,
                       dm_lineCounters := (if gm_get (dm_lineCounters d) sid = None then gm_put sid 0 (dm_lineCounters d)
                                           else dm_lineCounters d)\<rparr>
            in case dm_cmdRepo d1 of
                 None \<Rightarrow> d1
               | Some r \<Rightarrow> d1\<lparr>dm_cmdRepo := Some (snd (repo_Open sid (commands_path dataDir sid) r))\<rparr>)"

definition restoreCommandHistoriesAtStartup :: "'e denv \<Rightarrow> path \<Rightarrow> 'e daemon \<Rightarrow> 'e daemon" where
  "restoreCommandHistoriesAtStartup env dataDir d =
     (case ReadDir dataDir (dm_fs d) of
        Inl e \<Rightarrow> d
      | Inr entries \<Rightarrow> fold (restore_entry env dataDir) entries d)"

text \<open>
  \<^verbatim>\<open>Start\<close> up to the call of \<^verbatim>\<open>Serve\<close>: the callbacks are registered with the session service, the
  command service and the server. \<open>Inl\<close> is the failure to write the PID file.
\<close>

definition Start_begin :: "'e denv \<Rightarrow> 'e daemon \<Rightarrow> (pid_error + unit) \<times> 'e daemon" where
  "Start_begin env d =
     (let d1 = d\<lparr>dm_startedAt := de_now env 0\<rparr>;
          (r, f1) = (case dm_pidFilePath d1 of
                       None \<Rightarrow> (Inr (), dm_fs d1)
                     | Some p \<Rightarrow>
                         WritePIDFile (de_pidj env) p
                           \<lparr>in_PID = de_getpid env, in_Version = dm_version d1, in_StartedAt = de_now env 1\<rparr> (dm_fs d1));
          d2 = d1\<lparr>dm_fs := f1\<rparr>
      in case r of
           Inl e \<Rightarrow> (Inl e, d2)
         | Inr u \<Rightarrow>
             let d3 = (case dm_dataDir d2 of
                         None \<Rightarrow> d2
                       | Some dataDir \<Rightarrow>
                           let d' = d2\<lparr>dm_fs := snd (ReconcileOrphans (de_meta env) (de_now env) dataDir (dm_fs d2))\<rparr>
                           in if dm_coldRestore d' \<and> dm_cmdSvc d' \<noteq> None
                              then restoreCommandHistoriesAtStartup env dataDir d' else d')
             in (Inr (), d3\<lparr>dm_hasCancel := True,
                            dm_svc := (dm_svc d3)\<lparr>ss_hasOnExit := True, ss_hasOnDataReady := True\<rparr>,
                            dm_cmdSvc := map_option (OnEvent True) (dm_cmdSvc d3),
                            dm_server := OnClient (dm_server d3)\<rparr>))"

text \<open>\<^verbatim>\<open>Start\<close> after \<^verbatim>\<open>Serve\<close> returned.\<close>

definition Start_end :: "'e denv \<Rightarrow> 'e daemon \<Rightarrow> 'e daemon" where
  "Start_end env d =
     (let d1 = d\<lparr>dm_cancelled := True\<rparr>;
          d2 = (case dm_cmdRepo d1 of
                  None \<Rightarrow> d1
                | Some r \<Rightarrow>
                    (case repo_CloseAll (de_cmd env) (de_now env 0) r (dm_fs d1) of
                       (r', f') \<Rightarrow> d1\<lparr>dm_cmdRepo := Some r', dm_fs := f'\<rparr>))
      in case dm_pidFilePath d2 of
           None \<Rightarrow> d2
         | Some p \<Rightarrow> d2\<lparr>dm_fs := snd (RemovePIDFile p (dm_fs d2))\<rparr>)"

end
