(* ===== verification/DaemonReplies.thy ===== *)
theory DaemonReplies
  imports DaemonControl
begin

text \<open>
  What a client of the daemon gets back: every request is answered exactly once, and a history dump
  is the rendered screen cut into frames.
\<close>

section \<open>One answer per request\<close>

text \<open>The daemon moved from \<open>d\<close> to \<open>d'\<close> and wrote one status frame to the client, nothing else.\<close>

definition answered :: "bytes \<Rightarrow> 'e daemon \<Rightarrow> 'e daemon \<Rightarrow> bool" where
  "answered cid d d' \<longleftrightarrow>
     (\<exists>f. Version f = ProtocolVersion \<and> Type f \<in> {MsgOK, MsgError} \<and> dm_server d' = control_write cid f (dm_server d))"

lemma answered_ok [intro!]: "dm_server d1 = dm_server d \<Longrightarrow> answered cid d (ok_reply env cid r d1)"
  unfolding answered_def by (rule exI [of _ "okFrame env r"]) (simp add: ok_reply_def reply_def okFrame_def)

lemma answered_err [intro!]: "dm_server d1 = dm_server d \<Longrightarrow> answered cid d (err_reply env cid msg d1)"
  unfolding answered_def by (rule exI [of _ "errorFrame env msg"]) (simp add: err_reply_def reply_def errorFrame_def)

lemma answered_unit [intro!]: "answered cid d (unit_reply env cid rs d)"
  by (auto simp: unit_reply_def split: prod.split sum.split)

lemma answered_after: "answered cid d d1 \<Longrightarrow> dm_server d' = dm_server d1 \<Longrightarrow> answered cid d d'"
  by (simp add: answered_def)

lemma answered_publish [intro!]: "answered cid d d1 \<Longrightarrow> answered cid d (publishEvent e d1)"
  by (simp add: answered_def)

lemma answered_trace [intro!]: "answered cid d d1 \<Longrightarrow> answered cid d (trace e d1)"
  by (simp add: answered_def)

lemma open_cmd_writer_server [simp, frame_simps]: "dm_server (open_cmd_writer sid d) = dm_server d"
  by (simp add: open_cmd_writer_def split: option.split prod.split)

lemma add_attachment_server [simp, frame_simps]: "dm_server (add_attachment sid cid d) = dm_server d"
  by (simp add: add_attachment_def Let_def)

lemma drop_attachment_server [simp, frame_simps]: "dm_server (snd (drop_attachment sid cid d)) = dm_server d"
  by (simp add: drop_attachment_def Let_def split: option.split)

lemma session_detached_server [simp, frame_simps]: "dm_server (session_detached sid d) = dm_server d"
  by (simp add: session_detached_def)

lemma answered_create: "answered cid d (handleCreate env cid p d)"
  by (auto simp: handleCreate_def Let_def split: option.split prod.split sum.split)

lemma answered_list: "answered cid d (handleList env cid p d)"
  by (auto simp: handleList_def Let_def)

lemma answered_info: "answered cid d (handleInfo env cid p d)"
  by (auto simp: handleInfo_def split: option.split sum.split)

lemma answered_kill: "answered cid d (handleKill env cid p d)"
  by (auto simp: handleKill_def split: option.split)

lemma answered_resize: "answered cid d (handleResize env cid p d)"
  by (auto simp: handleResize_def split: option.split sum.split prod.split)

lemma answered_input: "answered cid d (handleInput env cid p d)"
  by (auto simp: handleInput_def split: prod.split sum.split)

lemma answered_attach: "answered cid d (handleAttach env cid p d)"
  by (auto simp: handleAttach_def Let_def split: option.split sum.split prod.split)

lemma answered_detach: "answered cid d (handleDetach env cid p d)"
  by (auto simp: handleDetach_def Let_def case_prod_beta split: option.split)

lemma answered_shutdown: "answered cid d (handleShutdown env cid d)"
  unfolding handleShutdown_def by (rule answered_after [OF answered_ok]) simp_all

lemma answered_subscribe: "answered cid d (handleSubscribe env cid p d)"
  by (auto simp: handleSubscribe_def split: option.split prod.split)

lemma answered_status: "answered cid d (handleStatus env cid d)"
  by (auto simp: handleStatus_def)

lemma answered_metaset: "answered cid d (handleMetaSet env cid p d)"
  by (auto simp: handleMetaSet_def split: option.split)

lemma answered_metaget: "answered cid d (handleMetaGet env cid p d)"
  by (auto simp: handleMetaGet_def split: option.split sum.split)

lemma answered_env: "answered cid d (handleEnvForward env cid p d)"
  by (auto simp: handleEnvForward_def Let_def case_prod_beta split: option.split)

lemma answered_exec: "answered cid d (handleExec env cid p d)"
  by (auto simp: handleExec_def split: option.split)

lemma answered_execsync: "answered cid d (handleExecSync env cid p d)"
  by (auto simp: handleExecSync_def Let_def split: option.split prod.split)

lemma answered_record: "answered cid d (handleRecord env cid p d)"
  by (auto simp: handleRecord_def recordStart_def recordStop_def Let_def split: option.split sum.split prod.split)

lemma answered_killprefix: "answered cid d (handleKillPrefix env cid p d)"
  by (auto simp: handleKillPrefix_def Let_def split: option.split prod.split)

lemma answered_scrollback: "answered cid d (handleUpdateEmulatorScrollback env cid p d)"
  by (auto simp: handleUpdateEmulatorScrollback_def split: option.split)

lemmas answered_handlers =
  answered_create answered_list answered_info answered_kill answered_resize answered_input answered_attach
  answered_detach answered_shutdown answered_subscribe answered_status answered_metaset answered_metaget
  answered_env answered_exec answered_execsync answered_record answered_killprefix answered_scrollback

lemma answered_unknown: "answered cid d (err_reply env cid msg d)"
  by auto

text \<open>Except for waiting and history dumps, every request is answered in the handler.\<close>

lemma answered_dispatch:
  assumes "Type frame \<noteq> MsgWait" and "Type frame \<noteq> MsgHistory"
  shows "answered cid d (dispatch env cid frame d)"
  using assms by (simp add: dispatch_def Let_def answered_handlers answered_unknown)

lemma dispatch_wait: "Type frame = MsgWait \<Longrightarrow> dispatch env cid frame d = handleWait env cid (Payload frame) d"
  by (simp add: dispatch_def Let_def msg_defs)

lemma dispatch_history: "Type frame = MsgHistory \<Longrightarrow> dispatch env cid frame d = handleHistory env cid (Payload frame) d"
  by (simp add: dispatch_def Let_def msg_defs)

lemma wait_outcome:
  "answered cid d (handleWait env cid p d) \<or>
   (\<exists>w. w_client w = cid \<and> w_done w = None \<and> handleWait env cid p d = snd (addWaiter (w_session w) w d))"
proof (cases "\<exists>req info. wj_wait (de_wire env) p = Some req \<and> sm_Get (dm_svc d) (wq_SessionID req) = Inr info \<and>
    wq_Mode req \<in> {''exit'', ''idle'', ''match''}")
  case True
  then obtain req info where r: "wj_wait (de_wire env) p = Some req" "sm_Get (dm_svc d) (wq_SessionID req) = Inr info"
    "wq_Mode req \<in> {''exit'', ''idle'', ''match''}" by blast
  then have "handleWait env cid p d = snd (addWaiter (w_session (new_waiter env cid req)) (new_waiter env cid req) d)"
    by (simp add: handleWait_def new_waiter_def)
  moreover have "w_client (new_waiter env cid req) = cid" "w_done (new_waiter env cid req) = None"
    by (simp_all add: new_waiter_def)
  ultimately show ?thesis by blast
next
  case False
  then have "answered cid d (handleWait env cid p d)"
    by (auto simp: handleWait_def split: option.split sum.split)
  then show ?thesis ..
qed

section \<open>History dumps\<close>

lemma dm_server_replies: "dm_server (fold (\<lambda>x. reply cid (g x)) xs d) = fold (control_write cid) (map g xs) (dm_server d)"
  by (induction xs arbitrary: d) (simp_all add: reply_def)

lemma history_outcome:
  "answered cid d (handleHistory env cid p d) \<or>
   (\<exists>chunks. dm_server (handleHistory env cid p d) = fold (control_write cid) (map history_frame chunks @ [history_end]) (dm_server d))"
  by (auto simp: handleHistory_def dm_server_replies reply_def [of cid history_end] split: option.split sum.split)

lemma history_chunks_Nil [simp]: "history_chunks n [] = []"
  by (subst history_chunks.simps) simp

lemma history_chunks_spec:
  assumes "0 < n"
  shows "concat (history_chunks n data) = data \<and>
     (\<forall>c \<in> set (history_chunks n data). c \<noteq> [] \<and> length c \<le> n)"
  using assms
proof (induction n data rule: history_chunks.induct)
  case (1 n data)
  show ?case
  proof (cases "data = []")
    case True
    then show ?thesis by simp
  next
    case False
    let ?e = "if n > length data then length data else n"
    have ih: "concat (history_chunks n (drop ?e data)) = drop ?e data \<and>
        (\<forall>c \<in> set (history_chunks n (drop ?e data)). c \<noteq> [] \<and> length c \<le> n)"
      using 1 False by simp
    have "history_chunks n data = take ?e data # history_chunks n (drop ?e data)"
      using False 1(2) by (subst history_chunks.simps) (simp add: Let_def)
    with ih False 1(2) show ?thesis by simp
  qed
qed

lemma history_chunks_count:
  assumes "0 < n"
  shows "length (history_chunks n data) = (length data + n - 1) div n"
  using assms
proof (induction n data rule: history_chunks.induct)
  case (1 n data)
  show ?case
  proof (cases "data = []")
    case True
    with 1(2) show ?thesis by simp
  next
    case False
    let ?e = "if n > length data then length data else n"
    have "length (history_chunks n data) = Suc ((length data - ?e + n - 1) div n)"
      using 1 False by (subst history_chunks.simps) (simp add: Let_def)
    also have "\<dots> = (length data + n - 1) div n"
    proof (cases "length data < n")
      case True
      have "(length data + n - 1) div n = 1" using False 1(2) True by (cases data) (auto intro!: div_nat_eqI)
      with True 1(2) show ?thesis by simp
    next
      case False
      then have "length data + n - 1 = n + (length data - n + n - 1)" using 1(2) by simp
      then have "(length data + n - 1) div n = Suc ((length data - n + n - 1) div n)"
        using 1(2) by (simp only: div_add_self1)
      with False show ?thesis by simp
    qed
    finally show ?thesis .
  qed
qed

definition control_out :: "bytes \<Rightarrow> Server \<Rightarrow> bytes option" where
  "control_out cid s = map_option c_out (control_conn cid s)"

lemma control_conn_write:
  "control_conn c (control_write cid f s) =
     (if c = cid then map_option (\<lambda>conn. snd (WriteFrame conn f)) (control_conn cid s) else control_conn c s)"
  by (auto simp: control_conn_def control_write_def split: option.splits)

lemma control_conn_writes:
  assumes "control_conn cid s = Some conn" and "conn_healthy conn" and "\<forall>f \<in> set fs. length (Payload f) \<le> MaxPayloadSize"
  shows "control_conn cid (fold (control_write cid) fs s) = Some (conn\<lparr>c_out := c_out conn @ concat (map encode_frame fs)\<rparr>)"
  using assms
proof (induction fs arbitrary: s conn)
  case (Cons f fs)
  have "control_conn cid (control_write cid f s) = Some (conn\<lparr>c_out := c_out conn @ encode_frame f\<rparr>)"
    using Cons.prems by (simp add: control_conn_write WriteFrame_healthy)
  from Cons.IH [OF this] Cons.prems show ?case by simp
qed simp

lemma control_writes_other: "c \<noteq> cid \<Longrightarrow> control_conn c (fold (control_write cid) fs s) = control_conn c s"
  by (induction fs arbitrary: s) (simp_all add: control_conn_write)

section \<open>Properties\<close>

text \<open>(C6) Every request a client sends is answered on its own control connection and nowhere else: with
one status frame (OK or error), or, for a history dump, with data frames closed by exactly one end
frame, or, for an accepted wait, not yet but with a registered waiter that carries the client and
has no answer so far. This includes unparsable payloads and unknown message types.\<close>

theorem dispatch_answers_once:
  "(answered cid d (dispatch env cid frame d) \<or>
    (Type frame = MsgHistory \<and>
     (\<exists>chunks. dm_server (dispatch env cid frame d) =
        fold (control_write cid) (map history_frame chunks @ [history_end]) (dm_server d))) \<or>
    (Type frame = MsgWait \<and>
     (\<exists>w. w_client w = cid \<and> w_done w = None \<and> dispatch env cid frame d = snd (addWaiter (w_session w) w d)))) \<and>
   (c = cid \<or> control_conn c (dm_server (dispatch env cid frame d)) = control_conn c (dm_server d))"
proof -
  have *: "answered cid d (dispatch env cid frame d) \<or>
    (Type frame = MsgHistory \<and>
     (\<exists>chunks. dm_server (dispatch env cid frame d) =
        fold (control_write cid) (map history_frame chunks @ [history_end]) (dm_server d))) \<or>
    (Type frame = MsgWait \<and>
     (\<exists>w. w_client w = cid \<and> w_done w = None \<and> dispatch env cid frame d = snd (addWaiter (w_session w) w d)))"
    using answered_dispatch [of frame cid d env] history_outcome [of cid d env] wait_outcome [of cid d env]
    by (cases "Type frame = MsgHistory"; cases "Type frame = MsgWait")
       (auto simp: dispatch_history dispatch_wait)
  moreover have "\<exists>fs. dm_server (dispatch env cid frame d) = fold (control_write cid) fs (dm_server d)"
    using *
  proof (elim disjE conjE exE)
    assume "answered cid d (dispatch env cid frame d)"
    then obtain f where "dm_server (dispatch env cid frame d) = fold (control_write cid) [f] (dm_server d)"
      by (auto simp: answered_def)
    then show ?thesis ..
  next
    fix w assume "dispatch env cid frame d = snd (addWaiter (w_session w) w d)"
    then have "dm_server (dispatch env cid frame d) = fold (control_write cid) [] (dm_server d)"
      by (simp add: addWaiter_def Let_def)
    then show ?thesis ..
  qed blast
  ultimately show ?thesis using control_writes_other [of c cid] by metis
qed

text \<open>(C23) A history dump is complete and ends: for a client with a healthy control connection, the frames
written are data frames whose payloads concatenate to the rendered (and capped) screen, each
non-empty and at most 1 MiB so that it always fits a frame, as few as possible, followed by one
empty end frame.\<close>

theorem history_dump_complete:
  assumes "wj_history (de_wire env) p = Some req" and "hq_Format req \<in> {''ansi'', ''text'', ''html''}"
    and "sm_Snapshot env (dm_svc d) (hq_SessionID req) = Inr replay"
    and "control_conn cid (dm_server d) = Some conn" and "conn_healthy conn"
  shows "let data = history_data (hq_Format req) (dm_maxHistoryDumpSize d) replay;
             chunks = history_chunks chunkSize data
         in control_conn cid (dm_server (handleHistory env cid p d)) =
              Some (conn\<lparr>c_out := c_out conn @ concat (map encode_frame (map history_frame chunks @ [history_end]))\<rparr>) \<and>
            concat chunks = data \<and> list_all (\<lambda>c. c \<noteq> [] \<and> length c \<le> chunkSize) chunks \<and>
            length chunks = (length data + chunkSize - 1) div chunkSize"
proof -
  let ?data = "history_data (hq_Format req) (dm_maxHistoryDumpSize d) replay"
  let ?chunks = "history_chunks chunkSize ?data" and ?fs = "map history_frame (history_chunks chunkSize ?data) @ [history_end]"
  have pos: "0 < chunkSize" and le: "chunkSize \<le> MaxPayloadSize" by (simp_all add: chunkSize_def MaxPayloadSize_def)
  note spec = history_chunks_spec [OF pos, of ?data]
  have "dm_server (handleHistory env cid p d) = fold (control_write cid) ?fs (dm_server d)"
    using assms(1-3) by (simp add: handleHistory_def dm_server_replies reply_def [of cid history_end])
  moreover have "\<forall>f \<in> set ?fs. length (Payload f) \<le> MaxPayloadSize"
    using spec le by (fastforce simp: history_frame_def history_end_def)
  ultimately show ?thesis
    using control_conn_writes [OF assms(4,5), of ?fs] spec history_chunks_count [OF pos, of ?data]
    by (simp add: Let_def list_all_iff)
qed

theorem history_dump_complete_witness:
  "\<exists>replay. svc_Snapshot sample_ext sample_svc ''a'' = Inr replay \<and>
     (let chunks = history_chunks chunkSize replay
      in map_option c_out (control_conn ''c'' (dm_server (handleHistory sample_denv ''c'' ''a'' sample_daemon))) =
           Some (concat (map encode_frame (map history_frame chunks @ [history_end]))) \<and> concat chunks = replay)"
proof -
  obtain ms where "find_session sample_svc ''a'' = Some (0, ms)" using sample_find by auto
  then obtain replay where r: "svc_Snapshot sample_ext sample_svc ''a'' = Inr replay" by (simp add: svc_Snapshot_def)
  have c: "control_conn ''c'' (dm_server sample_daemon) = Some (open_conn [])"
    by (simp add: sample_daemon_def NewDaemon_def control_conn_def gm_get_Cons sample_client_def)
  have h: "wj_history (de_wire sample_denv) ''a'' = Some \<lparr>hq_SessionID = ''a'', hq_Format = ''ansi'', hq_Lines = 0\<rparr>"
    by (simp add: sample_denv_def sample_wire_def)
  have s: "sm_Snapshot sample_denv (dm_svc sample_daemon) ''a'' = Inr replay"
    using r by (simp add: sm_Snapshot_def wrap_err_def sample_denv_def)
  have m: "history_data ''ansi'' (dm_maxHistoryDumpSize sample_daemon) replay = replay"
    by (simp add: history_data_def sample_daemon_def NewDaemon_def)
  show ?thesis
    using history_dump_complete [OF h _ _ c] s r m sample_stream(2)
    by (simp add: Let_def open_conn_def)
qed

end
