(* ===== verification/Paths.thy ===== *)
theory Paths
  imports Files
begin

text \<open>
  The functions of \<^verbatim>\<open>path/filepath\<close> on strings, for the paths that come from flags and options. They
  are related to the component lists of the file system model for absolute paths.
\<close>

definition SLASH :: byte where "SLASH = CHR ''/''"

definition join_slash :: "bytes list \<Rightarrow> bytes" where
  "join_slash ss = concat (case ss of [] \<Rightarrow> [] | s # r \<Rightarrow> s # map (\<lambda>t. SLASH # t) r)"

text \<open>\<^verbatim>\<open>filepath.Clean\<close>: one component after the other, going up for \<^verbatim>\<open>..\<close> where that is possible.\<close>

definition clean_step :: "bool \<Rightarrow> bytes \<Rightarrow> bytes list \<Rightarrow> bytes list" where
  "clean_step rooted c out =
     (if c = [] \<or> c = ''.'' then out
      else if c = ''..''
      then if out \<noteq> [] \<and> last out \<noteq> ''..'' then butlast out else if rooted then out else out @ [''..'']
      else out @ [c])"

definition is_abs :: "bytes \<Rightarrow> bool" where
  "is_abs s \<longleftrightarrow> s \<noteq> [] \<and> hd s = SLASH"

definition Clean :: "bytes \<Rightarrow> bytes" where
  "Clean s =
     (let out = fold (clean_step (is_abs s)) (split_byte SLASH s) []
      in if is_abs s then SLASH # join_slash out
         else if out = [] then ''.'' else join_slash out)"

definition JoinS :: "bytes list \<Rightarrow> bytes" where
  "JoinS elems =
     (case filter (\<lambda>e. e \<noteq> []) elems of [] \<Rightarrow> [] | es \<Rightarrow> Clean (join_slash es))"

definition Dir :: "bytes \<Rightarrow> bytes" where
  "Dir s = Clean (case last_index_byte SLASH s of None \<Rightarrow> [] | Some i \<Rightarrow> take (Suc i) s)"

text \<open>The components of an absolute path.\<close>

definition path_of :: "bytes \<Rightarrow> path" where
  "path_of s = Join [] s"

lemma clean_step_nonempty: "[] \<notin> set out \<Longrightarrow> [] \<notin> set (fold (clean_step r) cs out)"
proof (induction cs arbitrary: out)
  case (Cons c cs)
  then have "[] \<notin> set (clean_step r c out)" by (auto simp: clean_step_def dest: in_set_butlastD)
  with Cons.IH show ?case by simp
qed simp

lemma join_slash_nonempty: "out \<noteq> [] \<Longrightarrow> [] \<notin> set out \<Longrightarrow> join_slash out \<noteq> []"
  by (cases out) (auto simp: join_slash_def)

lemma Clean_nonempty [simp]: "Clean s \<noteq> []"
  by (simp add: Clean_def Let_def join_slash_nonempty clean_step_nonempty)

lemma JoinS_nonempty: "\<exists>e \<in> set es. e \<noteq> [] \<Longrightarrow> JoinS es \<noteq> []"
  by (auto simp: JoinS_def split: list.split simp: filter_empty_conv)

lemma split_byte_plain [simp]: "b \<notin> set s \<Longrightarrow> split_byte b s = [s]"
  by (induction s) auto

lemma split_byte_append: "b \<notin> set s \<Longrightarrow> split_byte b (s @ b # t) = s # split_byte b t"
  by (induction s) auto

end
