(* ===== verification/ClientConfig.thy ===== *)
theory ClientConfig
  imports Paths Debug
begin

text \<open>
  Configuration of clients and embedded daemons (\<^verbatim>\<open>pkg/client\<close>: options.go, namespace.go, and the
  command line by which client.go starts a daemon and daemon.go reads it back). The type of the
  emulator factory is a parameter. \<^verbatim>\<open>os.UserHomeDir\<close> and \<^verbatim>\<open>os.TempDir\<close> are the record \<open>host\<close>.
\<close>

section \<open>Options (options.go)\<close>

record 'f config =
  cg_namespace :: bytes
  cg_baseDir :: bytes
  cg_socket :: bytes
  cg_tokenPath :: bytes
  cg_dataDir :: bytes
  cg_coldRestore :: bool
  cg_maxScrollbackSize :: int
  cg_autoStart :: bool
  cg_rpcTimeout :: duration
  cg_emulatorFactory :: "'f option"
  cg_debugLogPath :: bytes
  cg_debugLevel :: int
  cg_debugMaxSize :: int
  cg_debugMaxFiles :: int

type_synonym 'f Option = "'f config \<Rightarrow> 'f config"

definition newConfig :: "'f Option list \<Rightarrow> 'f config" where
  "newConfig opts =
     fold (\<lambda>o' c. o' c) opts
       \<lparr>cg_namespace = ''default'', cg_baseDir = [], cg_socket = [], cg_tokenPath = [], cg_dataDir = [],
        cg_coldRestore = False, cg_maxScrollbackSize = 0, cg_autoStart = True,
        cg_rpcTimeout = 10 * 1000000000, cg_emulatorFactory = None, cg_debugLogPath = [],
        cg_debugLevel = 0, cg_debugMaxSize = 0, cg_debugMaxFiles = 0\<rparr>"

definition WithNamespace :: "bytes \<Rightarrow> 'f Option" where
  "WithNamespace name c = c\<lparr>cg_namespace := name\<rparr>"

definition WithBaseDir :: "bytes \<Rightarrow> 'f Option" where
  "WithBaseDir p c = c\<lparr>cg_baseDir := p\<rparr>"

definition WithSocket :: "bytes \<Rightarrow> 'f Option" where
  "WithSocket p c = c\<lparr>cg_socket := p\<rparr>"

definition WithTokenPath :: "bytes \<Rightarrow> 'f Option" where
  "WithTokenPath p c = c\<lparr>cg_tokenPath := p\<rparr>"

definition WithDataDir :: "bytes \<Rightarrow> 'f Option" where
  "WithDataDir p c = c\<lparr>cg_dataDir := p\<rparr>"

definition WithAutoStart :: "bool \<Rightarrow> 'f Option" where
  "WithAutoStart on c = c\<lparr>cg_autoStart := on\<rparr>"

definition WithColdRestore :: "bool \<Rightarrow> 'f Option" where
  "WithColdRestore on c = c\<lparr>cg_coldRestore := on\<rparr>"

definition WithMaxScrollbackSize :: "int \<Rightarrow> 'f Option" where
  "WithMaxScrollbackSize n c = c\<lparr>cg_maxScrollbackSize := n\<rparr>"

definition WithEmulatorFactory :: "'f \<Rightarrow> 'f Option" where
  "WithEmulatorFactory f c = c\<lparr>cg_emulatorFactory := Some f\<rparr>"

definition WithRPCTimeout :: "duration \<Rightarrow> 'f Option" where
  "WithRPCTimeout t c = c\<lparr>cg_rpcTimeout := t\<rparr>"

definition WithDebugLog :: "bytes \<Rightarrow> 'f Option" where
  "WithDebugLog p c = c\<lparr>cg_debugLogPath := p\<rparr>"

definition WithDebugLevel :: "int \<Rightarrow> 'f Option" where
  "WithDebugLevel n c = c\<lparr>cg_debugLevel := n\<rparr>"

definition WithDebugMaxSize :: "int \<Rightarrow> 'f Option" where
  "WithDebugMaxSize n c = c\<lparr>cg_debugMaxSize := n\<rparr>"

definition WithDebugMaxFiles :: "int \<Rightarrow> 'f Option" where
  "WithDebugMaxFiles n c = c\<lparr>cg_debugMaxFiles := n\<rparr>"

lemmas option_defs =
  WithNamespace_def WithBaseDir_def WithSocket_def WithTokenPath_def WithDataDir_def WithAutoStart_def
  WithColdRestore_def WithMaxScrollbackSize_def WithEmulatorFactory_def WithRPCTimeout_def
  WithDebugLog_def WithDebugLevel_def WithDebugMaxSize_def WithDebugMaxFiles_def

section \<open>Namespaces (namespace.go)\<close>

record host =
  ho_home :: "bytes option"
  ho_temp :: bytes

definition defaultBaseDir :: "host \<Rightarrow> bytes" where
  "defaultBaseDir h =
     (case ho_home h of
        None \<Rightarrow> JoinS [ho_temp h, ''wmux'']
      | Some home \<Rightarrow> JoinS [home, ''.wmux''])"

definition resolveConfig :: "host \<Rightarrow> 'f config \<Rightarrow> 'f config" where
  "resolveConfig h cfg =
     (let c1 = (if cg_baseDir cfg = [] then cfg\<lparr>cg_baseDir := defaultBaseDir h\<rparr> else cfg);
          nsDir = JoinS [cg_baseDir c1, cg_namespace c1];
          c2 = (if cg_socket c1 = [] then c1\<lparr>cg_socket := JoinS [nsDir, ''daemon.sock'']\<rparr> else c1);
          c3 = (if cg_tokenPath c2 = [] then c2\<lparr>cg_tokenPath := JoinS [nsDir, ''daemon.token'']\<rparr> else c2)
      in if cg_dataDir c3 = [] then c3\<lparr>cg_dataDir := JoinS [nsDir, ''sessions'']\<rparr> else c3)"

section \<open>The daemon's command line (client.go, daemon.go)\<close>

definition daemonSentinel :: bytes where "daemonSentinel = ''__wmux_daemon__''"

definition isDaemonMode :: "bytes list \<Rightarrow> bool" where
  "isDaemonMode args = list_ex (\<lambda>a. a = daemonSentinel) args"

definition buildDaemonArgs :: "'f config \<Rightarrow> bytes list" where
  "buildDaemonArgs cfg =
     [daemonSentinel] @
     (if cg_baseDir cfg \<noteq> [] then [''--base-dir'', cg_baseDir cfg] else []) @
     (if cg_namespace cfg \<noteq> ''default'' then [''--namespace'', cg_namespace cfg] else []) @
     [''--socket'', cg_socket cfg, ''--token-path'', cg_tokenPath cfg, ''--data-dir'', cg_dataDir cfg] @
     (if cg_coldRestore cfg then [''--cold-restore''] else []) @
     (if cg_maxScrollbackSize cfg > 0 then [''--max-scrollback'', Itoa (cg_maxScrollbackSize cfg)] else [])"

definition value_option :: "bytes \<Rightarrow> (bytes \<Rightarrow> 'f Option list) option" where
  "value_option a =
     (if a = ''--base-dir'' then Some (\<lambda>v. [WithBaseDir v])
      else if a = ''--namespace'' then Some (\<lambda>v. [WithNamespace v])
      else if a = ''--socket'' then Some (\<lambda>v. [WithSocket v])
      else if a = ''--token-path'' then Some (\<lambda>v. [WithTokenPath v])
      else if a = ''--data-dir'' then Some (\<lambda>v. [WithDataDir v])
      else if a = ''--max-scrollback''
      then Some (\<lambda>v. if snd (ParseInt v) = None then [WithMaxScrollbackSize (fst (ParseInt v))] else [])
      else None)"

text \<open>The loop over the arguments; the index jumps over the value of a flag.\<close>

fun parseDaemonArgs :: "bytes list \<Rightarrow> 'f Option list" where
  "parseDaemonArgs [] = []"
| "parseDaemonArgs [a] = (if a = ''--cold-restore'' then [WithColdRestore True] else [])"
| "parseDaemonArgs (a # v # rest) =
     (case value_option a of
        Some f \<Rightarrow> f v @ parseDaemonArgs rest
      | None \<Rightarrow> (if a = ''--cold-restore'' then [WithColdRestore True] else []) @ parseDaemonArgs (v # rest))"

section \<open>Debug settings (daemon.go)\<close>

definition resolveDebugConfig :: "EnvConfig \<Rightarrow> 'f config \<Rightarrow> EnvConfig" where
  "resolveDebugConfig env c =
     (let cfg = \<lparr>ec_Enabled = False, ec_Path = [], ec_Level = 0, ec_MaxSizeMB = 50, ec_MaxFiles = 7\<rparr>;
          c1 = (if cg_debugLogPath c \<noteq> []
                then cfg\<lparr>ec_Enabled := True, ec_Path := cg_debugLogPath c, ec_Level := LevelChunk\<rparr>
                else if ec_Enabled env
                then cfg\<lparr>ec_Enabled := True, ec_Path := ec_Path env, ec_Level := ec_Level env\<rparr> else cfg)
      in if \<not> ec_Enabled c1 then c1
         else
           let c2 = (if cg_debugLevel c > 0 then c1\<lparr>ec_Level := ClampLevel (cg_debugLevel c)\<rparr>
                     else if ec_Level env > LevelOff then c1\<lparr>ec_Level := ec_Level env\<rparr> else c1);
               c3 = (if cg_debugMaxSize c > 0 then c2\<lparr>ec_MaxSizeMB := cg_debugMaxSize c\<rparr>
                     else if ec_MaxSizeMB env > 0 then c2\<lparr>ec_MaxSizeMB := ec_MaxSizeMB env\<rparr> else c2)
           in if cg_debugMaxFiles c > 0 then c3\<lparr>ec_MaxFiles := cg_debugMaxFiles c\<rparr>
              else if ec_MaxFiles env > 0 then c3\<lparr>ec_MaxFiles := ec_MaxFiles env\<rparr> else c3)"

section \<open>Properties\<close>

lemma defaultBaseDir_nonempty [simp]: "defaultBaseDir h \<noteq> []"
  by (simp add: defaultBaseDir_def JoinS_nonempty split: option.split)

lemma resolve_nonempty:
  "cg_baseDir (resolveConfig h cfg) \<noteq> []" "cg_socket (resolveConfig h cfg) \<noteq> []"
  "cg_tokenPath (resolveConfig h cfg) \<noteq> []" "cg_dataDir (resolveConfig h cfg) \<noteq> []"
  by (simp_all add: resolveConfig_def Let_def JoinS_nonempty)

lemma resolve_keeps [simp]:
  "cg_maxScrollbackSize (resolveConfig h cfg) = cg_maxScrollbackSize cfg" "cg_autoStart (resolveConfig h cfg) = cg_autoStart cfg"
  by (simp_all add: resolveConfig_def Let_def)

lemma resolve_fixed:
  "cg_baseDir cfg \<noteq> [] \<Longrightarrow> cg_socket cfg \<noteq> [] \<Longrightarrow> cg_tokenPath cfg \<noteq> [] \<Longrightarrow> cg_dataDir cfg \<noteq> [] \<Longrightarrow>
   resolveConfig h cfg = cfg"
  by (simp add: resolveConfig_def Let_def)

lemma parse_skip:
  assumes "value_option a = (None :: (bytes \<Rightarrow> 'f Option list) option)" and "a \<noteq> ''--cold-restore''"
  shows "parseDaemonArgs (a # as) = (parseDaemonArgs as :: 'f Option list)"
  using assms by (cases as) simp_all

lemma parse_cold: "parseDaemonArgs (''--cold-restore'' # as) = WithColdRestore True # parseDaemonArgs as"
  by (cases as) (simp_all add: value_option_def)

lemma parse_flags:
  "parseDaemonArgs (''--base-dir'' # v # as) = WithBaseDir v # parseDaemonArgs as"
  "parseDaemonArgs (''--namespace'' # v # as) = WithNamespace v # parseDaemonArgs as"
  "parseDaemonArgs (''--socket'' # v # as) = WithSocket v # parseDaemonArgs as"
  "parseDaemonArgs (''--token-path'' # v # as) = WithTokenPath v # parseDaemonArgs as"
  "parseDaemonArgs (''--data-dir'' # v # as) = WithDataDir v # parseDaemonArgs as"
  "parseDaemonArgs (''--max-scrollback'' # v # as) =
     (if snd (ParseInt v) = None then [WithMaxScrollbackSize (fst (ParseInt v))] else []) @ parseDaemonArgs as"
  by (simp_all add: value_option_def)

declare parseDaemonArgs.simps(2,3) [simp del]

lemma parse_build:
  assumes "cg_baseDir c \<noteq> []" and "in_int64 (cg_maxScrollbackSize c)"
  shows "parseDaemonArgs (buildDaemonArgs c) =
     WithBaseDir (cg_baseDir c) #
     (if cg_namespace c \<noteq> ''default'' then [WithNamespace (cg_namespace c)] else []) @
     [WithSocket (cg_socket c), WithTokenPath (cg_tokenPath c), WithDataDir (cg_dataDir c)] @
     (if cg_coldRestore c then [WithColdRestore True] else []) @
     (if cg_maxScrollbackSize c > 0 then [WithMaxScrollbackSize (cg_maxScrollbackSize c)] else [])"
proof -
  have s: "parseDaemonArgs (daemonSentinel # as) = (parseDaemonArgs as :: 'f Option list)" for as
    by (rule parse_skip) (simp_all add: value_option_def daemonSentinel_def)
  have "ParseInt (Itoa (cg_maxScrollbackSize c)) = (cg_maxScrollbackSize c, None)"
    using Atoi_Itoa [OF assms(2)] by (simp add: Atoi_def)
  with assms(1) show ?thesis by (simp add: buildDaemonArgs_def s parse_flags parse_cold)
qed

lemma fold_factories [simp]:
  "fold (\<lambda>o' c. o' c) (map WithEmulatorFactory fs) c =
     (if fs = [] then c else c\<lparr>cg_emulatorFactory := Some (last fs)\<rparr>)"
  by (induction fs arbitrary: c) (auto simp: option_defs)

text \<open>The configuration a daemon reads back from the command line it was started with, given only an emulator besides.\<close>

lemma daemon_reads_back:
  fixes exe :: bytes and cfg :: "'f config" and fs :: "'f list"
  assumes "value_option exe = (None :: (bytes \<Rightarrow> 'f Option list) option)" and "exe \<noteq> ''--cold-restore''"
    and "in_int64 (cg_maxScrollbackSize cfg)" and "c = resolveConfig h cfg"
    and "c' = resolveConfig h' (newConfig (parseDaemonArgs (exe # buildDaemonArgs c) @ map WithEmulatorFactory fs))"
  shows "cg_namespace c' = cg_namespace c \<and> cg_baseDir c' = cg_baseDir c \<and> cg_socket c' = cg_socket c \<and>
     cg_tokenPath c' = cg_tokenPath c \<and> cg_dataDir c' = cg_dataDir c \<and> cg_coldRestore c' = cg_coldRestore c \<and>
     cg_maxScrollbackSize c' = max 0 (cg_maxScrollbackSize c)"
proof -
  have ne: "cg_baseDir c \<noteq> []" "cg_socket c \<noteq> []" "cg_tokenPath c \<noteq> []" "cg_dataDir c \<noteq> []"
    by (simp_all add: assms(4) resolve_nonempty)
  have m: "in_int64 (cg_maxScrollbackSize c)" using assms(3,4) by (simp add: resolveConfig_def Let_def)
  let ?n = "newConfig (parseDaemonArgs (exe # buildDaemonArgs c) @ map WithEmulatorFactory fs) :: 'f config"
  have n: "cg_namespace ?n = cg_namespace c" "cg_baseDir ?n = cg_baseDir c" "cg_socket ?n = cg_socket c"
    "cg_tokenPath ?n = cg_tokenPath c" "cg_dataDir ?n = cg_dataDir c" "cg_coldRestore ?n = cg_coldRestore c"
    "cg_maxScrollbackSize ?n = max 0 (cg_maxScrollbackSize c)"
    using parse_build [OF ne(1) m, where ?'b = 'f] by (simp_all add: parse_skip [OF assms(1,2)] newConfig_def option_defs)
  then have "resolveConfig h' ?n = ?n" using ne by (intro resolve_fixed) simp_all
  with n show ?thesis by (simp add: assms(5))
qed

text \<open>The daemon a client starts runs with the client's configuration: reading back the command line
that \<^verbatim>\<open>buildDaemonArgs\<close> makes of a resolved configuration gives the same namespace, directories,
socket, token path, cold-restore switch and (positive) scrollback limit, for any values of these,
flag-like ones included, and whatever home directory the daemon sees. The command line is
recognised as a daemon's.\<close>

lemma daemon_args_roundtrip:
  assumes "value_option exe = (None :: (bytes \<Rightarrow> 'f Option list) option)" and "exe \<noteq> ''--cold-restore''"
    and "in_int64 (cg_maxScrollbackSize cfg)"
    and "c = resolveConfig h (cfg :: 'f config)"
    and "c' = resolveConfig h' (newConfig (parseDaemonArgs (exe # buildDaemonArgs c)) :: 'f config)"
  shows "cg_namespace c' = cg_namespace c \<and> cg_baseDir c' = cg_baseDir c \<and> cg_socket c' = cg_socket c \<and>
     cg_tokenPath c' = cg_tokenPath c \<and> cg_dataDir c' = cg_dataDir c \<and> cg_coldRestore c' = cg_coldRestore c \<and>
     cg_maxScrollbackSize c' = max 0 (cg_maxScrollbackSize c) \<and> isDaemonMode (exe # buildDaemonArgs c)"
  using daemon_reads_back [OF assms(1-4), of c' h' "[]"] assms(5) by (simp add: isDaemonMode_def buildDaemonArgs_def)

end
