(* ===== verification/Config.thy ===== *)
theory Config
  imports Files
begin

text \<open>
  The configuration file (\<^verbatim>\<open>internal/platform/config/config.go\<close>). The TOML parser and the decoder of
  koanf and the digest of \<^verbatim>\<open>crypto/sha256\<close> are the record \<open>conf_lib\<close>; the decoder writes the keys it
  finds into a configuration that already holds the defaults.
\<close>

record DaemonConfig =
  dc_Socket :: bytes
  dc_MaxSessions :: int
  dc_IdleTTL :: bytes
  dc_RSSWarning :: bytes
  dc_RemainOnExit :: bool
  dc_MaxConcurrentSpawns :: int
  dc_AutomationMode :: bytes

record EmulatorConfig =
  em_Backend :: bytes
  em_XtermBin :: bytes

record HistoryConfig =
  hc_MaxPerSession :: bytes
  hc_MaxTotal :: bytes
  hc_Recording :: bool
  hc_ColdRestore :: bool
  hc_MaxDumpSize :: bytes

record BackpressureConfig =
  bc_HighWatermark :: bytes
  bc_LowWatermark :: bytes
  bc_BatchInterval :: bytes

record HeartbeatConfig =
  hb_c_Interval :: bytes
  hb_c_MaxMissed :: int

record ShellConfig =
  sh_Default :: bytes
  sh_UseWrapper :: bool

text \<open>\<^verbatim>\<open>ReaperConfig\<close>, \<^verbatim>\<open>EnvironmentConfig\<close>, \<^verbatim>\<open>WatchdogConfig\<close>, \<^verbatim>\<open>ResizeConfig\<close> and \<^verbatim>\<open>RecordingConfig\<close> have one field each.\<close>

record Config =
  cf_Daemon :: DaemonConfig
  cf_Emulator :: EmulatorConfig
  cf_History :: HistoryConfig
  cf_Backpressure :: BackpressureConfig
  cf_Heartbeat :: HeartbeatConfig
  cf_ReaperCheckInterval :: bytes
  cf_EnvironmentUpdate :: "bytes list"
  cf_Shell :: ShellConfig
  cf_WatchdogTimeout :: bytes
  cf_ResizeStrategy :: bytes
  cf_RecordingMaxFileSize :: bytes

definition Defaults :: Config where
  "Defaults =
     \<lparr>cf_Daemon = \<lparr>dc_Socket = ''~/.wmux/daemon.sock'', dc_MaxSessions = 0, dc_IdleTTL = ''0'', dc_RSSWarning = ''0'',
                   dc_RemainOnExit = False, dc_MaxConcurrentSpawns = 3, dc_AutomationMode = ''same-user''\<rparr>,
      cf_Emulator = \<lparr>em_Backend = ''none'', em_XtermBin = []\<rparr>,
      cf_History = \<lparr>hc_MaxPerSession = ''0'', hc_MaxTotal = ''0'', hc_Recording = False, hc_ColdRestore = False,
                    hc_MaxDumpSize = ''10MB''\<rparr>,
      cf_Backpressure = \<lparr>bc_HighWatermark = ''1MB'', bc_LowWatermark = ''256KB'', bc_BatchInterval = ''16ms''\<rparr>,
      cf_Heartbeat = \<lparr>hb_c_Interval = ''10s'', hb_c_MaxMissed = 3\<rparr>,
      cf_ReaperCheckInterval = ''5m'',
      cf_EnvironmentUpdate = [''SSH_AUTH_SOCK'', ''SSH_CONNECTION'', ''DISPLAY''],
      cf_Shell = \<lparr>sh_Default = [], sh_UseWrapper = False\<rparr>,
      cf_WatchdogTimeout = ''30s'', cf_ResizeStrategy = ''leader'', cf_RecordingMaxFileSize = ''50MB''\<rparr>"

record 'k conf_lib =
  kl_parse :: "bytes \<Rightarrow> 'k option"
  kl_unmarshal :: "'k \<Rightarrow> Config \<Rightarrow> Config option"
  kl_sha256 :: "bytes \<Rightarrow> bytes"

datatype conf_error = ErrConfRead io_error | ErrConfParse | ErrConfUnmarshal

definition Load :: "'k conf_lib \<Rightarrow> path \<Rightarrow> fs \<Rightarrow> conf_error + Config" where
  "Load L p f =
     (case ReadFile p f of
        Inl e \<Rightarrow> Inl (ErrConfRead e)
      | Inr data \<Rightarrow>
          (case kl_parse L data of
             None \<Rightarrow> Inl ErrConfParse
           | Some k \<Rightarrow>
               (case kl_unmarshal L k Defaults of
                  None \<Rightarrow> Inl ErrConfUnmarshal
                | Some cfg \<Rightarrow> Inr cfg)))"

definition fileHash :: "'k conf_lib \<Rightarrow> path \<Rightarrow> fs \<Rightarrow> conf_error + bytes" where
  "fileHash L p f = (case ReadFile p f of Inl e \<Rightarrow> Inl (ErrConfRead e) | Inr data \<Rightarrow> Inr (kl_sha256 L data))"

text \<open>
  \<^verbatim>\<open>Watch\<close> before it starts its goroutine, and one tick of the goroutine. The file is read twice, at
  start and in a tick, and may change in between, so that two states of the file system are given.
\<close>

definition Watch :: "'k conf_lib \<Rightarrow> path \<Rightarrow> fs \<Rightarrow> fs \<Rightarrow> conf_error + bytes" where
  "Watch L p f f' = (case Load L p f of Inl e \<Rightarrow> Inl e | Inr cfg \<Rightarrow> fileHash L p f')"

definition watch_tick :: "'k conf_lib \<Rightarrow> path \<Rightarrow> fs \<times> fs \<Rightarrow> bytes \<times> Config list \<Rightarrow> bytes \<times> Config list" where
  "watch_tick L p ff = (\<lambda>(current, reported).
     case fileHash L p (fst ff) of
       Inl e \<Rightarrow> (current, reported)
     | Inr h \<Rightarrow>
         if h = current then (current, reported)
         else case Load L p (snd ff) of
                Inl e \<Rightarrow> (h, reported)
              | Inr cfg \<Rightarrow> (h, reported @ [cfg]))"

section \<open>The watcher against its specification\<close>

text \<open>What the watcher should report: the configuration at every tick that finds new readable content.\<close>

fun watch_ref :: "'k conf_lib \<Rightarrow> path \<Rightarrow> bytes \<Rightarrow> (fs \<times> fs) list \<Rightarrow> Config list" where
  "watch_ref L p prev [] = []"
| "watch_ref L p prev (ff # ffs) =
     (case ReadFile p (fst ff) of
        Inl e \<Rightarrow> watch_ref L p prev ffs
      | Inr c \<Rightarrow>
          if c = prev then watch_ref L p prev ffs
          else (case Load L p (snd ff) of Inl e \<Rightarrow> [] | Inr cfg \<Rightarrow> [cfg]) @ watch_ref L p c ffs)"

definition contents :: "path \<Rightarrow> (fs \<times> fs) list \<Rightarrow> bytes set" where
  "contents p ffs = {c. \<exists>ff \<in> set ffs. ReadFile p (fst ff) = Inr c}"

lemma contents_Cons:
  "contents p (ff # ffs) = (case ReadFile p (fst ff) of Inl e \<Rightarrow> {} | Inr c \<Rightarrow> {c}) \<union> contents p ffs"
  by (auto simp: contents_def split: sum.splits)

lemma watch_tick_apply:
  "watch_tick L p ff (current, rep) =
     (case ReadFile p (fst ff) of
        Inl e \<Rightarrow> (current, rep)
      | Inr c \<Rightarrow>
          if kl_sha256 L c = current then (current, rep)
          else (kl_sha256 L c, rep @ (case Load L p (snd ff) of Inl e \<Rightarrow> [] | Inr cfg \<Rightarrow> [cfg])))"
  by (simp add: watch_tick_def fileHash_def split: sum.split)

lemma watch_run_ref:
  "inj_on (kl_sha256 L) (insert prev (contents p ffs)) \<Longrightarrow>
   snd (fold (watch_tick L p) ffs (kl_sha256 L prev, rep)) = rep @ watch_ref L p prev ffs"
proof (induction ffs arbitrary: prev rep)
  case (Cons ff ffs)
  note inj = Cons.prems [unfolded contents_Cons]
  show ?case
  proof (cases "ReadFile p (fst ff)")
    case (Inl e)
    with inj Cons.IH [of prev rep] show ?thesis by (simp add: watch_tick_apply)
  next
    case (Inr c)
    have "contents p (ff # ffs) = insert c (contents p ffs)" by (simp add: contents_Cons Inr)
    then have inj': "inj_on (kl_sha256 L) (insert prev (insert c (contents p ffs)))" using Cons.prems by (simp only:)
    have eq: "kl_sha256 L c = kl_sha256 L prev \<longleftrightarrow> c = prev" by (rule inj_on_eq_iff [OF inj']) simp_all
    have "inj_on (kl_sha256 L) (insert c (contents p ffs))" by (rule inj_on_subset [OF inj']) auto
    moreover have "inj_on (kl_sha256 L) (insert prev (contents p ffs))" by (rule inj_on_subset [OF inj']) auto
    ultimately show ?thesis
      using Inr eq Cons.IH by (simp add: watch_tick_apply)
  qed
qed simp

text \<open>The watcher reports every change exactly once: started on a file with content \<open>c0\<close>, it calls
back, in order, with the configuration loaded at each tick whose content differs from the content
of the last readable tick; unreadable ticks are skipped and a content that does not load is passed
over. The digest has to tell the contents apart that were seen.\<close>

lemma config_watch_reports:
  assumes "ReadFile p f' = Inr c0" and "Watch L p f f' = Inr h"
    and "inj_on (kl_sha256 L) (insert c0 (contents p ffs))"
  shows "snd (fold (watch_tick L p) ffs (h, [])) = watch_ref L p c0 ffs"
  using assms watch_run_ref [OF assms(3), of "[]"]
  by (auto simp: Watch_def fileHash_def split: sum.splits)

end
