(* ===== verification/ClientRpc.thy ===== *)
theory ClientRpc
  imports Protocol
begin

text \<open>
  The control channel of the Go client (\<^verbatim>\<open>pkg/client\<close>: \<^verbatim>\<open>sendRequest\<close> of client.go, \<^verbatim>\<open>readControl\<close> of
  stream.go, \<^verbatim>\<open>History\<close> and \<^verbatim>\<open>historyReader\<close> of recording.go) as the atomic steps of its goroutines. A
  frame carries, as a ghost, the number of the request it answers; no step looks at it.
\<close>

type_synonym gframe = "nat \<times> Frame"

text \<open>
  Where a goroutine is in a call: outside, past \<^verbatim>\<open>drainWg.Wait\<close> but without the lock, in the select of
  \<^verbatim>\<open>sendRequest\<close> (holding \<^verbatim>\<open>rpcMu\<close>) or in the select of \<^verbatim>\<open>History\<close> (without the lock).
\<close>

datatype rpc_phase = PhIdle | PhPastDrain | PhHolding nat | PhHistory nat

datatype rpc_error = ErrWrite | ErrConnectionClosed | ErrRequestTimeout

record Client =
  cn_phase :: "(nat, rpc_phase) gomap"
  cn_drains :: nat
  cn_responses :: "gframe list"
  cn_history :: "gframe list"
  cn_readerGone :: bool
  cn_inbox :: "gframe list"
  cn_inboxEnd :: bool
  cn_writeFails :: bool
  cn_done :: bool
  cn_next :: nat
  cn_pending :: "(nat \<times> Frame) list"
  cn_results :: "(nat \<times> (rpc_error + gframe)) list"
  cn_events :: "bytes list"

definition responsesCap :: nat where "responsesCap = 1"
definition historyCap :: nat where "historyCap = 4"

definition new_client :: Client where
  "new_client =
     \<lparr>cn_phase = [], cn_drains = 0, cn_responses = [], cn_history = [], cn_readerGone = False, cn_inbox = [],
      cn_inboxEnd = False, cn_writeFails = False, cn_done = False, cn_next = 0, cn_pending = [], cn_results = [],
      cn_events = []\<rparr>"

definition phase :: "Client \<Rightarrow> nat \<Rightarrow> rpc_phase" where
  "phase c t = (case gm_get (cn_phase c) t of None \<Rightarrow> PhIdle | Some p \<Rightarrow> p)"

definition set_phase :: "nat \<Rightarrow> rpc_phase \<Rightarrow> Client \<Rightarrow> Client" where
  "set_phase t p c = c\<lparr>cn_phase := gm_put t p (cn_phase c)\<rparr>"

definition locked :: "Client \<Rightarrow> bool" where
  "locked c \<longleftrightarrow> list_ex (\<lambda>(t, p). case p of PhHolding n \<Rightarrow> True | _ \<Rightarrow> False) (cn_phase c)"

section \<open>sendRequest\<close>

text \<open>\<^verbatim>\<open>c.drainWg.Wait()\<close>; \<open>None\<close> while a goroutine that drains a stale response is left.\<close>

definition rpc_enter :: "nat \<Rightarrow> Client \<Rightarrow> Client option" where
  "rpc_enter t c =
     (if phase c t = PhIdle \<and> cn_drains c = 0 then Some (set_phase t PhPastDrain c) else None)"

text \<open>Taking the lock and writing the request.\<close>

definition rpc_write :: "nat \<Rightarrow> byte \<Rightarrow> bytes \<Rightarrow> Client \<Rightarrow> Client option" where
  "rpc_write t msgType payload c =
     (if phase c t \<noteq> PhPastDrain \<or> locked c then None
      else if cn_writeFails c
      then Some (set_phase t PhIdle (c\<lparr>cn_next := Suc (cn_next c), cn_results := cn_results c @ [(cn_next c, Inl ErrWrite)]\<rparr>))
      else Some (set_phase t (PhHolding (cn_next c))
             (c\<lparr>cn_next := Suc (cn_next c),
                cn_pending := cn_pending c @
                  [(cn_next c, \<lparr>Version = ProtocolVersion, Type = msgType, Payload = payload\<rparr>)]\<rparr>)))"

text \<open>The two arms of the select. A receive on the closed channel returns at once.\<close>

definition rpc_receive :: "nat \<Rightarrow> Client \<Rightarrow> Client option" where
  "rpc_receive t c =
     (case phase c t of
        PhHolding n \<Rightarrow>
          (case cn_responses c of
             r # rest \<Rightarrow> Some (set_phase t PhIdle (c\<lparr>cn_responses := rest, cn_results := cn_results c @ [(n, Inr r)]\<rparr>))
           | [] \<Rightarrow>
               if cn_readerGone c
               then Some (set_phase t PhIdle (c\<lparr>cn_results := cn_results c @ [(n, Inl ErrConnectionClosed)]\<rparr>))
               else None)
      | _ \<Rightarrow> None)"

definition rpc_timeout :: "nat \<Rightarrow> Client \<Rightarrow> Client option" where
  "rpc_timeout t c =
     (case phase c t of
        PhHolding n \<Rightarrow>
          Some (set_phase t PhIdle
            (c\<lparr>cn_drains := Suc (cn_drains c), cn_results := cn_results c @ [(n, Inl ErrRequestTimeout)]\<rparr>))
      | _ \<Rightarrow> None)"

text \<open>The drain goroutine: it takes a response, or ends when the channel or the client is closed.\<close>

definition drain_step :: "Client \<Rightarrow> Client option" where
  "drain_step c =
     (if cn_drains c = 0 then None
      else case cn_responses c of
             r # rest \<Rightarrow> Some (c\<lparr>cn_responses := rest, cn_drains := cn_drains c - 1\<rparr>)
           | [] \<Rightarrow> if cn_readerGone c \<or> cn_done c then Some (c\<lparr>cn_drains := cn_drains c - 1\<rparr>) else None)"

section \<open>readControl (stream.go)\<close>

text \<open>
  One iteration: the next frame of the connection goes to the event handler or into one of two
  channels, where the goroutine blocks (\<open>None\<close>) while the channel is full.
\<close>

definition readControl_iter :: "Client \<Rightarrow> Client option" where
  "readControl_iter c =
     (if cn_readerGone c then None
      else case cn_inbox c of
             [] \<Rightarrow> if cn_inboxEnd c then Some (c\<lparr>cn_readerGone := True\<rparr>) else None
           | g # rest \<Rightarrow>
               let c' = c\<lparr>cn_inbox := rest\<rparr> in
               if Type (snd g) = MsgEvent then Some (c'\<lparr>cn_events := cn_events c @ [Payload (snd g)]\<rparr>)
               else if Type (snd g) = MsgHistory \<or> Type (snd g) = MsgHistoryEnd
               then if length (cn_history c) < historyCap then Some (c'\<lparr>cn_history := cn_history c @ [g]\<rparr>) else None
               else if length (cn_responses c) < responsesCap
               then Some (c'\<lparr>cn_responses := cn_responses c @ [g]\<rparr>) else None)"

section \<open>History and its reader (recording.go)\<close>

definition history_write :: "nat \<Rightarrow> bytes \<Rightarrow> Client \<Rightarrow> Client option" where
  "history_write t payload c =
     (if phase c t \<noteq> PhIdle \<or> locked c then None
      else if cn_writeFails c
      then Some (c\<lparr>cn_next := Suc (cn_next c), cn_results := cn_results c @ [(cn_next c, Inl ErrWrite)]\<rparr>)
      else Some (set_phase t (PhHistory (cn_next c))
             (c\<lparr>cn_next := Suc (cn_next c),
                cn_pending := cn_pending c @
                  [(cn_next c, \<lparr>Version = ProtocolVersion, Type = MsgHistory, Payload = payload\<rparr>)]\<rparr>)))"

text \<open>The reader. \<open>HistEmpty\<close> below is the empty reader of \<^verbatim>\<open>io.NopCloser\<close>.\<close>

record historyReader =
  hr_buf :: bytes
  hr_done :: bool
  hr_initial :: bytes
  hr_usedInit :: bool

definition new_reader :: "bytes \<Rightarrow> historyReader" where
  "new_reader init = \<lparr>hr_buf = [], hr_done = False, hr_initial = init, hr_usedInit = False\<rparr>"

datatype history_outcome = HistClosed | HistEmpty | HistReader historyReader | HistError gframe | HistUnexpected gframe

definition history_first :: "nat \<Rightarrow> Client \<Rightarrow> (history_outcome \<times> Client) option" where
  "history_first t c =
     (case phase c t of
        PhHistory n \<Rightarrow>
          (case cn_history c of
             g # rest \<Rightarrow>
               Some (if Type (snd g) = MsgHistoryEnd then HistEmpty else HistReader (new_reader (Payload (snd g))),
                     set_phase t PhIdle (c\<lparr>cn_history := rest\<rparr>))
           | [] \<Rightarrow> if cn_readerGone c then Some (HistClosed, set_phase t PhIdle c) else None)
      | _ \<Rightarrow> None)"

definition history_refused :: "nat \<Rightarrow> Client \<Rightarrow> (history_outcome \<times> Client) option" where
  "history_refused t c =
     (case phase c t of
        PhHistory n \<Rightarrow>
          (case cn_responses c of
             g # rest \<Rightarrow>
               Some (if Type (snd g) = MsgError then HistError g else HistUnexpected g,
                     set_phase t PhIdle (c\<lparr>cn_responses := rest\<rparr>))
           | [] \<Rightarrow> if cn_readerGone c then Some (HistClosed, set_phase t PhIdle c) else None)
      | _ \<Rightarrow> None)"

datatype read_result = RdData bytes | RdEOF | RdUnexpected byte

text \<open>\<^verbatim>\<open>Read\<close> into a slice of length \<open>n\<close>; \<open>None\<close> while it blocks on the empty open channel.\<close>

definition hr_Read :: "nat \<Rightarrow> historyReader \<Rightarrow> Client \<Rightarrow> (read_result \<times> historyReader \<times> Client) option" where
  "hr_Read n r c =
     (let r1 = (if \<not> hr_usedInit r \<and> hr_initial r \<noteq> [] then r\<lparr>hr_usedInit := True, hr_buf := hr_initial r\<rparr> else r)
      in if hr_buf r1 \<noteq> [] then Some (RdData (take n (hr_buf r1)), r1\<lparr>hr_buf := drop n (hr_buf r1)\<rparr>, c)
         else if hr_done r1 then Some (RdEOF, r1, c)
         else case cn_history c of
                [] \<Rightarrow> if cn_readerGone c then Some (RdEOF, r1\<lparr>hr_done := True\<rparr>, c) else None
              | g # rest \<Rightarrow>
                  let c' = c\<lparr>cn_history := rest\<rparr> in
                  if Type (snd g) = MsgHistoryEnd then Some (RdEOF, r1\<lparr>hr_done := True\<rparr>, c')
                  else if Type (snd g) \<noteq> MsgHistory then Some (RdUnexpected (Type (snd g)), r1\<lparr>hr_done := True\<rparr>, c')
                  else Some (RdData (take n (Payload (snd g))),
                             (if n < length (Payload (snd g)) then r1\<lparr>hr_buf := drop n (Payload (snd g))\<rparr> else r1), c'))"

definition hr_Close :: "historyReader \<Rightarrow> historyReader" where
  "hr_Close r = r\<lparr>hr_done := True\<rparr>"

section \<open>Closing\<close>

text \<open>\<^verbatim>\<open>Close\<close>; \<open>None\<close> is the panic of closing \<^verbatim>\<open>done\<close> twice.\<close>

definition Client_Close :: "Client \<Rightarrow> Client option" where
  "Client_Close c = (if cn_done c then None else Some (c\<lparr>cn_done := True, cn_inboxEnd := True, cn_inbox := [], cn_writeFails := True\<rparr>))"

section \<open>Runs\<close>

text \<open>
  The daemon answers the requests of a connection one after the other, in the order they were
  written; \<open>daemon_answer fs\<close> is the answer to the oldest one, \<open>daemon_event\<close> an event in between.
\<close>

definition daemon_answer :: "Frame list \<Rightarrow> Client \<Rightarrow> Client option" where
  "daemon_answer fs c =
     (case cn_pending c of
        [] \<Rightarrow> None
      | (n, f) # rest \<Rightarrow> Some (c\<lparr>cn_pending := rest, cn_inbox := cn_inbox c @ map (\<lambda>g. (n, g)) fs\<rparr>))"

definition daemon_event :: "bytes \<Rightarrow> Client \<Rightarrow> Client option" where
  "daemon_event p c =
     Some (c\<lparr>cn_inbox := cn_inbox c @ [(0, \<lparr>Version = ProtocolVersion, Type = MsgEvent, Payload = p\<rparr>)]\<rparr>)"

definition status_frame :: "Frame \<Rightarrow> bool" where
  "status_frame f \<longleftrightarrow> Type f \<noteq> MsgEvent \<and> Type f \<noteq> MsgHistory \<and> Type f \<noteq> MsgHistoryEnd"

text \<open>Steps of a client that only makes calls through \<^verbatim>\<open>sendRequest\<close>, from the goroutines in \<open>T\<close>.\<close>

inductive rpc_step :: "nat set \<Rightarrow> Client \<Rightarrow> Client \<Rightarrow> bool" for T where
  rs_enter: "t \<in> T \<Longrightarrow> rpc_enter t c = Some c' \<Longrightarrow> rpc_step T c c'"
| rs_write: "t \<in> T \<Longrightarrow> rpc_write t ty p c = Some c' \<Longrightarrow> rpc_step T c c'"
| rs_receive: "t \<in> T \<Longrightarrow> rpc_receive t c = Some c' \<Longrightarrow> rpc_step T c c'"
| rs_timeout: "t \<in> T \<Longrightarrow> rpc_timeout t c = Some c' \<Longrightarrow> rpc_step T c c'"
| rs_drain: "drain_step c = Some c' \<Longrightarrow> rpc_step T c c'"
| rs_read: "readControl_iter c = Some c' \<Longrightarrow> rpc_step T c c'"
| rs_answer: "status_frame f \<Longrightarrow> daemon_answer [f] c = Some c' \<Longrightarrow> rpc_step T c c'"
| rs_event: "daemon_event p c = Some c' \<Longrightarrow> rpc_step T c c'"
| rs_lost: "rpc_step T c (c\<lparr>cn_inboxEnd := True, cn_writeFails := b\<rparr>)"

inductive rpc_reach :: "nat set \<Rightarrow> Client \<Rightarrow> bool" for T where
  rr_new: "rpc_reach T new_client"
| rr_step: "rpc_reach T c \<Longrightarrow> rpc_step T c c' \<Longrightarrow> rpc_reach T c'"

inductive_cases rpc_stepE: "rpc_step T c c'"

text \<open>The same steps as a function, to evaluate a schedule.\<close>

datatype rpc_act =
    AEnter nat | AWrite nat byte | AReceive nat | ATimeout nat | ADrain | ARead | AAnswer Frame

fun act :: "rpc_act \<Rightarrow> Client \<Rightarrow> Client option" where
  "act (AEnter t) c = rpc_enter t c"
| "act (AWrite t ty) c = rpc_write t ty [] c"
| "act (AReceive t) c = rpc_receive t c"
| "act (ATimeout t) c = rpc_timeout t c"
| "act ADrain c = drain_step c"
| "act ARead c = readControl_iter c"
| "act (AAnswer f) c = (if status_frame f then daemon_answer [f] c else None)"

fun threads :: "rpc_act \<Rightarrow> nat set" where
  "threads (AEnter t) = {t}"
| "threads (AWrite t ty) = {t}"
| "threads (AReceive t) = {t}"
| "threads (ATimeout t) = {t}"
| "threads a = {}"

fun run_acts :: "rpc_act list \<Rightarrow> Client \<Rightarrow> Client option" where
  "run_acts [] c = Some c"
| "run_acts (a # as) c = (case act a c of None \<Rightarrow> None | Some c' \<Rightarrow> run_acts as c')"

lemma act_step: "act a c = Some c' \<Longrightarrow> threads a \<subseteq> T \<Longrightarrow> rpc_step T c c'"
  by (cases a) (auto split: if_splits intro: rpc_step.intros)

lemma run_acts_reach:
  "rpc_reach T c \<Longrightarrow> run_acts as c = Some c' \<Longrightarrow> (\<Union>a \<in> set as. threads a) \<subseteq> T \<Longrightarrow> rpc_reach T c'"
proof (induction as arbitrary: c)
  case (Cons a as)
  then obtain c1 where a: "act a c = Some c1" "run_acts as c1 = Some c'" by (auto split: option.splits)
  have "rpc_reach T c1" using Cons.prems a(1) by (auto intro: rr_step [OF _ act_step])
  with Cons.IH a(2) Cons.prems(3) show ?case by simp
qed simp

section \<open>One caller\<close>

text \<open>The answers that are still to come for this client, in the order in which they will come.\<close>

definition outstanding :: "Client \<Rightarrow> nat list" where
  "outstanding c =
     map fst (cn_responses c) @
     (if cn_readerGone c then [] else map fst (filter (\<lambda>g. status_frame (snd g)) (cn_inbox c)) @ map fst (cn_pending c))"

definition matched :: "nat \<times> (rpc_error + gframe) \<Rightarrow> bool" where
  "matched r = (case snd r of Inl e \<Rightarrow> True | Inr g \<Rightarrow> fst g = fst r)"

definition one_caller :: "nat \<Rightarrow> Client \<Rightarrow> bool" where
  "one_caller t c \<longleftrightarrow>
     \<not> cn_done c \<and> list_all matched (cn_results c) \<and>
     list_all (\<lambda>g. status_frame (snd g) \<or> Type (snd g) = MsgEvent) (cn_inbox c) \<and>
     (case phase c t of
        PhIdle \<Rightarrow> length (outstanding c) \<le> cn_drains c \<and> cn_drains c \<le> 1
      | PhPastDrain \<Rightarrow> cn_drains c = 0 \<and> outstanding c = []
      | PhHolding n \<Rightarrow> cn_drains c = 0 \<and> (outstanding c = [] \<or> outstanding c = [n])
      | PhHistory n \<Rightarrow> False)"

lemma phase_set [simp]: "phase (set_phase t p c) u = (if u = t then p else phase c u)"
  by (simp add: phase_def set_phase_def)

lemma set_phase_frame [simp]:
  "cn_drains (set_phase t p c) = cn_drains c" "cn_responses (set_phase t p c) = cn_responses c"
  "cn_history (set_phase t p c) = cn_history c" "cn_readerGone (set_phase t p c) = cn_readerGone c"
  "cn_inbox (set_phase t p c) = cn_inbox c" "cn_inboxEnd (set_phase t p c) = cn_inboxEnd c"
  "cn_done (set_phase t p c) = cn_done c" "cn_next (set_phase t p c) = cn_next c"
  "cn_pending (set_phase t p c) = cn_pending c" "cn_results (set_phase t p c) = cn_results c"
  "outstanding (set_phase t p c) = outstanding c"
  by (simp_all add: set_phase_def outstanding_def)

lemma phase_cong: "cn_phase c' = cn_phase c \<Longrightarrow> phase c' t = phase c t"
  by (simp add: phase_def)

lemma phase_frame [simp]:
  "phase (c\<lparr>cn_drains := v0\<rparr>) t = phase c t" "phase (c\<lparr>cn_responses := v1\<rparr>) t = phase c t"
  "phase (c\<lparr>cn_history := v2\<rparr>) t = phase c t" "phase (c\<lparr>cn_readerGone := v3\<rparr>) t = phase c t"
  "phase (c\<lparr>cn_inbox := v4\<rparr>) t = phase c t" "phase (c\<lparr>cn_inboxEnd := v5\<rparr>) t = phase c t"
  "phase (c\<lparr>cn_writeFails := v6\<rparr>) t = phase c t" "phase (c\<lparr>cn_done := v7\<rparr>) t = phase c t"
  "phase (c\<lparr>cn_next := v8\<rparr>) t = phase c t" "phase (c\<lparr>cn_pending := v9\<rparr>) t = phase c t"
  "phase (c\<lparr>cn_results := v10\<rparr>) t = phase c t" "phase (c\<lparr>cn_events := v11\<rparr>) t = phase c t"
  by (simp_all add: phase_def)

lemma outstanding_frame [simp]:
  "outstanding (c\<lparr>cn_drains := n\<rparr>) = outstanding c" "outstanding (c\<lparr>cn_results := rs\<rparr>) = outstanding c"
  by (simp_all add: outstanding_def)

lemma one_caller_enter: "one_caller t c \<Longrightarrow> rpc_enter t c = Some c' \<Longrightarrow> one_caller t c'"
  by (auto simp: one_caller_def rpc_enter_def split: if_splits)

lemma one_caller_write:
  assumes "one_caller t c" and "rpc_write t ty p c = Some c'"
  shows "one_caller t c'"
proof -
  have ph: "phase c t = PhPastDrain" and o: "outstanding c = []" "cn_drains c = 0"
    using assms by (auto simp: rpc_write_def one_caller_def split: if_splits)
  show ?thesis
    using assms ph o by (auto simp: one_caller_def rpc_write_def outstanding_def matched_def split: if_splits)
qed

lemma one_caller_receive:
  assumes "one_caller t c" and "rpc_receive t c = Some c'"
  shows "one_caller t c'"
proof -
  obtain n where ph: "phase c t = PhHolding n" using assms(2) by (auto simp: rpc_receive_def split: rpc_phase.splits)
  have o: "outstanding c = [] \<or> outstanding c = [n]" "cn_drains c = 0" using assms(1) ph by (auto simp: one_caller_def)
  show ?thesis
    using assms ph o
    by (auto simp: one_caller_def rpc_receive_def outstanding_def matched_def split: list.splits if_splits)
qed

lemma one_caller_timeout: "one_caller t c \<Longrightarrow> rpc_timeout t c = Some c' \<Longrightarrow> one_caller t c'"
  by (auto simp: one_caller_def rpc_timeout_def matched_def split: rpc_phase.splits)

lemma one_caller_drain:
  assumes "one_caller t c" and "drain_step c = Some c'"
  shows "one_caller t c'"
proof -
  have "phase c t = PhIdle" "cn_drains c = 1" "length (outstanding c) \<le> 1"
    using assms by (auto simp: one_caller_def drain_step_def split: rpc_phase.splits if_splits)
  with assms show ?thesis
    by (auto simp: one_caller_def drain_step_def outstanding_def split: list.splits if_splits)
qed

lemma one_caller_view:
  assumes "one_caller t c" and "cn_phase c' = cn_phase c" "cn_drains c' = cn_drains c" "cn_results c' = cn_results c"
    "cn_done c' = cn_done c" and "prefix (outstanding c') (outstanding c)"
    and "list_all (\<lambda>g. status_frame (snd g) \<or> Type (snd g) = MsgEvent) (cn_inbox c')"
  shows "one_caller t c'"
proof -
  have "length (outstanding c') \<le> length (outstanding c)" using assms(6) by (rule prefix_length_le)
  moreover have "phase c' t = phase c t" using assms(2) by (rule phase_cong)
  ultimately show ?thesis
    using assms by (auto simp: one_caller_def prefix_Cons split: rpc_phase.splits)
qed

lemma one_caller_read:
  assumes "one_caller t c" and "readControl_iter c = Some c'"
  shows "one_caller t c'"
proof (rule one_caller_view [OF assms(1)])
  show "cn_phase c' = cn_phase c" "cn_drains c' = cn_drains c" "cn_results c' = cn_results c" "cn_done c' = cn_done c"
    using assms(2) by (auto simp: readControl_iter_def Let_def split: list.splits if_splits)
  show "prefix (outstanding c') (outstanding c)"
    using assms by (auto simp: readControl_iter_def one_caller_def outstanding_def status_frame_def Let_def
        split: list.splits if_splits)
  show "list_all (\<lambda>g. status_frame (snd g) \<or> Type (snd g) = MsgEvent) (cn_inbox c')"
    using assms by (auto simp: readControl_iter_def one_caller_def Let_def split: list.splits if_splits)
qed

lemma one_caller_answer:
  assumes "one_caller t c" and "status_frame f" and "daemon_answer [f] c = Some c'"
  shows "one_caller t c'"
  using assms by (intro one_caller_view [OF assms(1)])
    (auto simp: daemon_answer_def outstanding_def one_caller_def split: list.splits if_splits)

lemma one_caller_event:
  assumes "one_caller t c" and "daemon_event p c = Some c'"
  shows "one_caller t c'"
  using assms by (intro one_caller_view [OF assms(1)])
    (auto simp: daemon_event_def outstanding_def one_caller_def status_frame_def split: if_splits)

lemma one_caller_lost: "one_caller t c \<Longrightarrow> one_caller t (c\<lparr>cn_inboxEnd := True, cn_writeFails := b\<rparr>)"
  by (rule one_caller_view) (auto simp: outstanding_def one_caller_def)

lemmas one_caller_intros =
  one_caller_enter one_caller_write one_caller_receive one_caller_timeout one_caller_drain one_caller_read
  one_caller_answer one_caller_event one_caller_lost

lemma one_caller_step: "rpc_step {t} c c' \<Longrightarrow> one_caller t c \<Longrightarrow> one_caller t c'"
  by (erule rpc_stepE) (auto intro: one_caller_intros)

lemma one_caller_reach: "rpc_reach {t} c \<Longrightarrow> one_caller t c"
proof (induction rule: rpc_reach.induct)
  case rr_new
  show ?case by (simp add: one_caller_def new_client_def outstanding_def phase_def)
qed (rule one_caller_step)

section \<open>Calls behind a timed-out call\<close>

text \<open>Steps of everything but the daemon.\<close>

definition silent_step :: "nat set \<Rightarrow> Client \<Rightarrow> Client \<Rightarrow> bool" where
  "silent_step T c c' \<longleftrightarrow> rpc_step T c c' \<and> cn_pending c' = cn_pending c \<and> \<not> cn_inboxEnd c'"

text \<open>No answer is on its way, a drain goroutine waits for one and every caller is outside.\<close>

definition stalled :: "nat set \<Rightarrow> Client \<Rightarrow> bool" where
  "stalled T c \<longleftrightarrow>
     0 < cn_drains c \<and> cn_responses c = [] \<and> list_all (\<lambda>g. Type (snd g) = MsgEvent) (cn_inbox c) \<and>
     \<not> cn_readerGone c \<and> \<not> cn_done c \<and> \<not> cn_inboxEnd c \<and> (\<forall>t \<in> T. phase c t = PhIdle)"

lemma stalled_step:
  assumes "silent_step T c c'" and "stalled T c"
  shows "stalled T c' \<and> cn_next c' = cn_next c \<and> cn_results c' = cn_results c"
  using assms unfolding silent_step_def
  by (elim conjE rpc_stepE)
     (auto simp: stalled_def rpc_enter_def rpc_write_def rpc_receive_def rpc_timeout_def drain_step_def
        readControl_iter_def daemon_answer_def daemon_event_def Let_def split: list.splits if_splits)

lemma stalled_run:
  "(silent_step T)\<^sup>*\<^sup>* c c' \<Longrightarrow> stalled T c \<Longrightarrow> stalled T c' \<and> cn_next c' = cn_next c \<and> cn_results c' = cn_results c"
  by (induction rule: rtranclp_induct) (auto dest: stalled_step)

section \<open>Reading a history dump\<close>

text \<open>\<^verbatim>\<open>readControl\<close> running ahead until it blocks; every iteration takes a frame, so \<open>n\<close> frames are enough.\<close>

fun pump :: "nat \<Rightarrow> Client \<Rightarrow> Client" where
  "pump 0 c = c"
| "pump (Suc n) c = (case readControl_iter c of None \<Rightarrow> c | Some c' \<Rightarrow> pump n c')"

text \<open>
  Reading with slices of the lengths \<open>ns\<close> beside the running \<^verbatim>\<open>readControl\<close>: the bytes read, and whether
  the end was seen.
\<close>

fun hr_read_all :: "nat list \<Rightarrow> historyReader \<Rightarrow> Client \<Rightarrow> bytes \<times> bool" where
  "hr_read_all [] r c = ([], False)"
| "hr_read_all (n # ns) r c =
     (case hr_Read n r (pump (length (cn_inbox c)) c) of
        None \<Rightarrow> ([], False)
      | Some (RdEOF, r', c') \<Rightarrow> ([], True)
      | Some (RdUnexpected t, r', c') \<Rightarrow> ([], False)
      | Some (RdData d, r', c') \<Rightarrow> (case hr_read_all ns r' c' of (ds, e) \<Rightarrow> (d @ ds, e)))"

text \<open>The history frames that are in the channel or on the connection, in order.\<close>

definition dump_frames :: "Client \<Rightarrow> Frame list" where
  "dump_frames c = map snd (cn_history c @ filter (\<lambda>g. Type (snd g) \<noteq> MsgEvent) (cn_inbox c))"

text \<open>A client in the middle of a dump: nothing but history frames and events is on its way.\<close>

definition dumping :: "Client \<Rightarrow> bool" where
  "dumping c \<longleftrightarrow> \<not> cn_readerGone c \<and> \<not> cn_inboxEnd c \<and>
     list_all (\<lambda>g. Type (snd g) \<in> {MsgEvent, MsgHistory, MsgHistoryEnd}) (cn_inbox c)"

lemma iter_dumping:
  assumes "dumping c" and "readControl_iter c = Some c'"
  shows "dumping c' \<and> dump_frames c' = dump_frames c \<and> length (cn_inbox c) = Suc (length (cn_inbox c'))"
  using assms
  by (auto simp: readControl_iter_def dumping_def dump_frames_def Let_def msg_defs split: list.splits if_splits)

lemma pump_dumping:
  assumes "dumping c" and "length (cn_inbox c) \<le> n"
  shows "dumping (pump n c) \<and> dump_frames (pump n c) = dump_frames c \<and> readControl_iter (pump n c) = None"
  using assms
proof (induction n arbitrary: c)
  case 0
  then show ?case by (simp add: readControl_iter_def dumping_def)
next
  case (Suc n)
  show ?case
  proof (cases "readControl_iter c")
    case (Some c')
    with iter_dumping [OF Suc.prems(1) Some] Suc.IH [of c'] Suc.prems(2) show ?thesis by simp
  qed (use Suc.prems in simp)
qed

lemma blocked_history:
  assumes "dumping c" and "readControl_iter c = None" and "dump_frames c \<noteq> []"
  shows "cn_history c \<noteq> []"
  using assms
  by (auto simp: readControl_iter_def dumping_def dump_frames_def historyCap_def Let_def
      split: list.splits if_splits)

text \<open>What the reader still has to deliver from its own fields.\<close>

definition hr_left :: "historyReader \<Rightarrow> bytes" where
  "hr_left r = (if \<not> hr_usedInit r \<and> hr_initial r \<noteq> [] then hr_initial r else hr_buf r)"

lemma hr_Read_buf:
  assumes "hr_left r \<noteq> []"
  shows "\<exists>r'. hr_Read n r c = Some (RdData (take n (hr_left r)), r', c) \<and> hr_left r' = drop n (hr_left r) \<and>
     hr_done r' = hr_done r"
  using assms by (auto simp: hr_Read_def hr_left_def Let_def)

lemma hr_Read_frame:
  assumes "hr_left r = []" and "\<not> hr_done r" and "cn_history c = g # rest" and "Type (snd g) = MsgHistory"
  shows "\<exists>r'. hr_Read n r c = Some (RdData (take n (Payload (snd g))), r', c\<lparr>cn_history := rest\<rparr>) \<and>
     hr_left r' = drop n (Payload (snd g)) \<and> \<not> hr_done r'"
  using assms by (auto simp: hr_Read_def hr_left_def Let_def msg_defs split: if_splits)

lemma hr_Read_end:
  assumes "hr_left r = []" and "\<not> hr_done r" and "cn_history c = g # rest" and "Type (snd g) = MsgHistoryEnd"
  shows "\<exists>r'. hr_Read n r c = Some (RdEOF, r', c\<lparr>cn_history := rest\<rparr>)"
  using assms by (auto simp: hr_Read_def hr_left_def Let_def split: if_splits)

lemma hr_read_all_complete:
  assumes "dumping c" and "\<not> hr_done r" and "list_all (\<lambda>n. 0 < n) ns"
    and "dump_frames c = map (\<lambda>ch. \<lparr>Version = v, Type = MsgHistory, Payload = ch\<rparr>) chunks @ [e]" and "Type e = MsgHistoryEnd"
    and "list_all (\<lambda>ch. ch \<noteq> []) chunks" and "length (hr_left r @ concat chunks) < length ns"
  shows "hr_read_all ns r c = (hr_left r @ concat chunks, True)"
  using assms
proof (induction ns arbitrary: r c chunks)
  case (Cons n ns)
  let ?p = "pump (length (cn_inbox c)) c"
  note pd = pump_dumping [OF Cons.prems(1) order_refl]
  have hn: "cn_history ?p \<noteq> []" using pd Cons.prems(4) by (intro blocked_history) auto
  show ?case
  proof (cases "hr_left r = []")
    case False
    obtain r' where r': "hr_Read n r ?p = Some (RdData (take n (hr_left r)), r', ?p)" "hr_left r' = drop n (hr_left r)"
      "hr_done r' = hr_done r"
      using hr_Read_buf [OF False] by blast
    have "length (drop n (hr_left r) @ concat chunks) < length ns" using Cons.prems(3,7) False by (cases "hr_left r") auto
    then have "hr_read_all ns r' ?p = (hr_left r' @ concat chunks, True)"
      using Cons.prems pd r' by (intro Cons.IH) simp_all
    with r' show ?thesis by simp
  next
    case left: True
    obtain g rest where g: "cn_history ?p = g # rest" using hn by (cases "cn_history ?p") auto
    let ?c' = "?p\<lparr>cn_history := rest\<rparr>"
    have df: "snd g # dump_frames ?c' = dump_frames c" using pd g by (simp add: dump_frames_def)
    have dc: "dumping ?c'" using pd by (simp add: dumping_def)
    show ?thesis
    proof (cases chunks)
      case Nil
      then have "Type (snd g) = MsgHistoryEnd" using df Cons.prems(4,5) by simp
      then show ?thesis using hr_Read_end [OF left Cons.prems(2) g, of n] Nil left by auto
    next
      case (Cons ch chs)
      then have t: "Type (snd g) = MsgHistory" "Payload (snd g) = ch"
        and d': "dump_frames ?c' = map (\<lambda>ch. \<lparr>Version = v, Type = MsgHistory, Payload = ch\<rparr>) chs @ [e]"
        using df Cons.prems(4) by auto
      obtain r' where r': "hr_Read n r ?p = Some (RdData (take n ch), r', ?c')" "hr_left r' = drop n ch" "\<not> hr_done r'"
        using hr_Read_frame [OF left Cons.prems(2) g t(1), of n] t(2) by auto
      have "0 < n" "ch \<noteq> []" using Cons.prems(3,6) Cons by auto
      then have "length (drop n ch @ concat chs) < length ns" using Cons.prems(7) Cons left by (cases ch) auto
      then have "hr_read_all ns r' ?c' = (hr_left r' @ concat chs, True)"
        using Cons.prems(3,5,6) Cons d' dc r' by (intro Cons.IH) simp_all
      with r' left Cons show ?thesis by simp
    qed
  qed
qed simp

section \<open>An abandoned dump\<close>

text \<open>\<^verbatim>\<open>readControl\<close> blocked on a full history channel that nobody reads.\<close>

definition wedged :: "Client \<Rightarrow> bool" where
  "wedged c \<longleftrightarrow> length (cn_history c) = historyCap \<and> \<not> cn_readerGone c \<and> cn_responses c = [] \<and>
     (case cn_inbox c of [] \<Rightarrow> False | g # rest \<Rightarrow> Type (snd g) = MsgHistory \<or> Type (snd g) = MsgHistoryEnd)"

lemma wedged_blocked: "wedged c \<Longrightarrow> readControl_iter c = None"
  by (auto simp: wedged_def readControl_iter_def Let_def msg_defs split: list.splits)

definition failed :: "nat \<times> (rpc_error + gframe) \<Rightarrow> bool" where
  "failed r = (case snd r of Inl e \<Rightarrow> True | Inr g \<Rightarrow> False)"

lemma wedged_cong:
  "wedged c \<Longrightarrow> cn_history c' = cn_history c \<Longrightarrow> cn_readerGone c' = cn_readerGone c \<Longrightarrow> cn_responses c' = cn_responses c \<Longrightarrow>
   cn_inbox c' = cn_inbox c @ xs \<Longrightarrow> wedged c'"
  by (auto simp: wedged_def split: list.splits)

lemma wedged_step:
  assumes "rpc_step T c c'" and "wedged c"
  shows "wedged c' \<and> (\<exists>rs. cn_results c' = cn_results c @ rs \<and> list_all failed rs)"
  using assms(1)
proof cases
  case (rs_enter t)
  then show ?thesis using assms(2)
    by (auto simp: rpc_enter_def split: if_splits intro: wedged_cong [where xs = "[]"])
next
  case (rs_write t ty p)
  then show ?thesis using assms(2)
    by (auto simp: rpc_write_def failed_def split: if_splits intro: wedged_cong [where xs = "[]"])
next
  case (rs_receive t)
  then show ?thesis using assms(2)
    by (auto simp: rpc_receive_def wedged_def split: rpc_phase.splits list.splits if_splits)
next
  case (rs_timeout t)
  then show ?thesis using assms(2)
    by (auto simp: rpc_timeout_def failed_def split: rpc_phase.splits intro: wedged_cong [where xs = "[]"])
next
  case rs_drain
  then show ?thesis using assms(2)
    by (auto simp: drain_step_def wedged_def split: list.splits if_splits)
next
  case rs_read
  then show ?thesis using wedged_blocked [OF assms(2)] by simp
next
  case (rs_answer f)
  then show ?thesis using assms(2)
    by (auto simp: daemon_answer_def split: list.splits intro: wedged_cong)
next
  case (rs_event p)
  then show ?thesis using assms(2) by (auto simp: daemon_event_def intro: wedged_cong)
next
  case (rs_lost b)
  then show ?thesis using assms(2) by (auto intro: wedged_cong [where xs = "[]"])
qed

lemma wedged_run:
  "(rpc_step T)\<^sup>*\<^sup>* c c' \<Longrightarrow> wedged c \<Longrightarrow> wedged c' \<and> (\<exists>rs. cn_results c' = cn_results c @ rs \<and> list_all failed rs)"
proof (induction rule: rtranclp_induct)
  case base
  then show ?case by (simp add: exI [of _ "[]"])
next
  case (step y z)
  then obtain rs where "wedged y" "cn_results y = cn_results c @ rs" "list_all failed rs" by blast
  with wedged_step [OF step.hyps(2)] show ?case by fastforce
qed

lemma matched_eq: "matched = (\<lambda>(n, r). case r of Inl e \<Rightarrow> True | Inr (m, f) \<Rightarrow> m = n)"
  by (auto simp: matched_def fun_eq_iff split: sum.splits)

section \<open>Properties\<close>

definition ok_frame :: Frame where
  "ok_frame = \<lparr>Version = ProtocolVersion, Type = MsgOK, Payload = []\<rparr>"



text \<open>(C38) With two calling goroutines the protection has a hole: a caller that passed \<^verbatim>\<open>drainWg.Wait\<close>
before the other one timed out takes the lock, writes its request and can receive the stale
response of the timed-out call as its own.\<close>

theorem rpc_concurrent_mismatch:
  "\<exists>c. rpc_reach {0, 1} c \<and> cn_results c = [(0, Inl ErrRequestTimeout), (1, Inr (0, ok_frame))]"
proof -
  let ?as = "[AEnter 0, AEnter 1, AWrite 0 MsgKill, ATimeout 0, AWrite 1 MsgList, AAnswer ok_frame, ARead, AReceive 1]"
  have "map_option cn_results (run_acts ?as new_client) = Some [(0, Inl ErrRequestTimeout), (1, Inr (0, ok_frame))]"
    by code_simp
  then obtain c where c: "run_acts ?as new_client = Some c" "cn_results c = [(0, Inl ErrRequestTimeout), (1, Inr (0, ok_frame))]"
    by auto
  have "rpc_reach {0, 1} c" by (rule run_acts_reach [OF rr_new c(1)]) simp
  with c(2) show ?thesis by blast
qed

text \<open>One unanswered call blocks all later ones: once a call has timed out and the daemon has not
answered it, no run of the client's goroutines alone writes another request or completes another
call, however many callers there are. A wait for the exit of a session is such a call: it is
answered only when the session exits.\<close>

lemma rpc_timeout_blocks_calls:
  assumes "rpc_reach {t} c" and "phase c t = PhHolding n" and "cn_pending c \<noteq> []" and "\<not> cn_inboxEnd c" "\<not> cn_readerGone c"
    and "rpc_timeout t c = Some c1" and "(silent_step {t})\<^sup>*\<^sup>* c1 c'"
  shows "cn_next c' = cn_next c \<and> cn_results c' = cn_results c @ [(n, Inl ErrRequestTimeout)] \<and> rpc_enter t c' = None"
proof -
  have inv: "one_caller t c" by (rule one_caller_reach [OF assms(1)])
  have o: "outstanding c = [n]" using inv assms(2,3,5) by (auto simp: one_caller_def outstanding_def)
  have c1: "c1 = set_phase t PhIdle (c\<lparr>cn_drains := Suc (cn_drains c), cn_results := cn_results c @ [(n, Inl ErrRequestTimeout)]\<rparr>)"
    using assms(2,6) by (simp add: rpc_timeout_def)
  have "stalled {t} c1"
    using inv o assms(2-5) unfolding c1 stalled_def
    by (auto simp: one_caller_def outstanding_def list_all_iff filter_empty_conv Cons_eq_append_conv append_eq_Cons_conv)
  from stalled_run [OF assms(7) this] show ?thesis by (simp add: c1 rpc_enter_def stalled_def)
qed



text \<open>A dump that is not read to its end disables the client: \<^verbatim>\<open>Close\<close> of the reader leaves the frames
where they are, and with the channel full and a further history frame next on the connection
\<^verbatim>\<open>readControl\<close> never delivers anything again: in every run, with any number of callers and whatever
the daemon answers, every later call fails.\<close>

lemma history_abandoned_wedges:
  assumes "length (cn_history c) = historyCap" and "cn_inbox c = (m, \<lparr>Version = v, Type = MsgHistory, Payload = p\<rparr>) # rest"
    and "cn_responses c = []" and "\<not> cn_readerGone c" and "(rpc_step T)\<^sup>*\<^sup>* c c'"
  shows "readControl_iter c' = None \<and>
     (\<exists>rs. cn_results c' = cn_results c @ rs \<and> list_all (\<lambda>(n, r). case r of Inl e \<Rightarrow> True | Inr g \<Rightarrow> False) rs)"
proof -
  have "wedged c" using assms(1-4) by (simp add: wedged_def)
  from wedged_run [OF assms(5) this] wedged_blocked show ?thesis
    by (fastforce simp: list_all_iff failed_def)
qed

end
