(* ===== verification/ClientApi.thy ===== *)
theory ClientApi
  imports DaemonReplies ClientRpc ClientConfig
begin

text \<open>
  The calls of the Go client (\<^verbatim>\<open>pkg/client\<close>: session.go, metadata.go, environment.go, event.go, exec.go,
  wait.go, recording.go, stream.go, restore.go and the handshake of client.go). A call is a function
  of the transport that takes a message type and a payload and returns a response frame (\<^verbatim>\<open>sendRequest\<close>),
  with the state of whatever answers it passed through. The JSON codec of the client is \<open>cwire\<close>.
\<close>

section \<open>The codec and the results\<close>

record cwire =
  kw_create :: "CreateRequest \<Rightarrow> bytes"
  kw_sid :: "bytes \<Rightarrow> bytes"
  kw_resize :: "ResizeRequest \<Rightarrow> bytes"
  kw_scrollback :: "ScrollbackRequest \<Rightarrow> bytes"
  kw_prefix :: "bytes \<Rightarrow> bytes"
  kw_metaset :: "MetaSetRequest \<Rightarrow> bytes"
  kw_metaget :: "MetaGetRequest \<Rightarrow> bytes"
  kw_env :: "EnvForwardRequest \<Rightarrow> bytes"
  kw_exec :: "ExecRequest \<Rightarrow> bytes"
  kw_execsync :: "ExecSyncRequest \<Rightarrow> bytes"
  kw_wait :: "WaitRequest \<Rightarrow> bytes"
  kw_record :: "RecordRequest \<Rightarrow> bytes"
  kw_history :: "HistoryRequest \<Rightarrow> bytes"
  kw_info :: "bytes \<Rightarrow> SessionInfo option"
  kw_infos :: "bytes \<Rightarrow> SessionInfo list option"
  kw_attached :: "bytes \<Rightarrow> AttachResponse option"
  kw_killed :: "bytes \<Rightarrow> (bytes list \<times> (bytes, bytes) gomap) option"
  kw_value :: "bytes \<Rightarrow> bytes option"
  kw_metadata :: "bytes \<Rightarrow> (bytes, bytes) gomap option"
  kw_results :: "bytes \<Rightarrow> ExecResult list option"
  kw_waited :: "bytes \<Rightarrow> WaitResponse option"
  kw_recorded :: "bytes \<Rightarrow> RecordResponse option"
  kw_error :: "bytes \<Rightarrow> bytes option"

datatype api_error = ApiRpc rpc_error | ApiDaemon bytes | ApiUnparsable | ApiUnmarshal

type_synonym 's call = "byte \<Rightarrow> bytes \<Rightarrow> 's \<Rightarrow> (rpc_error + Frame) \<times> 's"

section \<open>Sessions (session.go)\<close>

definition parseError :: "cwire \<Rightarrow> Frame \<Rightarrow> api_error" where
  "parseError W resp = (case kw_error W (Payload resp) of None \<Rightarrow> ApiUnparsable | Some m \<Rightarrow> ApiDaemon m)"

text \<open>The two shapes of a call: one that only succeeds or fails, one that decodes a value.\<close>

definition unit_call :: "cwire \<Rightarrow> 's call \<Rightarrow> byte \<Rightarrow> bytes \<Rightarrow> 's \<Rightarrow> (api_error + unit) \<times> 's" where
  "unit_call W call t p s =
     (case call t p s of
        (Inl e, s') \<Rightarrow> (Inl (ApiRpc e), s')
      | (Inr resp, s') \<Rightarrow> (if Type resp = MsgError then Inl (parseError W resp) else Inr (), s'))"

definition value_call :: "cwire \<Rightarrow> (bytes \<Rightarrow> 'v option) \<Rightarrow> 's call \<Rightarrow> byte \<Rightarrow> bytes \<Rightarrow> 's \<Rightarrow> (api_error + 'v) \<times> 's" where
  "value_call W dec call t p s =
     (case call t p s of
        (Inl e, s') \<Rightarrow> (Inl (ApiRpc e), s')
      | (Inr resp, s') \<Rightarrow>
          (if Type resp = MsgError then Inl (parseError W resp)
           else case dec (Payload resp) of None \<Rightarrow> Inl ApiUnmarshal | Some v \<Rightarrow> Inr v, s'))"

definition parseSessionInfo :: "cwire \<Rightarrow> Frame \<Rightarrow> api_error + SessionInfo" where
  "parseSessionInfo W resp =
     (if Type resp = MsgError then Inl (parseError W resp)
      else case kw_info W (Payload resp) of None \<Rightarrow> Inl ApiUnmarshal | Some i \<Rightarrow> Inr i)"

record CreateParams =
  pp_Shell :: bytes
  pp_Args :: "bytes list"
  pp_Cols :: int
  pp_Rows :: int
  pp_Cwd :: bytes
  pp_Env :: "bytes list"

definition Client_Create :: "cwire \<Rightarrow> 's call \<Rightarrow> bytes \<Rightarrow> CreateParams \<Rightarrow> 's \<Rightarrow> (api_error + SessionInfo) \<times> 's" where
  "Client_Create W call sid params s =
     (let payload = kw_create W \<lparr>cq_ID = sid, cq_Shell = pp_Shell params, cq_Args = pp_Args params, cq_Cols = pp_Cols params,
                                 cq_Rows = pp_Rows params, cq_Cwd = pp_Cwd params, cq_Env = pp_Env params\<rparr>
      in case call MsgCreate payload s of
           (Inl e, s') \<Rightarrow> (Inl (ApiRpc e), s')
         | (Inr resp, s') \<Rightarrow> (parseSessionInfo W resp, s'))"

record AttachResult =
  ar_Session :: SessionInfo
  ar_Replay :: "bytes option"
  ar_CommandHistory :: "CommandResponse list"
  ar_InFlightCommand :: "CommandResponse option"

definition Client_Attach :: "cwire \<Rightarrow> 's call \<Rightarrow> bytes \<Rightarrow> 's \<Rightarrow> (api_error + AttachResult) \<times> 's" where
  "Client_Attach W call sid s =
     (case value_call W (kw_attached W) call MsgAttach (kw_sid W sid) s of
        (Inl e, s') \<Rightarrow> (Inl e, s')
      | (Inr r, s') \<Rightarrow>
          (Inr \<lparr>ar_Session = ap_Info r, ar_Replay = ap_Snapshot r, ar_CommandHistory = ap_CommandHistory r,
                ar_InFlightCommand = ap_InFlightCommand r\<rparr>, s'))"

definition Client_Detach :: "cwire \<Rightarrow> 's call \<Rightarrow> bytes \<Rightarrow> 's \<Rightarrow> (api_error + unit) \<times> 's" where
  "Client_Detach W call sid s = unit_call W call MsgDetach (kw_sid W sid) s"

definition Client_Kill :: "cwire \<Rightarrow> 's call \<Rightarrow> bytes \<Rightarrow> 's \<Rightarrow> (api_error + unit) \<times> 's" where
  "Client_Kill W call sid s = unit_call W call MsgKill (kw_sid W sid) s"

definition Client_Write :: "cwire \<Rightarrow> 's call \<Rightarrow> bytes \<Rightarrow> bytes \<Rightarrow> 's \<Rightarrow> (api_error + unit) \<times> 's" where
  "Client_Write W call sid data s = unit_call W call MsgInput ([char_of (length sid)] @ sid @ data) s"

definition Client_Resize :: "cwire \<Rightarrow> 's call \<Rightarrow> bytes \<Rightarrow> int \<Rightarrow> int \<Rightarrow> 's \<Rightarrow> (api_error + unit) \<times> 's" where
  "Client_Resize W call sid cols rows s =
     unit_call W call MsgResize (kw_resize W \<lparr>zq_SessionID = sid, zq_Cols = cols, zq_Rows = rows\<rparr>) s"

definition Client_UpdateEmulatorScrollback :: "cwire \<Rightarrow> 's call \<Rightarrow> bytes \<Rightarrow> int \<Rightarrow> 's \<Rightarrow> (api_error + unit) \<times> 's" where
  "Client_UpdateEmulatorScrollback W call sid n s =
     unit_call W call MsgUpdateEmulatorScrollback (kw_scrollback W \<lparr>uq_SessionID = sid, uq_ScrollbackLines = n\<rparr>) s"

definition Client_List :: "cwire \<Rightarrow> 's call \<Rightarrow> bytes \<Rightarrow> 's \<Rightarrow> (api_error + SessionInfo list) \<times> 's" where
  "Client_List W call pfx s =
     value_call W (kw_infos W) call MsgList (if pfx \<noteq> [] then kw_prefix W pfx else []) s"

definition Client_KillPrefix :: "cwire \<Rightarrow> 's call \<Rightarrow> bytes \<Rightarrow> 's \<Rightarrow> (api_error + bytes list \<times> (bytes, bytes) gomap) \<times> 's" where
  "Client_KillPrefix W call pfx s = value_call W (kw_killed W) call MsgKillPrefix (kw_prefix W pfx) s"

definition Client_Info :: "cwire \<Rightarrow> 's call \<Rightarrow> bytes \<Rightarrow> 's \<Rightarrow> (api_error + SessionInfo) \<times> 's" where
  "Client_Info W call sid s =
     (case call MsgInfo (kw_sid W sid) s of
        (Inl e, s') \<Rightarrow> (Inl (ApiRpc e), s')
      | (Inr resp, s') \<Rightarrow> (parseSessionInfo W resp, s'))"

section \<open>Metadata, environment, events (metadata.go, environment.go, event.go)\<close>

definition Client_MetaSet :: "cwire \<Rightarrow> 's call \<Rightarrow> bytes \<Rightarrow> bytes \<Rightarrow> bytes \<Rightarrow> 's \<Rightarrow> (api_error + unit) \<times> 's" where
  "Client_MetaSet W call sid key val s =
     unit_call W call MsgMetaSet (kw_metaset W \<lparr>ms_q_SessionID = sid, ms_q_Key = key, ms_q_Value = val\<rparr>) s"

definition Client_MetaGet :: "cwire \<Rightarrow> 's call \<Rightarrow> bytes \<Rightarrow> bytes \<Rightarrow> 's \<Rightarrow> (api_error + bytes) \<times> 's" where
  "Client_MetaGet W call sid key s =
     value_call W (kw_value W) call MsgMetaGet (kw_metaget W \<lparr>mg_SessionID = sid, mg_Key = key\<rparr>) s"

definition Client_MetaGetAll :: "cwire \<Rightarrow> 's call \<Rightarrow> bytes \<Rightarrow> 's \<Rightarrow> (api_error + (bytes, bytes) gomap) \<times> 's" where
  "Client_MetaGetAll W call sid s =
     value_call W (kw_metadata W) call MsgMetaGet (kw_metaget W \<lparr>mg_SessionID = sid, mg_Key = []\<rparr>) s"

definition Client_ForwardEnv :: "cwire \<Rightarrow> 's call \<Rightarrow> bytes \<Rightarrow> (bytes, bytes) gomap \<Rightarrow> 's \<Rightarrow> (api_error + unit) \<times> 's" where
  "Client_ForwardEnv W call sid env s = unit_call W call MsgEnvForward (kw_env W \<lparr>ef_SessionID = sid, ef_Env = env\<rparr>) s"

definition subscribe :: "cwire \<Rightarrow> 's call \<Rightarrow> 's \<Rightarrow> (api_error + unit) \<times> 's" where
  "subscribe W call s = unit_call W call MsgEvent [] s"

section \<open>Commands, waiting, recording (exec.go, wait.go, recording.go)\<close>

definition WithNewline :: "bool \<Rightarrow> bool \<Rightarrow> bool" where
  "WithNewline on cfg = on"

definition Client_Exec :: "cwire \<Rightarrow> 's call \<Rightarrow> bytes \<Rightarrow> bytes \<Rightarrow> (bool \<Rightarrow> bool) list \<Rightarrow> 's \<Rightarrow> (api_error + unit) \<times> 's" where
  "Client_Exec W call sid inp opts s =
     unit_call W call MsgExec
       (kw_exec W \<lparr>xq_SessionID = sid, xq_Input = inp, xq_Newline = fold (\<lambda>o' c. o' c) opts True\<rparr>) s"

definition execSyncRequest :: "cwire \<Rightarrow> 's call \<Rightarrow> bytes \<Rightarrow> 's \<Rightarrow> (api_error + ExecResult list) \<times> 's" where
  "execSyncRequest W call payload s = value_call W (kw_results W) call MsgExecSync payload s"

definition Client_ExecSync :: "cwire \<Rightarrow> 's call \<Rightarrow> bytes \<Rightarrow> bytes list \<Rightarrow> 's \<Rightarrow> (api_error + ExecResult list) \<times> 's" where
  "Client_ExecSync W call inp targets s =
     execSyncRequest W call (kw_execsync W \<lparr>xs_SessionIDs = targets, xs_Prefix = [], xs_Input = inp, xs_Newline = True\<rparr>) s"

definition Client_ExecPrefix :: "cwire \<Rightarrow> 's call \<Rightarrow> bytes \<Rightarrow> bytes \<Rightarrow> 's \<Rightarrow> (api_error + ExecResult list) \<times> 's" where
  "Client_ExecPrefix W call pfx inp s =
     execSyncRequest W call (kw_execsync W \<lparr>xs_SessionIDs = [], xs_Prefix = pfx, xs_Input = inp, xs_Newline = True\<rparr>) s"

definition WithTimeout :: "duration \<Rightarrow> duration \<Rightarrow> duration" where
  "WithTimeout t cfg = t"

definition Client_wait ::
  "cwire \<Rightarrow> 's call \<Rightarrow> bytes \<Rightarrow> bytes \<Rightarrow> duration \<Rightarrow> duration \<Rightarrow> bytes \<Rightarrow> 's \<Rightarrow> (api_error + WaitResponse) \<times> 's" where
  "Client_wait W call sid mode timeout idleFor pat s =
     value_call W (kw_waited W) call MsgWait
       (kw_wait W \<lparr>wq_SessionID = sid, wq_Mode = mode, wq_Timeout = milliseconds timeout,
                   wq_IdleFor = milliseconds idleFor, wq_Pattern = pat\<rparr>) s"

definition UntilExit :: "cwire \<Rightarrow> 's call \<Rightarrow> bytes \<Rightarrow> (duration \<Rightarrow> duration) list \<Rightarrow> 's \<Rightarrow> (api_error + WaitResponse) \<times> 's" where
  "UntilExit W call sid opts s = Client_wait W call sid ''exit'' (fold (\<lambda>o' c. o' c) opts 0) 0 [] s"

definition UntilIdle ::
  "cwire \<Rightarrow> 's call \<Rightarrow> bytes \<Rightarrow> duration \<Rightarrow> (duration \<Rightarrow> duration) list \<Rightarrow> 's \<Rightarrow> (api_error + WaitResponse) \<times> 's" where
  "UntilIdle W call sid d opts s = Client_wait W call sid ''idle'' (fold (\<lambda>o' c. o' c) opts 0) d [] s"

definition UntilMatch ::
  "cwire \<Rightarrow> 's call \<Rightarrow> bytes \<Rightarrow> bytes \<Rightarrow> (duration \<Rightarrow> duration) list \<Rightarrow> 's \<Rightarrow> (api_error + WaitResponse) \<times> 's" where
  "UntilMatch W call sid pat opts s = Client_wait W call sid ''match'' (fold (\<lambda>o' c. o' c) opts 0) 0 pat s"

definition recordAction :: "cwire \<Rightarrow> 's call \<Rightarrow> bytes \<Rightarrow> bytes \<Rightarrow> 's \<Rightarrow> (api_error + RecordResponse) \<times> 's" where
  "recordAction W call sid action s =
     value_call W (kw_recorded W) call MsgRecord (kw_record W \<lparr>rq_SessionID = sid, rq_Action = action\<rparr>) s"

definition RecordStart :: "cwire \<Rightarrow> 's call \<Rightarrow> bytes \<Rightarrow> 's \<Rightarrow> (api_error + RecordResponse) \<times> 's" where
  "RecordStart W call sid s = recordAction W call sid ''start'' s"

definition RecordStop :: "cwire \<Rightarrow> 's call \<Rightarrow> bytes \<Rightarrow> 's \<Rightarrow> (api_error + RecordResponse) \<times> 's" where
  "RecordStop W call sid s = recordAction W call sid ''stop'' s"

section \<open>The data stream (stream.go)\<close>

definition decodeDataPayload :: "bytes \<Rightarrow> payload_error + bytes \<times> bytes" where
  "decodeDataPayload payload =
     (if length payload < 1 then Inl ErrPayloadTooShort
      else let idLen = of_char (payload ! 0) in
        if length payload < 1 + idLen then Inl ErrPayloadTooShort
        else Inr (take idLen (drop 1 payload), drop (1 + idLen) payload))"

lemma ReadFrame_shrinks: "ReadFrame c = (Inr f, c') \<Longrightarrow> length (r_data (c_in c')) < length (r_data (c_in c))"
  by (auto simp: ReadFrame_def HeaderSize_def split: if_splits prod.splits dest!: Decode_consumes)

text \<open>The loop of \<^verbatim>\<open>readStream\<close> until the connection fails: the calls of the data handler, if there is one.\<close>

function readStream :: "bool \<Rightarrow> Conn \<Rightarrow> (bytes \<times> bytes) list" where
  "readStream handler c =
     (case ReadFrame c of
        (Inl e, c') \<Rightarrow> []
      | (Inr frame, c') \<Rightarrow>
          (if Type frame \<noteq> MsgData then []
           else case decodeDataPayload (Payload frame) of
                  Inl e \<Rightarrow> []
                | Inr sd \<Rightarrow> if handler then [sd] else []) @ readStream handler c')"
  by pat_completeness auto
termination
  by (relation "measure (\<lambda>(h, c). length (r_data (c_in c)))") (auto dest: ReadFrame_shrinks [OF sym])

declare readStream.simps [simp del]

section \<open>The handshake (client.go, stream.go)\<close>

definition control_payload :: "bytes \<Rightarrow> bytes" where
  "control_payload token = [ChannelControl] @ token"

definition stream_payload :: "bytes \<Rightarrow> bytes \<Rightarrow> bytes" where
  "stream_payload token clientID = [ChannelStream] @ token @ [char_of (length clientID)] @ clientID"

definition auth_frame :: "bytes \<Rightarrow> Frame" where
  "auth_frame payload = \<lparr>Version = ProtocolVersion, Type = MsgAuth, Payload = payload\<rparr>"

datatype dial_error = DialToken auth_error | DialSocket | DialWrite proto_error | DialRead proto_error | DialRejected

text \<open>
  One channel against a server: the frame the client writes is what the server's \<^verbatim>\<open>handleConn\<close> reads,
  and the client reads what the server wrote. The result is the payload of the OK frame.
\<close>

definition dial_channel :: "hs_env \<Rightarrow> bytes \<Rightarrow> Server \<Rightarrow> (dial_error + bytes) \<times> Server" where
  "dial_channel env payload srv =
     (case WriteFrame (open_conn []) (auth_frame payload) of
        (Some e, c) \<Rightarrow> (Inl (DialWrite e), srv)
      | (None, c) \<Rightarrow>
          (case handleConn env (open_conn (c_out c)) srv of
             (conn, srv') \<Rightarrow>
               (case fst (ReadFrame (open_conn (c_out conn))) of
                  Inl e \<Rightarrow> Inl (DialRead e)
                | Inr f \<Rightarrow> if Type f \<noteq> MsgOK then Inl DialRejected else Inr (Payload f), srv')))"

text \<open>\<^verbatim>\<open>connect\<close> up to the start of the readers: the token file, the control channel, the stream channel.\<close>

definition connect :: "hs_env \<Rightarrow> hs_env \<Rightarrow> bytes \<Rightarrow> fs \<Rightarrow> Server \<Rightarrow> (dial_error + bytes) \<times> Server" where
  "connect env1 env2 tokenPath f srv =
     (case LoadFromFile (path_of tokenPath) f of
        Inl e \<Rightarrow> (Inl (DialToken e), srv)
      | Inr token \<Rightarrow>
          if \<not> sv_listening srv then (Inl DialSocket, srv)
          else case dial_channel env1 (control_payload token) srv of
                 (Inl e, srv1) \<Rightarrow> (Inl e, srv1)
               | (Inr clientID, srv1) \<Rightarrow>
                   (case dial_channel env2 (stream_payload token clientID) srv1 of
                      (Inl e, srv2) \<Rightarrow> (Inl e, srv2)
                    | (Inr u, srv2) \<Rightarrow> (Inr clientID, srv2)))"

section \<open>Cold restore (restore.go)\<close>

record SessionHistory =
  sh_Scrollback :: bytes
  sh_SessionID :: bytes
  sh_Shell :: bytes
  sh_Cwd :: bytes
  sh_Cols :: int
  sh_Rows :: int

datatype restore_error = RestoreNoMetadata hist_error | RestoreCleanExit

definition LoadSessionHistory :: "meta_json \<Rightarrow> path \<Rightarrow> bytes \<Rightarrow> fs \<Rightarrow> restore_error + SessionHistory" where
  "LoadSessionHistory J dataDir sid f =
     (let sessionDir = Join dataDir sid in
      case ReadMetadata J sessionDir f of
        Inl e \<Rightarrow> Inl (RestoreNoMetadata e)
      | Inr meta \<Rightarrow>
          if md_EndedAt meta \<noteq> None then Inl RestoreCleanExit
          else Inr \<lparr>sh_Scrollback = (case ReadFile (Join sessionDir ''scrollback.bin'') f of Inl e \<Rightarrow> [] | Inr d \<Rightarrow> d),
                    sh_SessionID = md_SessionID meta, sh_Shell = md_Shell meta, sh_Cwd = md_Cwd meta,
                    sh_Cols = md_Cols meta, sh_Rows = md_Rows meta\<rparr>)"

definition CleanSessionHistory :: "path \<Rightarrow> bytes \<Rightarrow> fs \<Rightarrow> (io_error + unit) \<times> fs" where
  "CleanSessionHistory dataDir sid f =
     (let sessionDir = Join dataDir sid in
      if sessionDir \<in> set (fs_deny f) then (Inl ErrIO, f)
      else if fs_get f sessionDir = None \<and> sessionDir \<noteq> [] then (Inr (), f)
      else RemoveAll sessionDir f)"

section \<open>The client and the daemon together\<close>

text \<open>
  \<^verbatim>\<open>sendRequest\<close> of a client whose control connection ends in the daemon \<open>d\<close>: the daemon reads the frame
  the client wrote and dispatches it, the client reads what the daemon added to the connection. A
  request without an answer times out.
\<close>

definition control_bytes :: "bytes \<Rightarrow> 'e daemon \<Rightarrow> bytes" where
  "control_bytes cid d = (case control_conn cid (dm_server d) of None \<Rightarrow> [] | Some conn \<Rightarrow> c_out conn)"

definition request_frame :: "byte \<Rightarrow> bytes \<Rightarrow> Frame" where
  "request_frame t p = \<lparr>Version = ProtocolVersion, Type = t, Payload = p\<rparr>"

definition daemon_rpc :: "'e denv \<Rightarrow> bytes \<Rightarrow> 'e daemon call" where
  "daemon_rpc env cid t p d =
     (case WriteFrame (open_conn []) (request_frame t p) of
        (Some e, c) \<Rightarrow> (Inl ErrWrite, d)
      | (None, c) \<Rightarrow>
          (case fst (ReadFrame (open_conn (c_out c))) of
             Inl e \<Rightarrow> (Inl ErrConnectionClosed, d)
           | Inr frame \<Rightarrow>
               let d' = dispatch env cid frame d;
                   answer = drop (length (control_bytes cid d)) (control_bytes cid d')
               in (case fst (ReadFrame (open_conn answer)) of Inl e \<Rightarrow> Inl ErrRequestTimeout | Inr f \<Rightarrow> Inr f, d')))"

lemma ReadFrame_encoded: "sendable f \<Longrightarrow> ReadFrame (open_conn (encode_frame f @ rest)) = (Inr f, open_conn rest)"
  by (simp add: ReadFrame_def open_conn_def Decode_encode_frame)

lemma WriteFrame_open:
  "length (Payload f) \<le> MaxPayloadSize \<Longrightarrow> \<exists>c. WriteFrame (open_conn []) f = (None, c) \<and> c_out c = encode_frame f"
  by (auto simp: WriteFrame_def Encode_def conn_write_def open_conn_def encode_frame_def)

lemma daemon_rpc_answered:
  assumes conn: "control_conn cid (dm_server d) = Some conn" "conn_healthy conn" and len: "length p \<le> MaxPayloadSize"
    and ans: "dm_server (dispatch env cid (request_frame t p) d) = control_write cid f (dm_server d)" and f: "sendable f"
  shows "daemon_rpc env cid t p d = (Inr f, dispatch env cid (request_frame t p) d)"
proof -
  obtain c where c: "WriteFrame (open_conn []) (request_frame t p) = (None, c)" "c_out c = encode_frame (request_frame t p)"
    using WriteFrame_open [of "request_frame t p"] len by (auto simp: request_frame_def)
  have rq: "sendable (request_frame t p)" using len by (simp add: sendable_def request_frame_def)
  have "control_bytes cid (dispatch env cid (request_frame t p) d) = control_bytes cid d @ encode_frame f"
    using ans conn f by (simp add: control_bytes_def control_conn_write WriteFrame_healthy sendable_def)
  then show ?thesis
    using c ReadFrame_encoded [OF rq, of "[]"] ReadFrame_encoded [OF f, of "[]"] by (simp add: daemon_rpc_def Let_def)
qed

text \<open>The error replies of the daemon that the client can read: they fit a frame and parse.\<close>

definition readable :: "'e denv \<Rightarrow> cwire \<Rightarrow> bytes + 'a \<Rightarrow> bool" where
  "readable env W r =
     (case r of
        Inr v \<Rightarrow> True
      | Inl e \<Rightarrow> length (wj_resp (de_wire env) (RError e)) \<le> MaxPayloadSize \<and>
                 kw_error W (wj_resp (de_wire env) (RError e)) = Some e)"

definition api_result :: "bytes + 'a \<Rightarrow> api_error + 'a" where
  "api_result r = (case r of Inl e \<Rightarrow> Inl (ApiDaemon e) | Inr v \<Rightarrow> Inr v)"

lemma unit_call_refines:
  assumes conn: "control_conn cid (dm_server d) = Some conn" "conn_healthy conn" and len: "length p \<le> MaxPayloadSize"
    and h: "dispatch env cid (request_frame t p) d = unit_reply env cid rs d" and r: "readable env W (fst rs)"
  shows "fst (unit_call W (daemon_rpc env cid) t p d) = api_result (fst rs) \<and>
     dm_svc (snd (unit_call W (daemon_rpc env cid) t p d)) = snd rs"
proof (cases rs)
  case (Pair res s')
  show ?thesis
  proof (cases res)
    case (Inl e)
    have "daemon_rpc env cid t p d = (Inr (errorFrame env e), unit_reply env cid rs d)"
      unfolding h [symmetric]
      by (rule daemon_rpc_answered [OF conn len])
         (use r Pair Inl in \<open>simp_all add: h unit_reply_def err_reply_def reply_def readable_def sendable_def errorFrame_def\<close>)
    then show ?thesis
      using r Pair Inl by (simp add: unit_call_def errorFrame_def parseError_def readable_def api_result_def unit_reply_def err_reply_def)
  next
    case (Inr u)
    have "daemon_rpc env cid t p d = (Inr (okFrame env None), unit_reply env cid rs d)"
      unfolding h [symmetric]
      by (rule daemon_rpc_answered [OF conn len])
         (use Pair Inr in \<open>simp_all add: h unit_reply_def ok_reply_def reply_def sendable_def okFrame_def\<close>)
    then show ?thesis
      using Pair Inr by (simp add: unit_call_def okFrame_def api_result_def unit_reply_def ok_reply_def msg_defs)
  qed
qed

lemma dispatch_cases:
  "dispatch env cid (request_frame MsgKill p) d = handleKill env cid p d"
  "dispatch env cid (request_frame MsgInput p) d = handleInput env cid p d"
  "dispatch env cid (request_frame MsgMetaSet p) d = handleMetaSet env cid p d"
  "dispatch env cid (request_frame MsgMetaGet p) d = handleMetaGet env cid p d"
  by (simp_all add: dispatch_def request_frame_def Let_def msg_defs)

lemma decodeDataPayload_eq: "decodeDataPayload = DecodeDataPayload"
  by (simp add: fun_eq_iff decodeDataPayload_def DecodeDataPayload_def)

text \<open>What the client's data handler is called with is what the daemon sent: reading a stream that
holds the data frames of some chunks of a session calls the handler once per chunk, in order, with
the id and the bytes of the chunk.\<close>

lemma readStream_chunks:
  assumes "length sid < 256" and "list_all (fits sid) chunks"
  shows "readStream True (open_conn (concat (map (chunk_bytes sid) chunks))) = map (\<lambda>c. (sid, c)) chunks"
  using assms(2)
proof (induction chunks)
  case Nil
  have "fst (ReadFrame (open_conn [])) = Inl ErrShortRead"
    by (simp add: ReadFrame_def Decode_def ReadFull_def open_conn_def HeaderSize_def)
  then show ?case by (subst readStream.simps) (auto split: prod.split)
next
  case (Cons ch chunks)
  have s: "sendable (data_frame (EncodeDataPayload sid ch))"
    using Cons.prems by (simp add: sendable_def data_frame_def fits_def)
  have d: "decodeDataPayload (EncodeDataPayload sid ch) = Inr (sid, ch)"
    using assms(1) by (simp add: decodeDataPayload_eq DecodeDataPayload_Encode)
  have r: "ReadFrame (open_conn (chunk_bytes sid ch @ rest)) = (Inr (data_frame (EncodeDataPayload sid ch)), open_conn rest)" for rest
    by (simp add: chunk_bytes_def ReadFrame_encoded [OF s])
  have "readStream True (open_conn (chunk_bytes sid ch @ rest)) = (sid, ch) # readStream True (open_conn rest)" for rest
    by (subst readStream.simps) (simp add: r d, simp add: data_frame_def d)
  with Cons show ?case by simp
qed

section \<open>Properties\<close>


definition sample_cwire :: cwire where
  "sample_cwire =
     \<lparr>kw_create = cq_ID, kw_sid = id, kw_resize = (\<lambda>r. []), kw_scrollback = (\<lambda>r. []), kw_prefix = id, kw_metaset = ms_q_Value,
      kw_metaget = mg_SessionID, kw_env = ef_SessionID, kw_exec = (\<lambda>r. []), kw_execsync = (\<lambda>r. []), kw_wait = wq_SessionID,
      kw_record = (\<lambda>r. []), kw_history = hq_SessionID, kw_info = (\<lambda>p. None), kw_infos = (\<lambda>p. None),
      kw_attached = (\<lambda>p. None), kw_killed = (\<lambda>p. None), kw_value = Some, kw_metadata = (\<lambda>p. None), kw_results = (\<lambda>p. None),
      kw_waited = (\<lambda>p. None), kw_recorded = (\<lambda>p. None), kw_error = Some\<rparr>"

definition meta_denv :: "unit denv" where
  "meta_denv = sample_denv\<lparr>de_wire := sample_wire\<lparr>wj_metaset := \<lambda>p. Some \<lparr>ms_q_SessionID = ''a'', ms_q_Key = ''k'', ms_q_Value = p\<rparr>\<rparr>\<rparr>"


section \<open>Connecting\<close>

lemma handleConn_control:
  assumes "he_deadline env" "he_creds env = Some creds" "he_clear env" "checkAutomationMode env creds s = Inr ()"
    and "length (sv_token s) = TokenSize"
  shows "handleConn env (open_conn (encode_frame (auth_frame (control_payload (sv_token s))))) s =
     registerControl env (open_conn []) creds s"
proof -
  have f: "sendable (auth_frame (control_payload (sv_token s)))"
    using assms(5) by (simp add: sendable_def auth_frame_def control_payload_def MaxPayloadSize_def TokenSize_def)
  show ?thesis
    using assms ReadFrame_encoded [OF f, of "[]"]
    by (simp add: handleConn_def auth_frame_def control_payload_def minAuthPayloadSize_def Verify_iff)
qed

lemma length_hex_encode [simp]: "length (hex_encode d) = 2 * length d"
  by (induction d) (simp_all add: hex_encode_def)

lemma generateClientID_length: "generateClientID rnd = Some cid \<Longrightarrow> length cid = 32"
  by (auto simp: generateClientID_def clientIDSize_def split: if_splits)

lemma dial_control:
  assumes "he_deadline env" "he_creds env = Some creds" "he_clear env" "checkAutomationMode env creds s = Inr ()"
    and "length (sv_token s) = TokenSize" and "generateClientID (he_rand env) = Some cid"
  shows "\<exists>c s'. dial_channel env (control_payload (sv_token s)) s = (Inr cid, s') \<and> conn_healthy c \<and>
     sv_token s' = sv_token s \<and> sv_mode s' = sv_mode s \<and>
     gm_get (sv_clients s') = (gm_get (sv_clients s))(cid \<mapsto>
       \<lparr>cl_ID = cid, cl_Control = Some c, cl_Stream = None, cl_Creds = creds, cl_ConnectedAt = he_now env,
        cl_LastHeartbeatAck = 0, cl_MissedHeartbeats = 0\<rparr>)"
proof -
  let ?p = "control_payload (sv_token s)" and ?ok = "\<lparr>Version = ProtocolVersion, Type = MsgOK, Payload = cid\<rparr>"
  have "length (Payload (auth_frame ?p)) \<le> MaxPayloadSize"
    using assms(5) by (simp add: auth_frame_def control_payload_def MaxPayloadSize_def TokenSize_def)
  then obtain c0 where c0: "WriteFrame (open_conn []) (auth_frame ?p) = (None, c0)" "c_out c0 = encode_frame (auth_frame ?p)"
    using WriteFrame_open by blast
  have ok: "sendable ?ok" using generateClientID_length [OF assms(6)] by (simp add: sendable_def MaxPayloadSize_def)
  then obtain c where c: "WriteFrame (open_conn []) ?ok = (None, c)" "c_out c = encode_frame ?ok"
    using WriteFrame_open [of ?ok] by (auto simp: sendable_def)
  then have "conn_healthy c" using WriteFrame_healthy [OF sample_stream(2), of ?ok] ok
    by (simp add: sendable_def conn_healthy_def open_conn_def)
  moreover have "registerControl env (open_conn []) creds s = (c, s\<lparr>sv_clients := gm_put cid
       \<lparr>cl_ID = cid, cl_Control = Some c, cl_Stream = None, cl_Creds = creds, cl_ConnectedAt = he_now env,
        cl_LastHeartbeatAck = 0, cl_MissedHeartbeats = 0\<rparr> (sv_clients s),
       sv_announced := (if sv_onClient s then sv_announced s @ [cid] else sv_announced s)\<rparr>)"
    using c(1) by (simp add: registerControl_def assms(6))
  ultimately show ?thesis
    using c0 c(2) ReadFrame_encoded [OF ok, of "[]"]
    by (simp add: dial_channel_def handleConn_control [OF assms(1-5)] fun_eq_iff)
qed

lemma dial_stream:
  assumes "he_deadline env" "he_creds env = Some creds" "he_clear env" "checkAutomationMode env creds s = Inr ()"
    and "length (sv_token s) = TokenSize" and "gm_get (sv_clients s) cid = Some cl" and "cl_Stream cl = None" and "length cid = 32"
  shows "\<exists>c s'. dial_channel env (stream_payload (sv_token s) cid) s = (Inr [], s') \<and> conn_healthy c \<and>
     gm_get (sv_clients s') = (gm_get (sv_clients s))(cid \<mapsto> cl\<lparr>cl_Stream := Some c\<rparr>)"
proof -
  let ?p = "stream_payload (sv_token s) cid" and ?ok = "\<lparr>Version = ProtocolVersion, Type = MsgOK, Payload = []\<rparr>"
  have f: "sendable (auth_frame ?p)"
    using assms(5,8) by (simp add: sendable_def auth_frame_def stream_payload_def MaxPayloadSize_def TokenSize_def)
  then obtain c0 where c0: "WriteFrame (open_conn []) (auth_frame ?p) = (None, c0)" "c_out c0 = encode_frame (auth_frame ?p)"
    using WriteFrame_open [of "auth_frame ?p"] by (auto simp: sendable_def)
  have ok: "sendable ?ok" by (simp add: sendable_def)
  then obtain c where c: "WriteFrame (open_conn []) ?ok = (None, c)" "c_out c = encode_frame ?ok"
    using WriteFrame_open [of ?ok] by (auto simp: sendable_def)
  then have h: "conn_healthy c" using WriteFrame_healthy [OF sample_stream(2), of ?ok] ok
    by (simp add: sendable_def conn_healthy_def open_conn_def)
  have id: "?p ! (1 + TokenSize) = char_of (length cid)" "drop (1 + TokenSize + 1) ?p = cid" "length ?p = 66"
    using assms(5,8) by (simp_all add: stream_payload_def nth_append TokenSize_def)
  have "registerStream (open_conn []) ?p s = (c, s\<lparr>sv_clients := gm_put cid (cl\<lparr>cl_Stream := Some c\<rparr>) (sv_clients s)\<rparr>)"
    using c(1) assms(6,7,8) id by (simp add: registerStream_def Let_def TokenSize_def)
  moreover have "handleConn env (open_conn (encode_frame (auth_frame ?p))) s = registerStream (open_conn []) ?p s"
    using assms ReadFrame_encoded [OF f, of "[]"]
    by (simp add: handleConn_def auth_frame_def stream_payload_def minAuthPayloadSize_def Verify_iff ChannelControl_def ChannelStream_def)
  ultimately show ?thesis
    using c0 c(2) ReadFrame_encoded [OF ok, of "[]"] h by (auto simp: dial_channel_def fun_eq_iff)
qed

text \<open>A client that holds the token gets in: against a listening server, from a process the automation
mode admits, \<^verbatim>\<open>connect\<close> reads the token file, passes both handshakes and returns the id the server
drew; the server's registry then has, beside the clients it had, this client with both of its
connections open.\<close>

lemma connect_admitted:
  assumes "LoadFromFile (path_of tokenPath) f = Inr (sv_token s)" and "sv_listening s"
    and "he_deadline env1" "he_creds env1 = Some cr1" "he_clear env1" "checkAutomationMode env1 cr1 s = Inr ()"
    and "he_deadline env2" "he_creds env2 = Some cr2" "he_clear env2" "checkAutomationMode env2 cr2 s = Inr ()"
    and "generateClientID (he_rand env1) = Some cid"
  shows "case connect env1 env2 tokenPath f s of
     (Inl e, s') \<Rightarrow> False
   | (Inr i, s') \<Rightarrow> i = cid \<and> (\<exists>cl c st. gm_get (sv_clients s') = (gm_get (sv_clients s))(cid \<mapsto> cl) \<and>
       cl_ID cl = cid \<and> cl_Control cl = Some c \<and> cl_Stream cl = Some st \<and> conn_healthy c \<and> conn_healthy st)"
proof -
  have tok: "length (sv_token s) = TokenSize" using assms(1) by (auto simp: LoadFromFile_def split: sum.splits if_splits)
  obtain c s1 where s1: "dial_channel env1 (control_payload (sv_token s)) s = (Inr cid, s1)" "conn_healthy c"
     "sv_token s1 = sv_token s" "sv_mode s1 = sv_mode s"
     "gm_get (sv_clients s1) = (gm_get (sv_clients s))(cid \<mapsto>
       \<lparr>cl_ID = cid, cl_Control = Some c, cl_Stream = None, cl_Creds = cr1, cl_ConnectedAt = he_now env1,
        cl_LastHeartbeatAck = 0, cl_MissedHeartbeats = 0\<rparr>)"
    using dial_control [OF assms(3-6) tok assms(11)] by blast
  have m: "checkAutomationMode env2 cr2 s1 = Inr ()" using assms(10) s1(4) by (simp add: checkAutomationMode_def)
  obtain st s2 where "dial_channel env2 (stream_payload (sv_token s1) cid) s1 = (Inr [], s2)" "conn_healthy st"
     "gm_get (sv_clients s2) = (gm_get (sv_clients s1))(cid \<mapsto>
       (\<lparr>cl_ID = cid, cl_Control = Some c, cl_Stream = None, cl_Creds = cr1, cl_ConnectedAt = he_now env1,
        cl_LastHeartbeatAck = 0, cl_MissedHeartbeats = 0\<rparr>)\<lparr>cl_Stream := Some st\<rparr>)"
    using dial_stream [OF assms(7-9) m _ _ _ generateClientID_length [OF assms(11)]] s1(3,5) tok by fastforce
  with s1 assms(1,2) show ?thesis
    by (simp add: connect_def) (rule exI, rule conjI, rule refl, simp)
qed

section \<open>Cold restore after a restart\<close>

definition disk_fine :: "fs \<Rightarrow> bool" where
  "disk_fine f \<longleftrightarrow> fs_deny f = [] \<and> fs_room f = []"

text \<open>The metadata of a session that reconciliation closed.\<close>

definition closed_meta :: "Metadata \<Rightarrow> time \<Rightarrow> Metadata" where
  "closed_meta m t = m\<lparr>md_EndedAt := Some t, md_ExitCode := Some (- 1)\<rparr>"

definition meta_ended :: "meta_json \<Rightarrow> (nat \<Rightarrow> time) \<Rightarrow> Metadata \<Rightarrow> path \<Rightarrow> fs \<Rightarrow> bool" where
  "meta_ended J now m dir f \<longleftrightarrow> (\<exists>n. ReadMetadata J dir f = Inr (closed_meta m (now n)))"

lemma closed_twice [simp]: "closed_meta (closed_meta m t) t' = closed_meta m t'"
  by (simp add: closed_meta_def)

lemma Join_name: "CHR ''/'' \<notin> set n \<Longrightarrow> n \<notin> {[], ''.'', ''..''} \<Longrightarrow> Join p n = p @ [n]"
  by (simp add: Join_def)

lemma Join_meta [simp]: "Join p metaFileName = p @ [metaFileName]"
  by (rule Join_name) (simp_all add: metaFileName_def)

lemma WriteFile_fine:
  assumes "disk_fine f"
  shows "WriteFile p d f = (if can_create p f then (Inr (), fs_put p (FileN d) (fs_put p (FileN []) f)) else (Inl ErrIO, f))"
  using assms by (simp add: WriteFile_def OpenTrunc_def file_write_def disk_fine_def)

lemma UpdateMetadataExit_fine:
  assumes fine: "disk_fine f" and law: "\<And>n. mj_dec J (mj_enc J (closed_meta m (now n))) = Some (closed_meta m (now n))"
    and u: "f' = snd (UpdateMetadataExit J q (now n) (- 1) f)"
  shows "disk_fine f'" and "is_dir f p \<Longrightarrow> is_dir f' p"
    and "p \<noteq> q \<Longrightarrow> ReadMetadata J p f' = ReadMetadata J p f"
    and "ReadMetadata J q f = Inr m \<Longrightarrow> is_dir f q \<Longrightarrow> meta_ended J now m q f'"
    and "meta_ended J now m q f \<Longrightarrow> meta_ended J now m q f'"
proof -
  let ?w = "\<lambda>m. fs_put (q @ [metaFileName]) (FileN (mj_enc J (closed_meta m (now n)))) (fs_put (q @ [metaFileName]) (FileN []) f)"
  have cases: "f' = f \<or> (\<exists>m. ReadMetadata J q f = Inr m \<and> f' = ?w m)"
    using fine by (auto simp: u UpdateMetadataExit_def WriteMetadata_def WriteFile_fine closed_meta_def split: sum.split)
  have cc: "f' = f \<or> can_create (q @ [metaFileName]) f"
    using fine by (auto simp: u UpdateMetadataExit_def WriteMetadata_def WriteFile_fine split: sum.split)
  show "disk_fine f'" using cases fine by (auto simp: disk_fine_def)
  show "is_dir f' p" if "is_dir f p" using cases cc that by (auto simp: is_dir_def can_create_def split: if_splits)
  show "ReadMetadata J p f' = ReadMetadata J p f" if "p \<noteq> q"
    using cases that by (auto simp: ReadMetadata_def ReadFile_def)
  have "ReadMetadata J q (?w m) = Inr (closed_meta m (now n))"
    using fine law by (simp add: ReadMetadata_def ReadFile_def disk_fine_def)
  then have ended: "meta_ended J now m q (?w m)" unfolding meta_ended_def ..
  show "meta_ended J now m q f'" if "ReadMetadata J q f = Inr m" "is_dir f q"
  proof -
    from that(1) have "fs_get f (q @ [metaFileName]) \<noteq> Some DirN"
      by (auto simp: ReadMetadata_def ReadFile_def split: sum.splits if_splits)
    then have "can_create (q @ [metaFileName]) f" using that(2) fine by (simp add: can_create_def disk_fine_def)
    then have "f' = ?w m"
      using fine that(1) by (simp add: u UpdateMetadataExit_def WriteMetadata_def WriteFile_fine closed_meta_def)
    then show ?thesis by (simp only: ended)
  qed
  show "meta_ended J now m q f'" if "meta_ended J now m q f" using cases ended that by (auto simp: meta_ended_def)
qed

lemma reconcile_keeps_ended:
  assumes law: "\<And>n. mj_dec J (mj_enc J (closed_meta m (now n))) = Some (closed_meta m (now n))"
  shows "disk_fine f \<Longrightarrow> meta_ended J now m p f \<Longrightarrow> meta_ended J now m p (snd (reconcile_loop J now ds n f))"
proof (induction ds arbitrary: n f)
  case (Cons d ds)
  let ?f = "snd (UpdateMetadataExit J (di_Path d) (now n) (- 1) f)"
  note U = UpdateMetadataExit_fine [where q = "di_Path d" and now = now and n = n and m = m, OF Cons.prems(1) law refl]
  have "disk_fine ?f" by (rule U(1))
  moreover have "meta_ended J now m p ?f"
    using U(3,5) Cons.prems(2) by (cases "p = di_Path d") (simp_all add: meta_ended_def)
  ultimately show ?case using Cons by (auto split: prod.splits sum.splits)
qed simp

lemma reconcile_ends:
  assumes law: "\<And>n. mj_dec J (mj_enc J (closed_meta m (now n))) = Some (closed_meta m (now n))"
  shows "disk_fine f \<Longrightarrow> d \<in> set ds \<Longrightarrow> di_Path d = p \<Longrightarrow> di_EndedAt d = None \<Longrightarrow> is_dir f p \<Longrightarrow>
    ReadMetadata J p f = Inr m \<Longrightarrow> meta_ended J now m p (snd (reconcile_loop J now ds n f))"
proof (induction ds arbitrary: n f)
  case (Cons e ds)
  let ?U = "UpdateMetadataExit J (di_Path e) (now n) (- 1) f"
  note U = UpdateMetadataExit_fine [where q = "di_Path e" and now = now and n = n and m = m, OF Cons.prems(1) law refl]
  show ?case
  proof (cases "di_EndedAt e = None")
    case True
    obtain k where k: "snd (reconcile_loop J now (e # ds) n f) = snd (reconcile_loop J now ds k (snd ?U))"
      using True by (cases ?U; cases "fst ?U") auto
    show ?thesis
    proof (cases "di_Path e = p")
      case True
      with U(4) Cons.prems have "meta_ended J now m p (snd ?U)" by simp
      then show ?thesis unfolding k by (rule reconcile_keeps_ended [where now = now and m = m, OF law U(1)])
    next
      case False
      with Cons.prems True have "d \<in> set ds" by auto
      with False Cons.IH [of "snd ?U" k] U Cons.prems k show ?thesis by simp
    qed
  next
    case False
    with Cons show ?thesis by auto
  qed
qed simp

text \<open>(C39) The start of a daemon makes the sessions of a crashed one unrestorable: for a session whose
metadata says that it was still running, \<^verbatim>\<open>LoadSessionHistory\<close> returns its scrollback before
\<^verbatim>\<open>ReconcileOrphans\<close> has run and refuses it as exited cleanly afterwards.\<close>

theorem reconcile_hides_cold_restore:
  assumes "\<And>n. mj_dec J (mj_enc J (closed_meta m (now n))) = Some (closed_meta m (now n))" and "disk_fine f" and "is_dir f dataDir"
    and "CHR ''/'' \<notin> set sid" and "sid \<notin> {[], ''.'', ''..''}" and "fs_get f (dataDir @ [sid]) = Some DirN"
    and "ReadMetadata J (dataDir @ [sid]) f = Inr m" and "md_EndedAt m = None" and "gm_ok (fs_nodes f)"
  shows "is_ok (LoadSessionHistory J dataDir sid f) \<and>
     LoadSessionHistory J dataDir sid (snd (ReconcileOrphans J now dataDir f)) = Inl RestoreCleanExit"
proof -
  let ?p = "dataDir @ [sid]"
  have j: "Join dataDir sid = ?p" by (rule Join_name [OF assms(4,5)])
  have "(?p, DirN) \<in> set (fs_nodes f)" using assms(6,9) by (simp add: fs_get_def gm_get_iff_mem)
  then have "(sid, DirN) \<in> set (sort_key fst (map (\<lambda>(q, n). (last q, n)) (filter (\<lambda>(q, n). q \<noteq> [] \<and> butlast q = dataDir) (fs_nodes f))))"
    by (force simp: image_iff)
  then obtain es where es: "ReadDir dataDir f = Inr es" "(sid, DirN) \<in> set es"
    using assms(2,3) by (auto simp: ReadDir_def disk_fine_def)
  let ?d = "\<lparr>di_Path = ?p, di_SessionID = md_SessionID m, di_EndedAt = md_EndedAt m, di_Size = size_or_0 (DirSize ?p f)\<rparr>"
  have "list_dir_info J dataDir f (sid, DirN) = Some ?d" using assms(7) by (simp add: list_dir_info_def j Let_def)
  with es(2) have "?d \<in> set (List.map_filter (list_dir_info J dataDir f) es)" by (force simp: set_map_filter)
  then obtain ds where ds: "ListSessionDirs J dataDir f = Inr ds" "?d \<in> set ds" using es by (simp add: ListSessionDirs_def)
  have "is_dir f ?p" using assms(6) by (simp add: is_dir_def)
  then have "meta_ended J now m ?p (snd (reconcile_loop J now ds 0 f))"
    using reconcile_ends [OF assms(1,2) ds(2), of ?p] assms(7,8) by simp
  moreover have "snd (ReconcileOrphans J now dataDir f) = snd (reconcile_loop J now ds 0 f)"
    using ds(1) by (simp add: ReconcileOrphans_def split: prod.split)
  ultimately show ?thesis
    using assms(7,8) by (auto simp: LoadSessionHistory_def j meta_ended_def closed_meta_def is_ok_def)
qed

theorem reconcile_hides_cold_restore_witness:
  "let m = \<lparr>md_SessionID = ''a'', md_Shell = ''sh'', md_Cwd = [], md_Cols = 80, md_Rows = 24, md_StartedAt = 1, md_EndedAt = None,
            md_ExitCode = None\<rparr>;
       J = \<lparr>mj_enc = (\<lambda>m. if md_EndedAt m = None then ''r'' else ''e''),
            mj_dec = (\<lambda>d. if d = ''r'' then Some m else Some (closed_meta m 5))\<rparr>;
       f = \<lparr>fs_nodes = [([''a''], DirN), ([''a'', ''meta.json''], FileN ''r'')], fs_deny = [], fs_room = []\<rparr>
   in is_ok (LoadSessionHistory J [] ''a'' f) \<and>
      LoadSessionHistory J [] ''a'' (snd (ReconcileOrphans J (\<lambda>n. 5) [] f)) = Inl RestoreCleanExit"
proof -
  let ?m = "\<lparr>md_SessionID = ''a'', md_Shell = ''sh'', md_Cwd = [], md_Cols = 80, md_Rows = 24, md_StartedAt = 1, md_EndedAt = None,
            md_ExitCode = None\<rparr>"
  let ?J = "\<lparr>mj_enc = (\<lambda>m. if md_EndedAt m = None then ''r'' else ''e''),
            mj_dec = (\<lambda>d. if d = ''r'' then Some ?m else Some (closed_meta ?m 5))\<rparr>"
  let ?f = "\<lparr>fs_nodes = [([''a''], DirN), ([''a'', ''meta.json''], FileN ''r'')], fs_deny = [], fs_room = []\<rparr>"
  have "mj_dec ?J (mj_enc ?J (closed_meta ?m 5)) = Some (closed_meta ?m 5)" by (simp add: closed_meta_def)
  moreover have "disk_fine ?f" "is_dir ?f []" "fs_get ?f ([] @ [''a'']) = Some DirN" "gm_ok (fs_nodes ?f)"
    by (simp_all add: disk_fine_def is_dir_def fs_get_def gm_get_Cons gm_ok_def)
  moreover have "ReadMetadata ?J ([] @ [''a'']) ?f = Inr ?m"
    by (simp add: ReadMetadata_def ReadFile_def fs_get_def gm_get_Cons) (simp add: metaFileName_def)
  ultimately show ?thesis
    unfolding Let_def
    using reconcile_hides_cold_restore [of ?J ?m "\<lambda>n. 5" ?f "[]" "''a''"] by simp
qed

end
