(* ===== verification/DaemonServe.thy ===== *)
theory DaemonServe
  imports DaemonReplies ClientConfig
begin

text \<open>
  How a daemon is put together: the Unix socket (\<^verbatim>\<open>internal/platform/ipc/listener.go\<close>) and the wiring of
  \<^verbatim>\<open>NewDaemon\<close> and \<^verbatim>\<open>Serve\<close> in \<^verbatim>\<open>pkg/client/daemon.go\<close>.
\<close>

section \<open>Unix sockets (listener.go)\<close>

text \<open>
  The kernel's view: the socket files with the listener each one was bound by, and the listeners
  that are open. A dial reaches the listener the file was bound by, if that is still open.
\<close>

record sockets =
  so_files :: "(path, nat) gomap"
  so_open :: "nat list"
  so_next :: nat

record Listener =
  li_inner :: nat
  li_path :: path

definition no_sockets :: sockets where
  "no_sockets = \<lparr>so_files = [], so_open = [], so_next = 0\<rparr>"

text \<open>\<open>bindable\<close> is whether the kernel lets the process bind the path.\<close>

definition Listen :: "bool \<Rightarrow> path \<Rightarrow> sockets \<Rightarrow> (Listener option) \<times> sockets" where
  "Listen bindable p k =
     (let k1 = (if gm_get (so_files k) p \<noteq> None then k\<lparr>so_files := gm_del p (so_files k)\<rparr> else k) in
      if \<not> bindable then (None, k1)
      else (Some \<lparr>li_inner = so_next k1, li_path = p\<rparr>,
            k1\<lparr>so_files := gm_put p (so_next k1) (so_files k1), so_open := so_next k1 # so_open k1, so_next := Suc (so_next k1)\<rparr>))"

definition Listener_Close :: "Listener \<Rightarrow> sockets \<Rightarrow> sockets" where
  "Listener_Close l k =
     (if li_inner l \<notin> set (so_open k) then k
      else k\<lparr>so_open := removeAll (li_inner l) (so_open k), so_files := gm_del (li_path l) (so_files k)\<rparr>)"

definition dial_socket :: "path \<Rightarrow> sockets \<Rightarrow> nat option" where
  "dial_socket p k =
     (case gm_get (so_files k) p of None \<Rightarrow> None | Some n \<Rightarrow> if n \<in> set (so_open k) then Some n else None)"

section \<open>NewDaemon and Serve (pkg/client/daemon.go)\<close>

definition client_NewDaemon :: "host \<Rightarrow> 'f Option list \<Rightarrow> fs \<Rightarrow> (io_error + 'f config) \<times> fs" where
  "client_NewDaemon h opts f =
     (let cfg = resolveConfig h (newConfig opts) in
      case MkdirAll (path_of (Dir (cg_socket cfg))) f of
        (Inl e, f1) \<Rightarrow> (Inl e, f1)
      | (Inr u, f1) \<Rightarrow>
          (case MkdirAll (path_of (cg_dataDir cfg)) f1 of
             (Inl e, f2) \<Rightarrow> (Inl e, f2)
           | (Inr u', f2) \<Rightarrow> (Inr cfg, f2)))"

text \<open>The daemon object that \<^verbatim>\<open>Serve\<close> builds, with its token and tracer.\<close>

definition serve_daemon :: "'f config \<Rightarrow> bytes \<Rightarrow> tracer \<Rightarrow> fs \<Rightarrow> 'e daemon" where
  "serve_daemon cfg token tr f =
     NewDaemon (NewServer token []) (new_service 0 (cg_emulatorFactory cfg \<noteq> None) tr)
       (newCmdRepository (cg_coldRestore cfg)) f
       [WithPIDFilePath (Some (path_of (JoinS [Dir (cg_socket cfg), ''wmux.pid'']))),
        DaemonState.WithDataDir (Some (path_of (cg_dataDir cfg))), WithVersion ''0.1.0'', WithEventBus (Some NewBus),
        DaemonState.WithColdRestore (cg_coldRestore cfg), WithCommandLifecycle (NewService []),
        DaemonState.WithMaxScrollbackSize (cg_maxScrollbackSize cfg)]"

datatype serve_error = ServeToken auth_error | ServeListen | ServeTracer | ServeStart pid_error

text \<open>
  \<^verbatim>\<open>Serve\<close> up to the point where the server accepts connections. \<open>rnd\<close> are the bytes of the random
  source, \<open>tr\<close> is what opening the debug log gives (\<open>None\<close> when it fails).
\<close>

definition Serve ::
  "'e denv \<Rightarrow> bytes \<Rightarrow> bool \<Rightarrow> tracer option \<Rightarrow> 'f config \<Rightarrow> fs \<times> sockets \<Rightarrow> (serve_error + 'e daemon) \<times> (fs \<times> sockets)" where
  "Serve env rnd bindable tr cfg = (\<lambda>(f, k).
     case Ensure rnd (path_of (cg_tokenPath cfg)) f of
       (Inl e, f1) \<Rightarrow> (Inl (ServeToken e), (f1, k))
     | (Inr token, f1) \<Rightarrow>
         (case Listen bindable (path_of (cg_socket cfg)) k of
            (None, k1) \<Rightarrow> (Inl ServeListen, (f1, k1))
          | (Some l, k1) \<Rightarrow>
              (case tr of
                 None \<Rightarrow> (Inl ServeTracer, (f1, k1))
               | Some t \<Rightarrow>
                   (case Start_begin env (serve_daemon cfg token t f1) of
                      (Inl e, d) \<Rightarrow> (Inl (ServeStart e), (dm_fs d, k1))
                    | (Inr u, d) \<Rightarrow> (Inr d, (dm_fs d, k1))))))"

lemma serve_daemon_simps [simp]:
  "dm_server (serve_daemon cfg token t f) = NewServer token []"
  "dm_svc (serve_daemon cfg token t f) = new_service 0 (cg_emulatorFactory cfg \<noteq> None) t"
  "dm_attachments (serve_daemon cfg token t f) = []" "dm_clientSession (serve_daemon cfg token t f) = []"
  "dm_waiters (serve_daemon cfg token t f) = []" "dm_waiterObjs (serve_daemon cfg token t f) = []"
  "dm_nextWaiter (serve_daemon cfg token t f) = 0"
  "dm_eventBus (serve_daemon cfg token t f) = Some NewBus" "dm_forwards (serve_daemon cfg token t f) = []"
  "dm_panicked (serve_daemon cfg token t f) = False" "dm_cmdSvc (serve_daemon cfg token t f) = Some (NewService [])"
  "dm_cmdSvcRepo (serve_daemon cfg token t f) = newCmdRepository (cg_coldRestore cfg)"
  "dm_cmdRepo (serve_daemon cfg token t f) = Some (newCmdRepository (cg_coldRestore cfg))"
  "dm_recordingDir (serve_daemon cfg token t f) = []" "dm_recordingMaxSize (serve_daemon cfg token t f) = 0"
  "dm_maxHistoryDumpSize (serve_daemon cfg token t f) = 0" "dm_fs (serve_daemon cfg token t f) = f"
  "dm_coldRestore (serve_daemon cfg token t f) = cg_coldRestore cfg"
  "dm_dataDir (serve_daemon cfg token t f) = Some (path_of (cg_dataDir cfg))"
  "dm_lineCounters (serve_daemon cfg token t f) = []"
  "dm_pidFilePath (serve_daemon cfg token t f) = Some (path_of (JoinS [Dir (cg_socket cfg), ''wmux.pid'']))"
  by (simp_all add: serve_daemon_def NewDaemon_def WithPIDFilePath_def DaemonState.WithDataDir_def WithVersion_def
      WithEventBus_def DaemonState.WithColdRestore_def WithCommandLifecycle_def DaemonState.WithMaxScrollbackSize_def)

section \<open>Properties\<close>

text \<open>A second daemon takes a running daemon's socket: listening on a path removes whatever socket file
is there, in use or not. The first daemon stays open but cannot be dialed any more, and when it
closes it removes the socket file of the second one, which is then open and unreachable too.\<close>

lemma listen_steals_socket:
  "case Listen True p no_sockets of
     (Some a, k1) \<Rightarrow>
       (case Listen True p k1 of
          (Some b, k2) \<Rightarrow>
            dial_socket p k1 = Some (li_inner a) \<and> dial_socket p k2 = Some (li_inner b) \<and> li_inner b \<noteq> li_inner a \<and>
            li_inner a \<in> set (so_open k2) \<and>
            dial_socket p (Listener_Close a k2) = None \<and> li_inner b \<in> set (so_open (Listener_Close a k2))
        | _ \<Rightarrow> False)
   | _ \<Rightarrow> False"
  by (simp add: Listen_def no_sockets_def dial_socket_def Listener_Close_def Let_def gm_get_Cons)

end
