(* ===== verification/DaemonSafety.thy ===== *)
theory DaemonSafety
  imports DaemonServe
begin

text \<open>
  The daemon as a whole: the steps of all its goroutines, interleaved in any order, from the start of
  a served daemon, and the invariant they keep.
\<close>

section \<open>The invariant\<close>

text \<open>
  The two maps of \<^verbatim>\<open>attachMu\<close>: the set of clients of a session is not empty, and a client that is on
  record for a session is in its set.
\<close>

definition books_ok :: "(bytes, bytes list) gomap \<Rightarrow> (bytes, bytes) gomap \<Rightarrow> bool" where
  "books_ok att cs \<longleftrightarrow>
     gm_ok att \<and> (\<forall>sid cids. gm_get att sid = Some cids \<longrightarrow> cids \<noteq> [] \<and> distinct cids) \<and>
     gm_ok cs \<and> (\<forall>cid sid. gm_get cs cid = Some sid \<longrightarrow> (\<exists>cids. gm_get att sid = Some cids \<and> cid \<in> set cids))"

text \<open>The waiters: those registered on a session are its own, each once, in one of the three modes.\<close>

definition waits_ok :: "(bytes, nat list) gomap \<Rightarrow> (nat, waiter) gomap \<Rightarrow> nat \<Rightarrow> bool" where
  "waits_ok ws objs next \<longleftrightarrow>
     gm_ok ws \<and> (\<forall>n w. gm_get objs n = Some w \<longrightarrow> n < next \<and> w_mode w \<in> {''exit'', ''idle'', ''match''}) \<and>
     (\<forall>sid ns. gm_get ws sid = Some ns \<longrightarrow>
        distinct ns \<and> (\<forall>n \<in> set ns. \<exists>w. gm_get objs n = Some w \<and> w_session w = sid))"

definition core_ok :: "'e daemon \<Rightarrow> bool" where
  "core_ok d \<longleftrightarrow> svc_ok (dm_svc d) \<and> books_ok (dm_attachments d) (dm_clientSession d) \<and>
     waits_ok (dm_waiters d) (dm_waiterObjs d) (dm_nextWaiter d)"

definition daemon_ok :: "'e daemon \<Rightarrow> bool" where
  "daemon_ok d \<longleftrightarrow> core_ok d \<and> calm d"

lemma books_att: "books_ok (dm_attachments d) (dm_clientSession d) \<Longrightarrow> att_ok d"
  by (fastforce simp: books_ok_def att_ok_def gm_get_iff_mem)

lemma daemon_ok_update [simp]:
  "daemon_ok (d\<lparr>dm_server := x1\<rparr>) = daemon_ok d" "daemon_ok (d\<lparr>dm_fs := x2\<rparr>) = daemon_ok d"
  "daemon_ok (d\<lparr>dm_fs := x2, dm_links := x3\<rparr>) = daemon_ok d" "daemon_ok (d\<lparr>dm_dataReady := x4\<rparr>) = daemon_ok d"
  "daemon_ok (d\<lparr>dm_recordings := x5\<rparr>) = daemon_ok d" "daemon_ok (d\<lparr>dm_fs := x2, dm_recordings := x5\<rparr>) = daemon_ok d"
  "daemon_ok (d\<lparr>dm_lineCounters := x6\<rparr>) = daemon_ok d" "daemon_ok (d\<lparr>dm_cmdRepo := x7\<rparr>) = daemon_ok d"
  "daemon_ok (d\<lparr>dm_stopTimers := x8\<rparr>) = daemon_ok d" "daemon_ok (d\<lparr>dm_cancelled := x9\<rparr>) = daemon_ok d"
  "daemon_ok (d\<lparr>dm_startedAt := x10\<rparr>) = daemon_ok d" "daemon_ok (d\<lparr>dm_hasCancel := x9\<rparr>) = daemon_ok d"
  by (simp_all add: daemon_ok_def core_ok_def calm_def)

lemma daemon_ok_svc [inv_intros]: "daemon_ok d \<Longrightarrow> svc_ok s \<Longrightarrow> daemon_ok (d\<lparr>dm_svc := s\<rparr>)"
  by (simp add: daemon_ok_def core_ok_def calm_def)

lemma daemon_ok_svc_ok: "daemon_ok d \<Longrightarrow> svc_ok (dm_svc d)"
  by (simp add: daemon_ok_def core_ok_def)

lemma daemon_ok_reply [simp]: "daemon_ok (reply cid f d) = daemon_ok d"
  by (simp add: reply_def)

lemma daemon_ok_replies [simp]:
  "daemon_ok (ok_reply env cid r d) = daemon_ok d" "daemon_ok (err_reply env cid msg d) = daemon_ok d"
  by (simp_all add: ok_reply_def err_reply_def)

lemma daemon_ok_trace [simp]: "daemon_ok (trace ev d) = daemon_ok d"
  by (simp add: trace_def daemon_ok_def core_ok_def calm_def)

lemma daemon_ok_publish [inv_intros]: "daemon_ok d \<Longrightarrow> daemon_ok (publishEvent e d)"
  by (simp add: daemon_ok_def core_ok_def calm_publish)

lemma daemon_ok_unit [inv_intros]:
  "daemon_ok d \<Longrightarrow> svc_ok (snd rs) \<Longrightarrow> daemon_ok (unit_reply env cid rs d)"
  by (auto simp: unit_reply_def daemon_ok_svc split: prod.splits sum.splits)

lemma sm_ok [inv_intros]:
  assumes "svc_ok s"
  shows "svc_ok (snd (sm_Create env req s))" and "svc_ok (snd (sm_Kill sid s))" and "svc_ok (snd (sm_Resize env sid c r s))"
    and "svc_ok (snd (sm_WriteInput sid data s))" and "svc_ok (snd (sm_Attach sid s))" and "svc_ok (snd (sm_Detach sid s))"
    and "svc_ok (snd (sm_MetaSet sid k v s))" and "svc_ok (snd (sm_UpdateEmulatorScrollback env sid n s))"
proof -
  note sm = sm_Create_def sm_Kill_def sm_Resize_def sm_WriteInput_def sm_Attach_def sm_Detach_def sm_MetaSet_def
    sm_UpdateEmulatorScrollback_def
  have c: "svc_ok (snd (svc_Create x now sid opts s))" for x now sid opts using svc_step_ok [OF st_create assms] .
  show "svc_ok (snd (sm_Create env req s))" using c by (simp add: sm split: prod.split) (metis snd_conv)
  show "svc_ok (snd (sm_Kill sid s))" "svc_ok (snd (sm_Resize env sid c r s))"
    "svc_ok (snd (sm_WriteInput sid data s))" "svc_ok (snd (sm_Attach sid s))" "svc_ok (snd (sm_Detach sid s))"
    "svc_ok (snd (sm_MetaSet sid k v s))" "svc_ok (snd (sm_UpdateEmulatorScrollback env sid n s))"
    using assms by (simp_all add: sm Kill_ok Resize_ok WriteInput_ok Attach_ok Detach_ok MetaSet_ok UpdateEmulatorScrollback_ok)
qed

section \<open>Attachments and waiters\<close>

lemma books_put:
  assumes b: "books_ok att cs" and "distinct cids" and "cid \<in> set cids"
    and old: "\<And>c. gm_get att sid = Some c \<Longrightarrow> set c \<subseteq> set cids"
  shows "books_ok (gm_put sid cids att) (gm_put cid sid cs)"
proof -
  have "\<exists>c. gm_get (gm_put sid cids att) s = Some c \<and> x \<in> set c" if x: "gm_get (gm_put cid sid cs) x = Some s" for x s
  proof (cases "x = cid")
    case False
    with x have "gm_get cs x = Some s" by simp
    with b obtain c where "gm_get att s = Some c" "x \<in> set c" unfolding books_ok_def by blast
    with old show ?thesis by (cases "s = sid") auto
  qed (use x assms(3) in auto)
  with b assms(2,3) show ?thesis by (auto simp: books_ok_def)
qed

lemma books_drop:
  assumes b: "books_ok att cs" and g: "gm_get att sid = Some cids"
  shows "removeAll cid cids = [] \<Longrightarrow> books_ok (gm_del sid att) (gm_del cid cs)"
    and "removeAll cid cids \<noteq> [] \<Longrightarrow> books_ok (gm_put sid (removeAll cid cids) att) (gm_del cid cs)"
proof -
  have m: "\<exists>c. gm_get att s = Some c \<and> x \<in> set c \<and> x \<noteq> cid" if "gm_get (gm_del cid cs) x = Some s" for x s
    using that b by (auto simp: books_ok_def split: if_splits)
  show "books_ok (gm_del sid att) (gm_del cid cs)" if r: "removeAll cid cids = []"
  proof -
    have "\<exists>c. gm_get (gm_del sid att) s = Some c \<and> x \<in> set c" if x: "gm_get (gm_del cid cs) x = Some s" for x s
    proof -
      obtain c where c: "gm_get att s = Some c" "x \<in> set c" "x \<noteq> cid" using m [OF x] by blast
      have "s \<noteq> sid"
      proof
        assume "s = sid"
        with c g have "x \<in> set (removeAll cid cids)" by simp
        with r show False by simp
      qed
      with c show ?thesis by auto
    qed
    with b show ?thesis by (auto simp: books_ok_def split: if_splits)
  qed
  show "books_ok (gm_put sid (removeAll cid cids) att) (gm_del cid cs)" if r: "removeAll cid cids \<noteq> []"
  proof -
    have "\<exists>c. gm_get (gm_put sid (removeAll cid cids) att) s = Some c \<and> x \<in> set c" if x: "gm_get (gm_del cid cs) x = Some s" for x s
      using m [OF x] g by (cases "s = sid") auto
    moreover have "distinct cids" using b g by (auto simp: books_ok_def)
    ultimately show ?thesis using b r by (auto simp: books_ok_def distinct_removeAll)
  qed
qed

lemma books_del: "books_ok att cs \<Longrightarrow> books_ok att (gm_del cid cs)"
  by (auto simp: books_ok_def split: if_splits)

lemma daemon_ok_attach [inv_intros]:
  assumes "daemon_ok d"
  shows "daemon_ok (add_attachment sid cid d)"
proof -
  let ?cids = "attached_to d sid"
  have b: "books_ok (dm_attachments d) (dm_clientSession d)" using assms by (simp add: daemon_ok_def core_ok_def)
  then have "distinct ?cids" by (auto simp: books_ok_def attached_to_def split: option.splits)
  then have "books_ok (gm_put sid (if cid \<in> set ?cids then ?cids else ?cids @ [cid]) (dm_attachments d))
      (gm_put cid sid (dm_clientSession d))"
    by (intro books_put [OF b]) (auto simp: attached_to_def)
  with assms show ?thesis by (simp add: add_attachment_def Let_def daemon_ok_def core_ok_def calm_def)
qed

lemma drop_attachment_frame:
  assumes "drop_attachment sid cid d = (b, d')"
  shows "dm_clientSession d' = dm_clientSession d" "dm_svc d' = dm_svc d" "dm_waiters d' = dm_waiters d"
    "dm_waiterObjs d' = dm_waiterObjs d" "dm_nextWaiter d' = dm_nextWaiter d" "calm d' = calm d"
  using assms by (auto simp: drop_attachment_def Let_def calm_def split: option.splits if_splits)

lemma drop_attachment_books:
  assumes "drop_attachment sid cid d = (b, d')" and "books_ok (dm_attachments d) cs"
  shows "books_ok (dm_attachments d') (gm_del cid cs)"
  using assms books_drop [OF assms(2)] books_del [OF assms(2)]
  by (auto simp: drop_attachment_def Let_def split: option.splits if_splits)

lemma daemon_ok_drop:
  assumes "daemon_ok d" and "drop_attachment sid cid d = (b, d')"
  shows "daemon_ok (d'\<lparr>dm_clientSession := gm_del cid (dm_clientSession d')\<rparr>)"
  using assms(1) drop_attachment_frame [OF assms(2)] drop_attachment_books [OF assms(2)]
  by (simp add: daemon_ok_def core_ok_def calm_def)

lemma daemon_ok_drop':
  assumes "daemon_ok d" and "drop_attachment sid cid (d\<lparr>dm_clientSession := gm_del cid (dm_clientSession d)\<rparr>) = (b, d')"
  shows "daemon_ok d'"
  using assms(1) drop_attachment_frame [OF assms(2)] drop_attachment_books [OF assms(2), of "dm_clientSession d"]
  by (simp add: daemon_ok_def core_ok_def calm_def)

lemma waits_put:
  assumes w: "waits_ok ws objs next" and g: "gm_get objs n = Some w" and "w_mode w' = w_mode w" and "w_session w' = w_session w"
  shows "waits_ok ws (gm_put n w' objs) next"
proof -
  have "\<exists>z. gm_get (gm_put n w' objs) k = Some z \<and> w_session z = sid"
    if k: "gm_get ws sid = Some ns" "k \<in> set ns" for sid ns k
  proof -
    obtain z where "gm_get objs k = Some z" "w_session z = sid" using w k unfolding waits_ok_def by blast
    with g assms(4) show ?thesis by (cases "k = n") auto
  qed
  moreover have "k < next \<and> w_mode z \<in> {''exit'', ''idle'', ''match''}" if "gm_get (gm_put n w' objs) k = Some z" for k z
    using that w g assms(3) unfolding waits_ok_def by (cases "k = n") auto
  ultimately show ?thesis using w unfolding waits_ok_def by blast
qed

lemma waits_each:
  assumes "waits_ok ws objs next" and "\<And>w. w_mode (f w) = w_mode w \<and> w_session (f w) = w_session w"
  shows "waits_ok ws (fold (\<lambda>n objs. case gm_get objs n of None \<Rightarrow> objs | Some w \<Rightarrow> gm_put n (f w) objs) ns objs) next"
  using assms(1)
proof (induction ns arbitrary: objs)
  case (Cons n ns)
  have "waits_ok ws (case gm_get objs n of None \<Rightarrow> objs | Some w \<Rightarrow> gm_put n (f w) objs) next"
    using waits_put [OF Cons.prems] Cons.prems assms(2) by (auto split: option.split)
  from Cons.IH [OF this] show ?case by simp
qed simp

lemma core_ok_each:
  assumes "core_ok d" and "\<And>w. w_mode (f w) = w_mode w \<and> w_session (f w) = w_session w"
  shows "core_ok (each_waiter f sid d)"
  using assms(1) waits_each [where f = f, OF _ assms(2)] by (simp add: core_ok_def each_waiter_def)

lemma core_ok_notify [inv_intros]:
  assumes "core_ok d"
  shows "core_ok (notifyExitWaiters sid code d)" and "core_ok (notifyExitOnNonExitWaiters sid code d)"
    and "core_ok (notifyOutputWaiters env sid data d)"
  using assms unfolding notifyExitWaiters_def notifyExitOnNonExitWaiters_def notifyOutputWaiters_def
  by (auto intro!: core_ok_each simp: send_done_def)

lemma waits_add:
  assumes w: "waits_ok ws objs next" and "w_mode x \<in> {''exit'', ''idle'', ''match''}" and "w_session x = sid"
    and ns: "ns = (case gm_get ws sid of None \<Rightarrow> [] | Some k \<Rightarrow> k)"
  shows "waits_ok (gm_put sid (ns @ [next]) ws) (gm_put next x objs) (Suc next)"
proof -
  have fresh: "k < next" if "gm_get objs k = Some z" for k z using w that unfolding waits_ok_def by blast
  have old: "distinct ms \<and> (\<forall>k \<in> set ms. k < next \<and> (\<exists>z. gm_get objs k = Some z \<and> w_session z = s))"
    if "gm_get ws s = Some ms" for s ms
    using w that fresh unfolding waits_ok_def by blast
  then have n: "distinct ns \<and> (\<forall>k \<in> set ns. k < next \<and> (\<exists>z. gm_get objs k = Some z \<and> w_session z = sid))"
    unfolding ns by (simp split: option.split)
  have "distinct ms \<and> (\<forall>k \<in> set ms. \<exists>z. gm_get (gm_put next x objs) k = Some z \<and> w_session z = s)"
    if "gm_get (gm_put sid (ns @ [next]) ws) s = Some ms" for s ms
  proof (cases "s = sid")
    case True
    with that n assms(3) show ?thesis by auto
  next
    case False
    with that old [of s ms] show ?thesis by auto
  qed
  moreover have "k < Suc next \<and> w_mode z \<in> {''exit'', ''idle'', ''match''}" if "gm_get (gm_put next x objs) k = Some z" for k z
    using that w assms(2) fresh [of k z] unfolding waits_ok_def by (cases "k = next") (auto simp: less_Suc_eq)
  ultimately show ?thesis using w unfolding waits_ok_def by auto
qed

lemma daemon_ok_addWaiter [inv_intros]:
  assumes "daemon_ok d" and "w_mode w \<in> {''exit'', ''idle'', ''match''}" and "w_session w = sid"
  shows "daemon_ok (snd (addWaiter sid w d))"
  using assms(1) waits_add [OF _ assms(2,3) refl, of "dm_waiters d" "dm_waiterObjs d" "dm_nextWaiter d"]
  by (simp add: addWaiter_def Let_def daemon_ok_def core_ok_def calm_def waiters_of_def)

lemma waits_remove:
  assumes w: "waits_ok ws objs next" and g: "gm_get ws sid = Some ns"
  shows "waits_ok (gm_put sid (remove1 n ns) ws) objs next"
proof -
  have "distinct ns" "\<forall>k \<in> set ns. \<exists>z. gm_get objs k = Some z \<and> w_session z = sid"
    using w g unfolding waits_ok_def by blast+
  then have "distinct (remove1 n ns)" "\<forall>k \<in> set (remove1 n ns). \<exists>z. gm_get objs k = Some z \<and> w_session z = sid"
    using set_remove1_subset [of n ns] by auto
  with w show ?thesis unfolding waits_ok_def by auto
qed

lemma daemon_ok_removeWaiter [inv_intros]:
  assumes "daemon_ok d"
  shows "daemon_ok (removeWaiter sid n d)"
proof (cases "gm_get (dm_waiters d) sid")
  case (Some ns)
  with assms waits_remove [OF _ Some] show ?thesis
    by (simp add: removeWaiter_def waiters_of_def daemon_ok_def core_ok_def calm_def)
qed (simp add: removeWaiter_def waiters_of_def assms)

section \<open>The output path\<close>

lemma core_ok_cong:
  "dm_svc d' = dm_svc d \<Longrightarrow> dm_attachments d' = dm_attachments d \<Longrightarrow> dm_clientSession d' = dm_clientSession d \<Longrightarrow>
   dm_waiters d' = dm_waiters d \<Longrightarrow> dm_waiterObjs d' = dm_waiterObjs d \<Longrightarrow> dm_nextWaiter d' = dm_nextWaiter d \<Longrightarrow>
   core_ok d' = core_ok d"
  by (simp add: core_ok_def)

lemma core_ok_svc: "core_ok d \<Longrightarrow> svc_ok s \<Longrightarrow> core_ok (d\<lparr>dm_svc := s\<rparr>)"
  by (simp add: core_ok_def)

lemma core_ok_osc_step: "core_ok d \<Longrightarrow> core_ok (snd (osc_step env sid data r (cur, d)))"
  by (cases "osc_Type r") (auto simp: osc_step_def Let_def core_ok_def intro: sm_ok split: option.split)

lemma core_ok_osc_fold: "core_ok d \<Longrightarrow> core_ok (snd (fold (osc_step env sid data) rs (cur, d)))"
proof (induction rs arbitrary: cur d)
  case (Cons r rs)
  obtain c' d' where "osc_step env sid data r (cur, d) = (c', d')" by fastforce
  with core_ok_osc_step [OF Cons.prems, of env sid data r cur] Cons.IH [of d' c'] show ?case by simp
qed simp

lemma core_ok_process:
  assumes "core_ok d"
  shows "core_ok (process_output env sid data d)"
proof -
  obtain c1 d1 where f: "fold (osc_step env sid data) (ParseOSC (de_url env) data) (0, d) = (c1, d1)" by fastforce
  then have "core_ok d1" using core_ok_osc_fold [OF assms, of env sid data _ 0] by (metis snd_conv)
  then have 1: "core_ok (scanOSC env sid data d)"
    using assms by (auto simp: scanOSC_def Let_def f core_ok_cong [of "counter_add _ _ _"])
  have "svc_ok s \<Longrightarrow> svc_ok (fold (\<lambda>r s. snd (sm_WriteInput sid (da_response r) s)) rs s)" for rs and s :: "'a service"
    by (induction rs arbitrary: s) (simp_all add: sm_ok)
  with 1 have "core_ok (scanDA sid data (scanOSC env sid data d))"
    by (auto simp: scanDA_def Let_def core_ok_def)
  then have "core_ok (teeRecording env sid data (persistOutput sid data (scanDA sid data (scanOSC env sid data d))))"
    by (simp add: core_ok_cong [of "teeRecording _ _ _ _"] core_ok_cong [of "persistOutput _ _ _"])
  then show ?thesis by (simp add: process_output_def core_ok_notify)
qed

lemma core_ok_flush:
  assumes "core_ok d"
  shows "core_ok (flush_attached env sid cids d)" and "core_ok (flush_waited env sid d)"
proof -
  obtain r d' where dr: "drain sid d = (r, d')" by fastforce
  have "svc_ok (dm_svc d)" using assms by (simp add: core_ok_def)
  from drain_frame [OF this dr] assms have d': "core_ok d'" by (simp add: core_ok_def)
  have "core_ok (broadcast_data env sid data cids e)" if "core_ok e" for data and e :: "'a daemon"
    using that by (simp add: core_ok_def)
  with d' show "core_ok (flush_attached env sid cids d)" "core_ok (flush_waited env sid d)"
    by (auto simp: flush_attached_def flush_waited_def dr core_ok_process split: option.split)
qed

lemma core_ok_flushOutput:
  assumes "core_ok d"
  shows "core_ok (flushOutput env d)"
proof -
  have 1: "core_ok e \<Longrightarrow> core_ok (fold (\<lambda>(sid, cids). flush_attached env sid cids) xs e)" for xs and e :: "'a daemon"
    by (induction xs arbitrary: e) (auto simp: core_ok_flush)
  have 2: "core_ok e \<Longrightarrow> core_ok (fold (flush_waited env) xs e)" for xs and e :: "'a daemon"
    by (induction xs arbitrary: e) (auto simp: core_ok_flush)
  show ?thesis unfolding flushOutput_def Let_def by (intro 2 1 assms)
qed

lemma daemon_ok_cast [inv_intros]:
  assumes "daemon_ok d" and "broadcastOutput_step env arm d = Some (go, d')"
  shows "daemon_ok d'"
proof -
  have f: "daemon_ok (flushOutput env e)" if "daemon_ok e" for e :: "'a daemon"
    using that by (simp add: daemon_ok_def core_ok_flushOutput calm_flushOutput)
  have "daemon_ok (flushSessionOutput env sid e)" if "daemon_ok e" for sid and e :: "'a daemon"
    by (rule flushSession_cases [of env sid e]) (use that f in \<open>simp_all add: daemon_ok_def core_ok_flush calm_flush\<close>)
  with f assms show ?thesis by (auto simp: broadcastOutput_step_def split: cast_arm.splits if_splits list.splits)
qed

lemma daemon_ok_exit [inv_intros]:
  assumes "daemon_ok d"
  shows "daemon_ok (onExit env sid code d)"
proof -
  have "dm_waiterObjs (onExit env sid code d) = dm_waiterObjs (notifyExitOnNonExitWaiters sid code (notifyExitWaiters sid code d))"
    by (simp add: onExit_def Let_def split: option.split prod.split)
  moreover have "core_ok (notifyExitOnNonExitWaiters sid code (notifyExitWaiters sid code d))"
    using assms by (intro core_ok_notify) (simp add: daemon_ok_def)
  ultimately show ?thesis using assms calm_onExit [of d env sid code] by (simp add: daemon_ok_def core_ok_def)
qed

lemma daemon_ok_session [inv_intros]:
  assumes "daemon_ok d" and "svc_ok (g (dm_svc d))"
  shows "daemon_ok (session_step env g d)"
proof -
  have "daemon_ok e \<Longrightarrow> daemon_ok (run_callback env c e)" for c and e :: "'a daemon"
    by (cases c) (simp_all add: daemon_ok_exit onDataReady_def)
  then have "daemon_ok e \<Longrightarrow> daemon_ok (fold (run_callback env) cs e)" for cs and e :: "'a daemon"
    by (induction cs arbitrary: e) simp_all
  with assms show ?thesis by (simp add: session_step_def Let_def daemon_ok_svc)
qed

section \<open>The handlers\<close>

lemma daemon_ok_cmdSvc:
  "daemon_ok d \<Longrightarrow> (\<And>s. dm_cmdSvc d = Some s \<Longrightarrow> cl_service_ok s \<Longrightarrow> cl_service_ok (g s)) \<Longrightarrow>
   daemon_ok (d\<lparr>dm_cmdSvc := map_option g (dm_cmdSvc d), dm_lineCounters := lc\<rparr>)"
  by (auto simp: daemon_ok_def core_ok_def calm_def split: option.splits)

lemma daemon_ok_register:
  assumes "daemon_ok d"
  shows "daemon_ok (d\<lparr>dm_cmdSvc := register_cmds sid (dm_cmdSvc d), dm_lineCounters := lc\<rparr>)"
  unfolding register_cmds_def using assms
  by (rule daemon_ok_cmdSvc) (auto intro: Register_ok split: sum.split)

lemma daemon_ok_open [simp]: "daemon_ok (open_cmd_writer sid d) = daemon_ok d"
  by (simp add: open_cmd_writer_def split: option.split)

lemma daemon_ok_persist [simp]: "daemon_ok (persistSessionCreate env sid req d) = daemon_ok d"
  by (simp add: daemon_ok_def core_ok_def calm_def)

lemma daemon_ok_create [inv_intros]:
  assumes "daemon_ok d"
  shows "daemon_ok (handleCreate env cid p d)"
proof -
  have s: "svc_ok (snd (sm_Create env req (dm_svc d)))" for req
    using daemon_ok_svc_ok [OF assms] by (rule sm_ok)
  show ?thesis
  proof (cases "wj_create (de_wire env) p")
    case (Some req)
    obtain r s' where c: "sm_Create env req (dm_svc d) = (r, s')" by fastforce
    then have "svc_ok s'" using s [of req] by simp
    with assms have d': "daemon_ok (d\<lparr>dm_svc := s'\<rparr>)" by (simp add: daemon_ok_svc)
    show ?thesis
    proof (cases r)
      case (Inr info)
      have "daemon_ok (persistSessionCreate env (cq_ID req) req (d\<lparr>dm_svc := s'\<rparr>))" using d' by simp
      note daemon_ok_register [OF this, where sid = "cq_ID req"]
      then show ?thesis using Some c Inr by (simp add: handleCreate_def Let_def daemon_ok_publish)
    qed (use Some c d' in \<open>simp add: handleCreate_def\<close>)
  qed (simp add: handleCreate_def assms)
qed

lemma daemon_ok_attached [inv_intros]:
  assumes "daemon_ok d"
  shows "daemon_ok (handleAttach env cid p d)"
proof (cases "wj_sid (de_wire env) p")
  case (Some sid)
  obtain r s' where c: "sm_Attach sid (dm_svc d) = (r, s')" by fastforce
  then have "svc_ok s'" using sm_ok(5) [OF daemon_ok_svc_ok [OF assms], of sid] by simp
  then have "daemon_ok (d\<lparr>dm_svc := s'\<rparr>)" by (rule daemon_ok_svc [OF assms])
  with Some c assms show ?thesis
    by (auto simp: handleAttach_def Let_def split: sum.splits intro!: daemon_ok_publish daemon_ok_attach)
qed (simp add: handleAttach_def assms)

lemma daemon_ok_detached:
  assumes "daemon_ok d"
  shows "daemon_ok (session_detached sid d)"
  unfolding session_detached_def
  by (intro daemon_ok_publish daemon_ok_svc assms sm_ok daemon_ok_svc_ok [OF assms])

lemma daemon_ok_detach [inv_intros]:
  assumes "daemon_ok d"
  shows "daemon_ok (handleDetach env cid p d)" and "daemon_ok (detachClient cid d)"
proof -
  show "daemon_ok (handleDetach env cid p d)"
    using assms daemon_ok_drop [OF assms]
    by (auto simp: handleDetach_def Let_def daemon_ok_detached split: option.split prod.split)
  show "daemon_ok (detachClient cid d)"
    using assms daemon_ok_drop' [OF assms]
    by (auto simp: detachClient_def daemon_ok_detached split: option.split prod.split)
qed

lemma svc_ok_loops:
  assumes "svc_ok s"
  shows "svc_ok (snd (exec_loop inp sids s))" and "svc_ok (snd (snd (kill_loop sids s)))"
    and "svc_ok (fold (\<lambda>i s. snd (sm_Kill (si_ID i) s)) infos s)"
proof -
  show "svc_ok (snd (exec_loop inp sids s))" using assms
  proof (induction sids arbitrary: s)
    case (Cons sid sids)
    with sm_ok(4) [OF Cons.prems, of sid inp] show ?case by (simp add: case_prod_beta)
  qed simp
  show "svc_ok (snd (snd (kill_loop sids s)))" using assms
  proof (induction sids arbitrary: s)
    case (Cons sid sids)
    with sm_ok(2) [OF Cons.prems, of sid] show ?case by (simp add: case_prod_beta split: sum.split)
  qed simp
  show "svc_ok (fold (\<lambda>i s. snd (sm_Kill (si_ID i) s)) infos s)" using assms
    by (induction infos arbitrary: s) (simp_all add: sm_ok)
qed

lemma daemon_ok_unit_handlers [inv_intros]:
  assumes "daemon_ok d"
  shows "daemon_ok (handleKill env cid p d)" and "daemon_ok (handleInput env cid p d)"
    and "daemon_ok (handleMetaSet env cid p d)" and "daemon_ok (handleExec env cid p d)"
    and "daemon_ok (handleUpdateEmulatorScrollback env cid p d)"
  using assms daemon_ok_svc_ok [OF assms]
  by (auto simp: handleKill_def handleInput_def handleMetaSet_def handleExec_def handleUpdateEmulatorScrollback_def
      intro!: daemon_ok_unit sm_ok split: option.split sum.split)

lemma daemon_ok_readers [simp]:
  "daemon_ok (handleList env cid p d) = daemon_ok d" "daemon_ok (handleInfo env cid p d) = daemon_ok d"
  "daemon_ok (handleStatus env cid d) = daemon_ok d" "daemon_ok (handleMetaGet env cid p d) = daemon_ok d"
  "daemon_ok (handleShutdown env cid d) = daemon_ok d"
  by (simp_all add: handleList_def Let_def handleInfo_def handleStatus_def handleMetaGet_def handleShutdown_def
      split: option.split sum.split)

lemma daemon_ok_env [simp]: "daemon_ok (handleEnvForward env cid p d) = daemon_ok d"
  by (simp add: handleEnvForward_def Let_def split: option.split prod.split)

lemma daemon_ok_record [simp]: "daemon_ok (handleRecord env cid p d) = daemon_ok d"
  by (simp add: handleRecord_def recordStart_def recordStop_def Let_def split: option.split sum.split prod.split)

lemma daemon_ok_history [simp]: "daemon_ok (handleHistory env cid p d) = daemon_ok d"
proof -
  have "daemon_ok (fold (\<lambda>chunk. reply cid (history_frame chunk)) cs e) = daemon_ok e" for cs and e :: "'a daemon"
    by (induction cs arbitrary: e) simp_all
  then show ?thesis by (simp add: handleHistory_def split: option.split sum.split)
qed

lemma daemon_ok_resize [inv_intros]:
  assumes "daemon_ok d"
  shows "daemon_ok (handleResize env cid p d)"
proof -
  have "daemon_ok (d\<lparr>dm_svc := s'\<rparr>)" if "sm_Resize env sid c r (dm_svc d) = (x, s')" for sid c r x s'
    using daemon_ok_svc [OF assms] sm_ok(3) [OF daemon_ok_svc_ok [OF assms], of env sid c r] that by simp
  with assms show ?thesis by (auto simp: handleResize_def split: option.split prod.split sum.split)
qed

lemma daemon_ok_many [inv_intros]:
  assumes "daemon_ok d"
  shows "daemon_ok (handleExecSync env cid p d)" and "daemon_ok (handleKillPrefix env cid p d)"
proof -
  note loops = svc_ok_loops [OF daemon_ok_svc_ok [OF assms]]
  have "daemon_ok (d\<lparr>dm_svc := s'\<rparr>)" if "exec_loop inp sids (dm_svc d) = (x, s')" for inp sids x s'
    using daemon_ok_svc [OF assms] loops(1) [of inp sids] that by simp
  with assms show "daemon_ok (handleExecSync env cid p d)"
    by (auto simp: handleExecSync_def Let_def split: option.split prod.split)
  have "daemon_ok (d\<lparr>dm_svc := s'\<rparr>)" if "kill_loop sids (dm_svc d) = (x, y, s')" for sids x y s'
    using daemon_ok_svc [OF assms] loops(2) [of sids] that by simp
  with assms show "daemon_ok (handleKillPrefix env cid p d)"
    by (auto simp: handleKillPrefix_def Let_def split: option.split prod.split)
qed

lemma daemon_ok_wait [inv_intros]: "daemon_ok d \<Longrightarrow> daemon_ok (handleWait env cid p d)"
  by (auto simp: handleWait_def new_waiter_def intro!: daemon_ok_addWaiter split: option.split sum.split)

lemma bus_serves_subscribe:
  assumes "bus_serves (Some b) fws" and "Subscribe b = (a, b')"
  shows "bus_serves (Some b') (fws @ [(a, cid, flt)])"
proof -
  have s: "bus_subscribe None b = (a, b')" using assms(2) by (simp add: Subscribe_def)
  have "bus_inv (b', [])" using bus_inv_subscribe [of b "[]" None] assms s by simp
  moreover have "gm_get (bus_store b') x \<noteq> None" if "x = a \<or> gm_get (bus_store b) x \<noteq> None" for x
    using that s by (auto simp: bus_subscribe_def Let_def split: if_splits)
  moreover have "\<not> bus_closed b'" using assms s by (auto simp: bus_subscribe_def Let_def split: if_splits)
  ultimately show ?thesis using assms(1) by (auto simp: list_all_iff)
qed

lemma daemon_ok_subscribe [inv_intros]:
  assumes "daemon_ok d"
  shows "daemon_ok (handleSubscribe env cid p d)"
proof -
  have "daemon_ok (d\<lparr>dm_eventBus := Some b', dm_forwards := dm_forwards d @ [(a, cid, flt)]\<rparr>)"
    if "dm_eventBus d = Some b" "Subscribe b = (a, b')" for b a b' flt
    using assms that bus_serves_subscribe [OF _ that(2), of "dm_forwards d" cid flt]
    by (simp add: daemon_ok_def core_ok_def calm_def del: bus_serves.simps)
  with assms show ?thesis by (auto simp: handleSubscribe_def split: option.split prod.split)
qed

lemmas daemon_ok_handlers =
  daemon_ok_create daemon_ok_attached daemon_ok_detach daemon_ok_unit_handlers daemon_ok_resize daemon_ok_many
  daemon_ok_wait daemon_ok_subscribe

lemma daemon_ok_dispatch [inv_intros]: "daemon_ok d \<Longrightarrow> daemon_ok (dispatch env cid frame d)"
  by (simp add: dispatch_def Let_def daemon_ok_handlers)

section \<open>Steps of the daemon\<close>

lemma daemon_ok_readControl: "daemon_ok d \<Longrightarrow> daemon_ok (snd (readControl_step env cid d))"
  by (simp add: readControl_step_def Let_def daemon_ok_detach daemon_ok_dispatch split: option.split prod.split sum.split)

lemma daemon_ok_fire: "daemon_ok d \<Longrightarrow> wait_fire env arm n d = Some d' \<Longrightarrow> daemon_ok d'"
  by (auto simp: wait_fire_def daemon_ok_removeWaiter split: option.splits if_splits)

lemma bus_serves_step:
  assumes "bus_serves (Some b) fws"
  shows "bus_serves (Some (snd (receive a b))) fws"
    and "gm_get (bus_store b) a \<noteq> None \<Longrightarrow> \<exists>b'. Unsubscribe a b = Some b' \<and> bus_serves (Some b') (remove1 fw fws)"
proof -
  have inv: "bus_inv (b, [])" and o: "\<not> bus_closed b" using assms by simp_all
  have "bus_inv (snd (receive a b), [])" using bus_inv_step [OF bst_receive inv] .
  moreover have "gm_get (bus_store (snd (receive a b))) x \<noteq> None \<longleftrightarrow> gm_get (bus_store b) x \<noteq> None" for x
    by (auto simp: receive_def split: option.splits list.splits)
  moreover have "bus_closed (snd (receive a b)) = bus_closed b" by (simp add: receive_def split: option.split list.split)
  ultimately show "bus_serves (Some (snd (receive a b))) fws" using assms by (auto simp: list_all_iff)
  show "\<exists>b'. Unsubscribe a b = Some b' \<and> bus_serves (Some b') (remove1 fw fws)" if a: "gm_get (bus_store b) a \<noteq> None"
  proof -
    obtain b' where u: "Unsubscribe a b = Some b'" using Unsubscribe_total [OF inv a] by blast
    have "bus_inv (b', [])" using bus_inv_step [OF bst_unsubscribe [OF u] inv] .
    moreover have "gm_get (bus_store b') (fst x) \<noteq> None" if "x \<in> set (remove1 fw fws)" for x
    proof -
      have "x \<in> set fws" using that set_remove1_subset by (rule rev_subsetD)
      then have "gm_get (bus_store b) (fst x) \<noteq> None" using assms by (auto simp: list_all_iff)
      then show ?thesis using u by (auto simp: Unsubscribe_def removeSub_def split: option.splits if_splits)
    qed
    moreover have "bus_closed b' = bus_closed b"
      using u by (auto simp: Unsubscribe_def removeSub_def split: option.splits if_splits)
    ultimately show ?thesis using o u by (auto simp: list_all_iff)
  qed
qed

lemma daemon_ok_bus:
  "daemon_ok d \<Longrightarrow> bus_serves (Some b) fws \<Longrightarrow> daemon_ok (d\<lparr>dm_eventBus := Some b, dm_forwards := fws\<rparr>)"
  by (simp add: daemon_ok_def core_ok_def calm_def del: bus_serves.simps)

lemma daemon_ok_end_forward:
  assumes "daemon_ok d" and "bus_serves (Some b) (dm_forwards d)" and "gm_get (bus_store b) (fst fw) \<noteq> None"
  shows "daemon_ok (end_forward fw b d)"
  using bus_serves_step(2) [OF assms(2,3), of fw] daemon_ok_bus [OF assms(1)]
  by (auto simp: end_forward_def simp del: bus_serves.simps)

lemma daemon_ok_forward:
  assumes "daemon_ok d" and "fw \<in> set (dm_forwards d)"
  shows "daemon_ok (forward_step env fw d)"
proof (cases "dm_eventBus d")
  case (Some b)
  obtain a cid flt where fw: "fw = (a, cid, flt)" by (cases fw)
  have serves: "bus_serves (Some b) (dm_forwards d)" using assms(1) Some by (simp add: daemon_ok_def calm_def)
  then have a: "gm_get (bus_store b) a \<noteq> None" using assms(2) fw by (auto simp: list_all_iff)
  obtain r b' where r: "receive a b = (r, b')" by fastforce
  have serves': "bus_serves (Some b') (dm_forwards d)" using bus_serves_step(1) [OF serves, of a] r by simp
  then have a': "gm_get (bus_store b') a \<noteq> None" using assms(2) fw by (auto simp: list_all_iff)
  have ended: "daemon_ok (end_forward fw b d)" using daemon_ok_end_forward [OF assms(1) serves] a fw by simp
  have d1: "daemon_ok (d\<lparr>dm_eventBus := Some b'\<rparr>)"
    using daemon_ok_bus [OF assms(1) serves'] assms(1) by simp
  have d2: "daemon_ok (end_forward fw b' (reply cid f (d\<lparr>dm_eventBus := Some b'\<rparr>)))" for f
    by (rule daemon_ok_end_forward) (use d1 serves' a' fw in \<open>simp_all del: bus_serves.simps\<close>)
  show ?thesis
    using assms(1) ended d1 d2 unfolding fw by (auto simp: forward_step_def Some r Let_def split: option.split)
qed (simp add: forward_step_def assms)

lemma daemon_ok_stop [simp]: "daemon_ok (Daemon_Stop d) = daemon_ok d"
  by (simp add: Daemon_Stop_def)

lemma daemon_ok_graceful: "daemon_ok d \<Longrightarrow> daemon_ok (GracefulShutdown d)"
  by (simp add: GracefulShutdown_def daemon_ok_svc svc_ok_loops daemon_ok_svc_ok)

text \<open>
  The steps of a running daemon: a client's control loop, the broadcaster, the goroutines of the
  session service with the callbacks they make, the goroutines of waiters, event forwarders and the
  delayed stop, new connections, and a graceful shutdown.
\<close>

inductive daemon_step :: "'e daemon \<Rightarrow> 'e daemon \<Rightarrow> bool" where
  dst_control: "daemon_step d (snd (readControl_step env cid d))"
| dst_cast: "broadcastOutput_step env arm d = Some (go, d') \<Longrightarrow> daemon_step d d'"
| dst_session: "svc_step (dm_svc d) s' \<Longrightarrow> daemon_step d (session_step env (\<lambda>_. s') d)"
| dst_wait: "wait_fire env arm n d = Some d' \<Longrightarrow> daemon_step d d'"
| dst_forward: "fw \<in> set (dm_forwards d) \<Longrightarrow> daemon_step d (forward_step env fw d)"
| dst_timer: "stop_timer d = Some d' \<Longrightarrow> daemon_step d d'"
| dst_connect: "daemon_step d (d\<lparr>dm_server := snd (handleConn henv conn (dm_server d))\<rparr>)"
| dst_shutdown: "daemon_step d (GracefulShutdown d)"

inductive daemon_reach :: "'f config \<Rightarrow> 'e daemon \<Rightarrow> bool" for cfg where
  dre_start: "Start_begin env (serve_daemon cfg token t f) = (Inr (), d) \<Longrightarrow> daemon_reach cfg d"
| dre_step: "daemon_reach cfg d \<Longrightarrow> daemon_step d d' \<Longrightarrow> daemon_reach cfg d'"

lemma daemon_ok_step: "daemon_step d d' \<Longrightarrow> daemon_ok d \<Longrightarrow> daemon_ok d'"
  by (induction rule: daemon_step.induct)
    (auto simp: daemon_ok_readControl daemon_ok_forward daemon_ok_graceful stop_timer_def daemon_ok_svc_ok svc_step_ok
      intro: daemon_ok_cast daemon_ok_session daemon_ok_fire split: if_splits)

lemma restore_commands_ok:
  assumes "case svc of None \<Rightarrow> True | Some s \<Rightarrow> cl_service_ok s"
  shows "case RestoreCommandsForSession J dir sid now f svc of
     None \<Rightarrow> False | Some (err, svc') \<Rightarrow> (case svc' of None \<Rightarrow> True | Some s \<Rightarrow> cl_service_ok s)"
proof (cases svc)
  case (Some s)
  then have ok: "cl_service_ok s" using assms by simp
  then have "0 < svcMaxHistory s" by (simp add: cl_service_ok_def)
  then have r: "Restore s sid st now \<noteq> None" for st
    using restore_tracker_spec [of "svcMaxHistory s" st now] by (auto simp: Restore_def split: option.split)
  obtain fl e where l: "Load J (Join (Join dir sid) ''commands.json'') f = (fl, e)" by fastforce
  show ?thesis
    using ok r [of "\<lparr>History = cf_History fl, InFlight = cf_InFlight fl\<rparr>"] Restore_ok [OF ok]
    by (auto simp: RestoreCommandsForSession_def Some l split: option.splits cmd_error.splits sum.splits)
qed (simp add: RestoreCommandsForSession_def)

lemma daemon_ok_restore_entry:
  assumes "daemon_ok d"
  shows "daemon_ok (restore_entry env dir e d)"
proof -
  obtain err svc' where r: "RestoreCommandsForSession (de_cmd env) dir (fst e) (de_now env 0) (dm_fs d) (dm_cmdSvc d) = Some (err, svc')"
      "case svc' of None \<Rightarrow> True | Some s \<Rightarrow> cl_service_ok s"
    using restore_commands_ok [of "dm_cmdSvc d" "de_cmd env" dir "fst e" "de_now env 0" "dm_fs d"] assms
    unfolding daemon_ok_def calm_def by (fastforce split: option.splits prod.splits)
  have "daemon_ok (d\<lparr>dm_cmdSvc := svc', dm_lineCounters := lc\<rparr>)" for lc
    using assms r(2) by (simp add: daemon_ok_def core_ok_def calm_def)
  with assms r(1) show ?thesis by (simp add: restore_entry_def Let_def split: option.split)
qed

lemma daemon_ok_Start:
  assumes "daemon_ok d" and "Start_begin env d = (Inr u, d')"
  shows "daemon_ok d'"
proof -
  have fold: "daemon_ok e \<Longrightarrow> daemon_ok (fold (restore_entry env dir) es e)" for es dir and e :: "'a daemon"
    by (induction es arbitrary: e) (simp_all add: daemon_ok_restore_entry)
  have restore: "daemon_ok e \<Longrightarrow> daemon_ok (restoreCommandHistoriesAtStartup env dir e)" for dir and e :: "'a daemon"
    by (simp add: restoreCommandHistoriesAtStartup_def fold split: sum.split)
  have cb: "svc_ok (s\<lparr>ss_hasOnExit := True, ss_hasOnDataReady := True\<rparr>) = svc_ok s" for s :: "'a service"
    by (rule svc_ok_cong) simp_all
  have finish: "daemon_ok e \<Longrightarrow> daemon_ok (e\<lparr>dm_hasCancel := True, dm_svc := (dm_svc e)\<lparr>ss_hasOnExit := True, ss_hasOnDataReady := True\<rparr>,
      dm_cmdSvc := map_option (OnEvent True) (dm_cmdSvc e), dm_server := OnClient (dm_server e)\<rparr>)" for e :: "'a daemon"
    by (auto simp: daemon_ok_def core_ok_def calm_def OnEvent_def cl_service_ok_def cb split: option.splits)
  define mid where "mid e = (case dm_dataDir e of None \<Rightarrow> e | Some dir \<Rightarrow>
      let e' = e\<lparr>dm_fs := snd (ReconcileOrphans (de_meta env) (de_now env) dir (dm_fs e))\<rparr>
      in if dm_coldRestore e' \<and> dm_cmdSvc e' \<noteq> None then restoreCommandHistoriesAtStartup env dir e' else e')"
    for e :: "'a daemon"
  have mid: "daemon_ok e \<Longrightarrow> daemon_ok (mid e)" for e :: "'a daemon"
    by (simp add: mid_def Let_def restore split: option.split)
  obtain r f1 where p: "(case dm_pidFilePath d of None \<Rightarrow> (Inr (), dm_fs d) | Some p \<Rightarrow> WritePIDFile (de_pidj env) p
      \<lparr>in_PID = de_getpid env, in_Version = dm_version d, in_StartedAt = de_now env (Suc 0)\<rparr> (dm_fs d)) = (r, f1)" by fastforce
  let ?e = "mid (d\<lparr>dm_startedAt := de_now env 0, dm_fs := f1\<rparr>)"
  have "daemon_ok ?e" by (rule mid) (simp add: assms(1))
  moreover have "d' = ?e\<lparr>dm_hasCancel := True, dm_svc := (dm_svc ?e)\<lparr>ss_hasOnExit := True, ss_hasOnDataReady := True\<rparr>,
      dm_cmdSvc := map_option (OnEvent True) (dm_cmdSvc ?e), dm_server := OnClient (dm_server ?e)\<rparr>"
    using assms(2) p by (cases r; cases "dm_dataDir d"; cases "dm_pidFilePath d") (auto simp: Start_begin_def mid_def Let_def split: if_splits)
  ultimately show ?thesis by (simp only: finish)
qed

lemma daemon_ok_start:
  assumes "Start_begin env (serve_daemon cfg token t f) = (Inr (), d)"
  shows "daemon_ok d"
proof -
  have "cl_service_ok (NewService [])" using NewService_ok [of "[]"] by simp
  then have "daemon_ok (serve_daemon cfg token t f)"
    by (simp add: daemon_ok_def core_ok_def calm_def books_ok_def waits_ok_def new_service_ok bus_inv_def NewBus_def)
  then show ?thesis using assms by (rule daemon_ok_Start)
qed

lemma daemon_reach_ok: "daemon_reach cfg d \<Longrightarrow> daemon_ok d"
  by (induction rule: daemon_reach.induct) (auto intro: daemon_ok_start daemon_ok_step)

section \<open>Properties\<close>

definition test_config :: "unit config" where
  "test_config = (newConfig [])\<lparr>cg_socket := ''/d.sock'', cg_dataDir := ''/data''\<rparr>"

lemma test_started:
  assumes "cg_socket cfg = ''/d.sock''"
  shows "fst (Start_begin sample_denv (serve_daemon cfg token t empty_fs)) = Inr ()"
proof -
  have p: "path_of (JoinS [Dir ''/d.sock'', ''wmux.pid'']) = [''wmux.pid'']" by code_simp
  have "fst (WritePIDFile J [''wmux.pid''] info empty_fs) = Inr ()" for J info
    by (simp add: WritePIDFile_def WriteFile_def empty_fs_def OpenTrunc_def can_create_def fs_get_def is_dir_def file_write_def fs_put_def gm_get_Cons
        split: prod.split)
  then show ?thesis
    by (auto simp: Start_begin_def Let_def assms p split: prod.split sum.split) (metis Inr_not_Inl fst_conv)
qed

text \<open>(C4) The state of a served daemon is well formed at every moment: whatever its clients send and however the
goroutines of the control loops, the broadcaster, the sessions, the waiters and the event
forwarders interleave, nothing has panicked, session ids are unique and belong to live session
objects, the set of clients of a session is never empty and holds no client twice, a client on
record for a session is in that session's set, a waiter is registered once and only on its own
session, in one of the three modes, and every event forwarder has its subscription.\<close>

theorem daemon_state_well_formed:
  assumes "daemon_reach cfg d"
  shows "\<not> dm_panicked d \<and> svc_ok (dm_svc d) \<and> books_ok (dm_attachments d) (dm_clientSession d) \<and>
    waits_ok (dm_waiters d) (dm_waiterObjs d) (dm_nextWaiter d) \<and> bus_serves (dm_eventBus d) (dm_forwards d)"
  using daemon_reach_ok [OF assms] by (simp add: daemon_ok_def core_ok_def calm_def)

theorem daemon_state_well_formed_witness:
  "\<exists>d :: unit daemon. daemon_reach test_config d \<and> \<not> dm_panicked d \<and> svc_ok (dm_svc d)"
proof -
  obtain d where "Start_begin sample_denv (serve_daemon test_config [] None empty_fs) = (Inr (), d)"
    using test_started [of test_config "[]" None] by (auto simp: test_config_def) (metis prod.collapse)
  then have "daemon_reach test_config d" by (rule dre_start)
  with daemon_state_well_formed [OF this] show ?thesis by blast
qed

end
