(* ===== verification/DaemonBehaviour.thy ===== *)
theory DaemonBehaviour
  imports DaemonSafety
begin

text \<open>
  What requests do to the daemon as a whole: killing by prefix and shutting down, a client that
  attaches twice, and the repository that is meant to keep the command histories.
\<close>

section \<open>Killing many sessions\<close>

lemma kill_loop_find:
  assumes "svc_ok s"
  shows "find_session (snd (snd (kill_loop sids s))) sid = (if sid \<in> set sids then None else find_session s sid)"
  using assms
proof (induction sids arbitrary: s)
  case (Cons x sids)
  have k: "svc_ok (snd (sm_Kill x s))" using Cons.prems by (rule sm_ok)
  have "find_session (snd (sm_Kill x s)) sid = (if sid = x then None else find_session s sid)"
    using Kill_find [OF Cons.prems, of x sid] by (simp add: sm_Kill_def)
  with Cons.IH [OF k] show ?case by (auto simp: case_prod_beta split: sum.split)
qed simp

lemma kill_loop_answers:
  assumes "svc_ok s" and "distinct sids" and "\<And>sid. sid \<in> set sids \<Longrightarrow> find_session s sid \<noteq> None"
  shows "\<exists>s'. kill_loop sids s = (sids, [], s')"
  using assms
proof (induction sids arbitrary: s)
  case (Cons x sids)
  have k: "svc_ok (snd (sm_Kill x s))" using Cons.prems(1) by (rule sm_ok)
  have "find_session (snd (sm_Kill x s)) sid \<noteq> None" if "sid \<in> set sids" for sid
    using Kill_find [OF Cons.prems(1), of x sid] Cons.prems(2,3) that by (auto simp: sm_Kill_def)
  then obtain s' where "kill_loop sids (snd (sm_Kill x s)) = (sids, [], s')"
    using Cons.IH [OF k] Cons.prems(2) by auto
  moreover have "fst (sm_Kill x s) = Inr ()"
    using Cons.prems(3) [of x] by (auto simp: sm_Kill_def svc_Kill_def wrap_err_def split: option.splits)
  ultimately show ?case by (simp add: case_prod_beta)
qed simp

lemma listed_iff:
  assumes "svc_ok s"
  shows "sid \<in> set (map si_ID (sm_List s)) \<longleftrightarrow> find_session s sid \<noteq> None"
proof
  assume "sid \<in> set (map si_ID (sm_List s))"
  then obtain z where "z \<in> set (svc_List s)" "s_ID z = sid" by (auto simp: sm_List_def toInfo_def)
  with svc_List_iff [OF assms, of z] show "find_session s sid \<noteq> None" by auto
next
  assume "find_session s sid \<noteq> None"
  then obtain a ms where f: "find_session s sid = Some (a, ms)" by auto
  then have i: "s_ID (ms_session ms) = sid" using find_session_ID(1) [OF assms f] by simp
  with f svc_List_iff [OF assms, of "ms_session ms"] have "ms_session ms \<in> set (svc_List s)" by auto
  with i show "sid \<in> set (map si_ID (sm_List s))" by (force simp: sm_List_def toInfo_def)
qed

lemma map_filter_ids:
  assumes "\<And>p. p \<in> set xs \<Longrightarrow> \<exists>z. g p = Some z \<and> s_ID z = fst p"
  shows "map s_ID (List.map_filter g xs) = map fst xs"
  using assms
proof (induction xs)
  case (Cons p xs)
  obtain z where "g p = Some z" "s_ID z = fst p" using Cons.prems [of p] by auto
  with Cons show ?case by (simp add: List.map_filter_simps)
qed (simp add: List.map_filter_simps)

lemma listed_distinct:
  assumes "svc_ok s"
  shows "distinct (map si_ID (sm_List s))"
proof -
  have "\<exists>z. (case p of (sid, a) \<Rightarrow> map_option ms_session (obj s a)) = Some z \<and> s_ID z = fst p"
    if p: "p \<in> set (ss_sessions s)" for p
  proof -
    have "gm_get (ss_sessions s) (fst p) = Some (snd p)" using assms p by (simp add: svc_ok_def gm_get_iff_mem)
    then obtain ms where "obj s (snd p) = Some ms" "s_ID (ms_session ms) = fst p" using assms unfolding svc_ok_def by blast
    then show ?thesis by (cases p) simp
  qed
  from map_filter_ids [OF this] have "map s_ID (svc_List s) = map fst (ss_sessions s)" by (simp add: svc_List_def)
  moreover have "map si_ID (sm_List s) = map s_ID (svc_List s)" by (simp add: sm_List_def toInfo_def comp_def)
  ultimately show ?thesis using assms by (simp add: svc_ok_def gm_ok_def)
qed

lemma GracefulShutdown_empty:
  assumes "svc_ok (dm_svc d)"
  shows "ss_sessions (dm_svc (GracefulShutdown d)) = []"
proof -
  have k: "svc_ok (fold (\<lambda>i s. snd (sm_Kill (si_ID i) s)) is s) \<and>
      find_session (fold (\<lambda>i s. snd (sm_Kill (si_ID i) s)) is s) sid =
        (if sid \<in> set (map si_ID is) then None else find_session s sid)" if "svc_ok s" for "is" sid and s :: "'a service"
    using that
  proof (induction "is" arbitrary: s)
    case (Cons i "is")
    have "find_session (snd (sm_Kill (si_ID i) s)) sid = (if sid = si_ID i then None else find_session s sid)"
      using Kill_find [OF Cons.prems] by (simp add: sm_Kill_def)
    with Cons.IH [OF sm_ok(2) [OF Cons.prems]] show ?case by auto
  qed simp
  let ?s = "dm_svc (GracefulShutdown d)"
  have e: "?s = fold (\<lambda>i s. snd (sm_Kill (si_ID i) s)) (sm_List (dm_svc d)) (dm_svc d)"
    by (simp add: GracefulShutdown_def Daemon_Stop_def)
  have gone: "find_session ?s sid = None" for sid
    using k [OF assms, of "sm_List (dm_svc d)" sid] listed_iff [OF assms, of sid] unfolding e by (auto split: if_splits)
  have ok: "svc_ok ?s" using k [OF assms] unfolding e by blast
  have none: "gm_get (ss_sessions ?s) sid = None" for sid
  proof (cases "gm_get (ss_sessions ?s) sid")
    case (Some a)
    with ok obtain ms where "obj ?s a = Some ms" unfolding svc_ok_def by blast
    with Some gone [of sid] show ?thesis by (simp add: find_session_def)
  qed simp
  have "set (map fst (ss_sessions ?s)) = {}"
  proof (rule equals0I)
    fix sid assume "sid \<in> set (map fst (ss_sessions ?s))"
    with none [of sid] show False by (metis gm_keys_iff)
  qed
  then show ?thesis by simp
qed

section \<open>Attaching and leaving\<close>

lemma attach_books:
  assumes "wj_sid (de_wire env) p = Some sid" and "svc_ok (dm_svc d)" and "find_session (dm_svc d) sid \<noteq> None"
  shows "dm_attachments (handleAttach env cid p d) =
      gm_put sid (if cid \<in> set (attached_to d sid) then attached_to d sid else attached_to d sid @ [cid]) (dm_attachments d)"
    and "dm_clientSession (handleAttach env cid p d) = gm_put cid sid (dm_clientSession d)"
    and "find_session (dm_svc (handleAttach env cid p d)) sid' = None \<longleftrightarrow> find_session (dm_svc d) sid' = None"
proof -
  obtain am where f: "find_session (dm_svc d) sid = Some am" using assms(3) by auto
  obtain s' where t: "sm_Attach sid (dm_svc d) = (Inr (), s')"
    by (simp add: sm_Attach_def svc_Attach_def f wrap_err_def)
  obtain info where g: "sm_Get (dm_svc d) sid = Inr info"
    by (cases am) (simp add: sm_Get_def svc_Get_def f wrap_err_def)
  have "find_session s' sid' = None \<longleftrightarrow> find_session (dm_svc d) sid' = None"
    using t find_set_session [OF assms(2) f] f
    by (auto simp: sm_Attach_def svc_Attach_def wrap_err_def split: if_splits)
  then show "find_session (dm_svc (handleAttach env cid p d)) sid' = None \<longleftrightarrow> find_session (dm_svc d) sid' = None"
    by (simp add: handleAttach_def assms(1) g t Let_def ok_reply_def add_attachment_def trace_def)
  have at: "attached_to (d\<lparr>dm_svc := s'\<rparr>) = attached_to d" by (simp add: attached_to_def fun_eq_iff)
  show "dm_attachments (handleAttach env cid p d) =
      gm_put sid (if cid \<in> set (attached_to d sid) then attached_to d sid else attached_to d sid @ [cid]) (dm_attachments d)"
    "dm_clientSession (handleAttach env cid p d) = gm_put cid sid (dm_clientSession d)"
    by (simp_all add: handleAttach_def assms(1) g t Let_def ok_reply_def add_attachment_def at)
qed

lemma handle_attach_svc:
  assumes "svc_ok (dm_svc d)"
  shows "svc_ok (dm_svc (handleAttach env cid p d))"
proof -
  have "svc_ok s'" if "sm_Attach sid (dm_svc d) = (r, s')" for sid r s' using sm_ok(5) [OF assms, of sid] that by simp
  with assms show ?thesis
    by (auto simp: handleAttach_def Let_def ok_reply_def err_reply_def add_attachment_def trace_def
        split: option.split sum.split prod.split)
qed

lemma attached_to_put: "dm_attachments d' = gm_put sid cs (dm_attachments d) \<Longrightarrow>
    attached_to d' sid' = (if sid' = sid then cs else attached_to d sid')"
  by (simp add: attached_to_def)

lemma attached_after_drop:
  "drop_attachment sid cid d = (b, d') \<Longrightarrow>
   attached_to d' sid' = (if sid' = sid then removeAll cid (attached_to d sid) else attached_to d sid')"
  by (auto simp: drop_attachment_def attached_to_def Let_def split: option.splits if_splits)

lemma attached_after_leaving:
  "attached_to (detachClient cid d) sid =
     (case gm_get (dm_clientSession d) cid of
        None \<Rightarrow> attached_to d sid
      | Some s \<Rightarrow> if sid = s then removeAll cid (attached_to d sid) else attached_to d sid)"
proof (cases "gm_get (dm_clientSession d) cid")
  case (Some s)
  obtain b d1 where dr: "drop_attachment s cid (d\<lparr>dm_clientSession := gm_del cid (dm_clientSession d)\<rparr>) = (b, d1)" by fastforce
  have "attached_to (session_detached s e) = attached_to e" for e :: "'a daemon"
    by (simp add: session_detached_def attached_to_def fun_eq_iff)
  then have "attached_to (detachClient cid d) sid = attached_to d1 sid" by (simp add: detachClient_def Some dr)
  also have "\<dots> = (if sid = s then removeAll cid (attached_to d s) else attached_to d sid)"
    using attached_after_drop [OF dr, of sid] by (simp add: attached_to_def)
  finally show ?thesis using Some by auto
qed (simp add: detachClient_def)

section \<open>The command histories\<close>

text \<open>
  The repository the command service saves to has no writers, and the writers of the repository the
  daemon opens and closes never get a state.
\<close>

fun idle_repo :: "cmdRepository option \<Rightarrow> bool" where
  "idle_repo None = True"
| "idle_repo (Some r) = (gm_ok (cr_writers r) \<and> list_all (\<lambda>(sid, w). \<not> cw_hasState w) (cr_writers r))"

definition repos_idle :: "'e daemon \<Rightarrow> bool" where
  "repos_idle d \<longleftrightarrow> cr_writers (dm_cmdSvcRepo d) = [] \<and> idle_repo (dm_cmdRepo d)"

lemma repos_idle_cong:
  "dm_cmdSvcRepo d' = dm_cmdSvcRepo d \<Longrightarrow> dm_cmdRepo d' = dm_cmdRepo d \<Longrightarrow> repos_idle d' = repos_idle d"
  by (simp add: repos_idle_def)

lemma idle_get: "idle_repo (Some r) \<Longrightarrow> gm_get (cr_writers r) sid = Some w \<Longrightarrow> \<not> cw_hasState w"
  by (fastforce simp: gm_get_iff_mem list_all_iff)

lemma idle_put:
  assumes "idle_repo (Some r)" and "\<not> cw_hasState w"
  shows "idle_repo (Some (r\<lparr>cr_writers := gm_put sid w (cr_writers r)\<rparr>))"
proof -
  have ok: "gm_ok (gm_put sid w (cr_writers r))" using assms(1) by simp
  then have "\<not> cw_hasState v" if "(k, v) \<in> set (gm_put sid w (cr_writers r))" for k v
    using that assms idle_get [OF assms(1), of k v] by (auto simp: gm_get_iff_mem [symmetric] split: if_splits)
  with ok show ?thesis by (auto simp: list_all_iff)
qed

lemma idle_del:
  assumes "idle_repo (Some r)"
  shows "idle_repo (Some (r\<lparr>cr_writers := gm_del sid (cr_writers r)\<rparr>))"
proof -
  have ok: "gm_ok (gm_del sid (cr_writers r))" using assms by simp
  then have "\<not> cw_hasState v" if "(k, v) \<in> set (gm_del sid (cr_writers r))" for k v
    using that assms idle_get [OF assms, of k v] by (auto simp: gm_get_iff_mem [symmetric] split: if_splits)
  with ok show ?thesis by (auto simp: list_all_iff)
qed

lemma idle_Open: "idle_repo (Some r) \<Longrightarrow> idle_repo (Some (snd (repo_Open sid p r)))"
  by (auto simp: repo_Open_def cmd_NewWriter_def Let_def simp del: idle_repo.simps intro!: idle_put split: option.split sum.split)

lemma idle_Close: "idle_repo (Some r) \<Longrightarrow> idle_repo (Some (fst (repo_Close J now sid r f)))"
  by (auto simp: repo_Close_def simp del: idle_repo.simps intro!: idle_del split: option.split)

lemma cmd_Close_idle: "\<not> cw_hasState w \<Longrightarrow> snd (cmd_Close J now w f) = f"
  by (auto simp: cmd_Close_def run_step_def close_request_def flushOnce_def split: prod.split option.split if_splits)

lemma Save_dropped: "cr_writers r = [] \<Longrightarrow> repo_Save sid st r = r"
  by (simp add: repo_Save_def)

lemma Saves_dropped: "cr_writers r = [] \<Longrightarrow> fold (repo_Save sid) sts r = r"
  by (induction sts) (simp_all add: Save_dropped)

lemma idle_marker: "repos_idle d \<Longrightarrow> repos_idle (cmd_marker env sid v row d)"
  by (auto simp: repos_idle_def cmd_marker_def Saves_dropped split: option.split sum.split prod.split)

lemma idle_osc_step: "repos_idle d \<Longrightarrow> repos_idle (snd (osc_step env sid data r (cur, d)))"
proof -
  assume d: "repos_idle d"
  have c: "repos_idle (counter_add sid n d)" for n using d by (simp add: repos_idle_cong [of "counter_add sid n d" d])
  have p: "repos_idle (publishEvent e x) = repos_idle x" for e and x :: "'a daemon" by (rule repos_idle_cong) simp_all
  have v: "repos_idle (d\<lparr>dm_svc := s\<rparr>)" "repos_idle (d\<lparr>dm_panicked := True\<rparr>)" for s using d by (simp_all add: repos_idle_def)
  show ?thesis
    by (cases "osc_Type r") (auto simp: osc_step_def Let_def p v d c idle_marker split: option.split)
qed

lemma idle_osc_fold: "repos_idle d \<Longrightarrow> repos_idle (snd (fold (osc_step env sid data) rs (cur, d)))"
proof (induction rs arbitrary: cur d)
  case (Cons r rs)
  obtain c' d' where "osc_step env sid data r (cur, d) = (c', d')" by fastforce
  with idle_osc_step [OF Cons.prems, of env sid data r cur] Cons.IH [of d' c'] show ?case by simp
qed simp

lemma idle_process:
  assumes "repos_idle d"
  shows "repos_idle (process_output env sid data d)"
proof -
  obtain c1 d1 where f: "fold (osc_step env sid data) (ParseOSC (de_url env) data) (0, d) = (c1, d1)" by fastforce
  then have "repos_idle d1" using idle_osc_fold [OF assms, of env sid data _ 0] by (metis snd_conv)
  then have "repos_idle (scanOSC env sid data d)"
    using assms by (auto simp: scanOSC_def Let_def f repos_idle_cong [of "counter_add _ _ _" d1])
  then show ?thesis by (simp add: repos_idle_def process_output_def scanDA_def Let_def)
qed

lemma idle_flush:
  assumes "repos_idle d"
  shows "repos_idle (flush_attached env sid cids d)" and "repos_idle (flush_waited env sid d)"
proof -
  obtain r d' where dr: "drain sid d = (r, d')" by fastforce
  have d': "repos_idle d'" using dr assms by (auto simp: drain_def repos_idle_def split: prod.splits)
  have "repos_idle (fold (send_data sid data pl) cs e) = repos_idle e" for data pl cs and e :: "'a daemon"
    by (induction cs arbitrary: e) (simp_all add: send_data_def trace_def repos_idle_def)
  then have "repos_idle (broadcast_data env sid data cids e) = repos_idle e" for data and e :: "'a daemon"
    by (simp add: broadcast_data_def Let_def repos_idle_def split: prod.split)
  with d' show "repos_idle (flush_attached env sid cids d)" "repos_idle (flush_waited env sid d)"
    by (auto simp: flush_attached_def flush_waited_def dr idle_process split: option.split)
qed

lemma idle_cast:
  assumes "repos_idle d" and "broadcastOutput_step env arm d = Some (go, d')"
  shows "repos_idle d'"
proof -
  have 1: "repos_idle e \<Longrightarrow> repos_idle (fold (\<lambda>(sid, cids). flush_attached env sid cids) xs e)" for xs and e :: "'a daemon"
    by (induction xs arbitrary: e) (auto simp: idle_flush)
  have 2: "repos_idle e \<Longrightarrow> repos_idle (fold (flush_waited env) xs e)" for xs and e :: "'a daemon"
    by (induction xs arbitrary: e) (auto simp: idle_flush)
  have f: "repos_idle e \<Longrightarrow> repos_idle (flushOutput env e)" for e :: "'a daemon"
    unfolding flushOutput_def Let_def by (intro 2 1)
  have "repos_idle e \<Longrightarrow> repos_idle (flushSessionOutput env sid e)" for sid and e :: "'a daemon"
    by (rule flushSession_cases [of env sid e]) (simp_all add: f idle_flush)
  moreover have "repos_idle (d\<lparr>dm_dataReady := rest\<rparr>)" for rest using assms(1) by (simp add: repos_idle_def)
  ultimately show ?thesis using assms f by (auto simp: broadcastOutput_step_def split: cast_arm.splits if_splits list.splits)
qed

lemma idle_session:
  assumes "repos_idle d"
  shows "repos_idle (session_step env g d)"
proof -
  have "repos_idle (onExit env sid code e)" if "repos_idle e" for sid code and e :: "'a daemon"
  proof (cases "dm_cmdRepo e")
    case (Some r)
    show ?thesis using that Some idle_Close [of r "de_cmd env" "de_now env (Suc 0)" sid]
      by (auto simp: repos_idle_def onExit_def Let_def simp del: idle_repo.simps split: prod.split) (metis fst_conv)
  qed (use that in \<open>simp add: repos_idle_def onExit_def Let_def\<close>)
  then have "repos_idle e \<Longrightarrow> repos_idle (run_callback env c e)" for c and e :: "'a daemon"
    by (cases c) (simp_all add: onDataReady_def repos_idle_def)
  then have "repos_idle e \<Longrightarrow> repos_idle (fold (run_callback env) cs e)" for cs and e :: "'a daemon"
    by (induction cs arbitrary: e) simp_all
  moreover have "repos_idle (d\<lparr>dm_svc := s\<rparr>)" for s using assms by (simp add: repos_idle_def)
  ultimately show ?thesis by (simp add: session_step_def Let_def)
qed

lemma idle_reply [simp]:
  "repos_idle (ok_reply env cid r d) = repos_idle d" "repos_idle (err_reply env cid m d) = repos_idle d"
  "repos_idle (reply cid f d) = repos_idle d" "repos_idle (publishEvent e d) = repos_idle d"
  "repos_idle (trace ev d) = repos_idle d" "repos_idle (d\<lparr>dm_svc := s\<rparr>) = repos_idle d"
  "repos_idle (d\<lparr>dm_server := sv\<rparr>) = repos_idle d" "repos_idle (d\<lparr>dm_clientSession := cs\<rparr>) = repos_idle d"
  by (simp_all add: repos_idle_def ok_reply_def err_reply_def)

lemma idle_unit [simp]: "repos_idle (unit_reply env cid rs d) = repos_idle d"
  by (simp add: unit_reply_def split: prod.split sum.split)

lemma idle_create: "repos_idle d \<Longrightarrow> repos_idle (handleCreate env cid p d)"
proof -
  assume d: "repos_idle d"
  have o: "repos_idle e \<Longrightarrow> repos_idle (open_cmd_writer sid e)" for sid and e :: "'a daemon"
    by (auto simp: open_cmd_writer_def repos_idle_def idle_Open simp del: idle_repo.simps split: option.split)
  have "repos_idle ((persistSessionCreate env sid req (d\<lparr>dm_svc := s'\<rparr>))\<lparr>dm_cmdSvc := x, dm_lineCounters := y\<rparr>)" for sid req s' x y
    using d by (simp add: repos_idle_def)
  with d o show ?thesis by (auto simp: handleCreate_def Let_def split: option.split prod.split sum.split)
qed

lemma idle_drop: "drop_attachment sid cid d = (b, d') \<Longrightarrow> repos_idle d' = repos_idle d"
  by (rule repos_idle_cong) (auto simp: drop_attachment_def Let_def split: option.splits if_splits)

lemma idle_leave: "repos_idle d \<Longrightarrow> repos_idle (detachClient cid d)"
  by (auto simp: detachClient_def session_detached_def idle_drop split: option.split prod.split)

lemma idle_attach_detach:
  "repos_idle (handleAttach env cid p d) = repos_idle d" "repos_idle d \<Longrightarrow> repos_idle (handleDetach env cid p d)"
proof -
  have "repos_idle (add_attachment sid cid e) = repos_idle e" for sid and e :: "'a daemon"
    by (simp add: add_attachment_def Let_def repos_idle_def)
  then show "repos_idle (handleAttach env cid p d) = repos_idle d"
    by (simp add: handleAttach_def Let_def split: option.split sum.split prod.split)
  show "repos_idle d \<Longrightarrow> repos_idle (handleDetach env cid p d)"
    by (auto simp: handleDetach_def Let_def session_detached_def idle_drop split: option.split prod.split)
qed

lemma idle_others:
  "repos_idle (handleList env cid p d) = repos_idle d" "repos_idle (handleInfo env cid p d) = repos_idle d"
  "repos_idle (handleKill env cid p d) = repos_idle d" "repos_idle (handleResize env cid p d) = repos_idle d"
  "repos_idle (handleInput env cid p d) = repos_idle d" "repos_idle (handleShutdown env cid d) = repos_idle d"
  "repos_idle (handleSubscribe env cid p d) = repos_idle d" "repos_idle (handleStatus env cid d) = repos_idle d"
  "repos_idle (handleMetaSet env cid p d) = repos_idle d" "repos_idle (handleMetaGet env cid p d) = repos_idle d"
  "repos_idle (handleEnvForward env cid p d) = repos_idle d" "repos_idle (handleExec env cid p d) = repos_idle d"
  "repos_idle (handleExecSync env cid p d) = repos_idle d" "repos_idle (handleWait env cid p d) = repos_idle d"
  "repos_idle (handleRecord env cid p d) = repos_idle d" "repos_idle (handleKillPrefix env cid p d) = repos_idle d"
  "repos_idle (handleUpdateEmulatorScrollback env cid p d) = repos_idle d"
proof -
  have u: "repos_idle (d\<lparr>dm_eventBus := x1, dm_forwards := x2\<rparr>) = repos_idle d" "repos_idle (d\<lparr>dm_fs := x3\<rparr>) = repos_idle d"
    "repos_idle (d\<lparr>dm_fs := x3, dm_links := x4\<rparr>) = repos_idle d" "repos_idle (d\<lparr>dm_recordings := x5\<rparr>) = repos_idle d"
    "repos_idle (d\<lparr>dm_fs := x3, dm_recordings := x5\<rparr>) = repos_idle d"
    "repos_idle ((ok_reply env cid r d)\<lparr>dm_stopTimers := x6\<rparr>) = repos_idle d" "repos_idle (snd (addWaiter sid w d)) = repos_idle d"
    for x1 x2 x3 x4 x5 x6 r sid w
    by (simp_all add: repos_idle_def ok_reply_def addWaiter_def Let_def)
  note defs = handleList_def handleInfo_def handleKill_def handleResize_def handleInput_def handleShutdown_def
    handleSubscribe_def handleStatus_def handleMetaSet_def handleMetaGet_def handleEnvForward_def handleExec_def
    handleExecSync_def handleWait_def handleRecord_def recordStart_def recordStop_def handleKillPrefix_def
    handleUpdateEmulatorScrollback_def Let_def
  show "repos_idle (handleList env cid p d) = repos_idle d" "repos_idle (handleInfo env cid p d) = repos_idle d"
    "repos_idle (handleKill env cid p d) = repos_idle d" "repos_idle (handleResize env cid p d) = repos_idle d"
    "repos_idle (handleInput env cid p d) = repos_idle d" "repos_idle (handleShutdown env cid d) = repos_idle d"
    "repos_idle (handleSubscribe env cid p d) = repos_idle d" "repos_idle (handleStatus env cid d) = repos_idle d"
    "repos_idle (handleMetaSet env cid p d) = repos_idle d" "repos_idle (handleMetaGet env cid p d) = repos_idle d"
    "repos_idle (handleEnvForward env cid p d) = repos_idle d" "repos_idle (handleExec env cid p d) = repos_idle d"
    "repos_idle (handleExecSync env cid p d) = repos_idle d" "repos_idle (handleWait env cid p d) = repos_idle d"
    "repos_idle (handleRecord env cid p d) = repos_idle d" "repos_idle (handleKillPrefix env cid p d) = repos_idle d"
    "repos_idle (handleUpdateEmulatorScrollback env cid p d) = repos_idle d"
    by (simp_all add: defs u split: option.split sum.split prod.split)
qed

lemma idle_dispatch:
  assumes "repos_idle d"
  shows "repos_idle (dispatch env cid frame d)"
proof -
  have "repos_idle (fold (\<lambda>chunk. reply cid (history_frame chunk)) cs e) = repos_idle e" for cs and e :: "'a daemon"
    by (induction cs arbitrary: e) simp_all
  then have "repos_idle (handleHistory env cid p d) = repos_idle d" for p
    by (simp add: handleHistory_def split: option.split sum.split)
  with assms show ?thesis
    by (simp add: dispatch_def Let_def idle_others idle_attach_detach idle_create)
qed

lemma idle_step: "daemon_step d d' \<Longrightarrow> repos_idle d \<Longrightarrow> repos_idle d'"
proof (induction rule: daemon_step.induct)
  case (dst_control d env cid)
  then show ?case by (simp add: readControl_step_def Let_def idle_dispatch idle_leave split: option.split prod.split sum.split)
next
  case (dst_wait env arm n d d')
  have "repos_idle (removeWaiter sid k e) = repos_idle e" for sid k and e :: "'a daemon"
    by (simp add: removeWaiter_def repos_idle_def)
  with dst_wait show ?case by (auto simp: wait_fire_def split: option.splits if_splits)
next
  case (dst_forward fw d env)
  have "repos_idle (end_forward x b e) = repos_idle e" for x b and e :: "'a daemon"
    by (simp add: end_forward_def repos_idle_def split: option.split)
  moreover have "repos_idle (d\<lparr>dm_eventBus := b\<rparr>)" for b using dst_forward by (simp add: repos_idle_def)
  ultimately show ?case using dst_forward by (auto simp: forward_step_def Let_def split: option.split prod.split)
next
  case (dst_cast env arm d go d')
  then show ?case by (blast intro: idle_cast)
next
  case (dst_session d s' env)
  then show ?case by (blast intro: idle_session)
qed (auto simp: stop_timer_def Daemon_Stop_def GracefulShutdown_def repos_idle_def split: if_splits)

lemma idle_start:
  assumes "Start_begin env (serve_daemon cfg token t f) = (Inr (), d)"
  shows "repos_idle d"
proof -
  have "repos_idle e \<Longrightarrow> repos_idle (restore_entry env dir x e)" for dir x and e :: "'a daemon"
    by (auto simp: restore_entry_def Let_def repos_idle_def idle_Open simp del: idle_repo.simps split: option.split)
  then have "repos_idle e \<Longrightarrow> repos_idle (fold (restore_entry env dir) xs e)" for dir xs and e :: "'a daemon"
    by (induction xs arbitrary: e) simp_all
  then have restore: "repos_idle e \<Longrightarrow> repos_idle (restoreCommandHistoriesAtStartup env dir e)" for dir and e :: "'a daemon"
    by (simp add: restoreCommandHistoriesAtStartup_def split: sum.split)
  have 0: "repos_idle ((serve_daemon cfg token t f :: 'a daemon)\<lparr>dm_startedAt := x, dm_fs := y\<rparr>)" for x y
    by (simp add: repos_idle_def newCmdRepository_def)
  have fin: "repos_idle (e\<lparr>dm_hasCancel := True, dm_svc := s, dm_cmdSvc := c\<rparr>) = repos_idle e"
    for s c and e :: "'a daemon" by (simp add: repos_idle_def)
  show ?thesis using assms 0 restore [OF 0]
    by (auto simp: Start_begin_def Let_def fin split: prod.splits sum.splits if_splits)
qed

lemma repos_idle_reach: "daemon_reach cfg d \<Longrightarrow> repos_idle d"
  by (induction rule: daemon_reach.induct) (auto intro: idle_start idle_step)

section \<open>Properties\<close>

text \<open>(C21) Killing by prefix kills exactly the sessions under the prefix: every session whose id starts with the
prefix and a slash is unregistered, every other one is as before, and the reply lists exactly the
killed ids with no error; when no session is under the prefix, nothing changes but for an error reply.\<close>

theorem kill_prefix_exact:
  assumes "svc_ok (dm_svc d)" and "wj_killprefix (de_wire env) payload = Some pfx" and "pfx \<noteq> []"
  shows "find_session (dm_svc (handleKillPrefix env cid payload d)) sid =
      (if under_prefix pfx sid then None else find_session (dm_svc d) sid) \<and>
    dm_server (handleKillPrefix env cid payload d) =
      (let targets = sessionsByPrefix pfx (dm_svc d) in
       control_write cid (if targets = [] then errorFrame env ''no sessions match prefix''
                          else okFrame env (Some (RKillPrefix targets []))) (dm_server d)) \<and>
    (sid \<in> set (sessionsByPrefix pfx (dm_svc d)) \<longleftrightarrow> under_prefix pfx sid \<and> find_session (dm_svc d) sid \<noteq> None)"
proof -
  let ?ts = "sessionsByPrefix pfx (dm_svc d)"
  have mem: "x \<in> set ?ts \<longleftrightarrow> under_prefix pfx x \<and> find_session (dm_svc d) x \<noteq> None" for x
    using listed_iff [OF assms(1), of x] by (auto simp: sessionsByPrefix_def)
  have "distinct ?ts" using listed_distinct [OF assms(1)] by (simp add: sessionsByPrefix_def)
  then obtain s' where k: "kill_loop ?ts (dm_svc d) = (?ts, [], s')"
    using kill_loop_answers [OF assms(1), of ?ts] mem by blast
  then have "find_session s' sid = (if sid \<in> set ?ts then None else find_session (dm_svc d) sid)"
    using kill_loop_find [OF assms(1), of ?ts sid] by simp
  with mem [of sid] have f: "find_session s' sid = (if under_prefix pfx sid then None else find_session (dm_svc d) sid)" by auto
  have "find_session (dm_svc d) sid = None" if "?ts = []" "under_prefix pfx sid"
    using mem [of sid] that by (cases "find_session (dm_svc d) sid") auto
  with f k mem [of sid] assms(2,3) show ?thesis
    by (simp add: handleKillPrefix_def Let_def ok_reply_def err_reply_def reply_def)
qed

theorem kill_prefix_exact_witness:
  "find_session (dm_svc (handleKillPrefix sample_denv ''c'' ''b'' sample_daemon)) ''a'' = find_session sample_svc ''a''"
  using kill_prefix_exact [of sample_daemon sample_denv "''b''" "''b''" "''c''" "''a''"] sample_svc_ok
  by (simp add: sample_denv_def sample_wire_def under_prefix_def)

definition two_sessions :: "unit daemon" where
  "two_sessions = sample_daemon\<lparr>dm_svc := sample_create ''b'' sample_svc\<rparr>"

text \<open>(C36) A client that attaches to a second session is never removed from the first one when it goes away:
the daemon keeps one session per client, the second attach overwrites it, and the cleanup at the
end of the connection detaches the client from the second session only. The first session keeps
the departed client in its set of clients, so it stays attached and its output is drained and sent
to nobody.\<close>

theorem attach_twice_leaks:
  assumes "svc_ok (dm_svc d)" and "find_session (dm_svc d) a \<noteq> None" and "find_session (dm_svc d) b \<noteq> None" and "a \<noteq> b"
    and "wj_sid (de_wire env1) p1 = Some a" and "wj_sid (de_wire env2) p2 = Some b"
  shows "let d' = detachClient cid (handleAttach env2 cid p2 (handleAttach env1 cid p1 d)) in
     cid \<in> set (attached_to d' a) \<and> cid \<notin> set (attached_to d' b) \<and> gm_get (dm_clientSession d') cid = None"
proof -
  let ?d1 = "handleAttach env1 cid p1 d" and ?d2 = "handleAttach env2 cid p2 (handleAttach env1 cid p1 d)"
  note 1 = attach_books [OF assms(5,1,2)]
  have ok1: "svc_ok (dm_svc ?d1)" and b1: "find_session (dm_svc ?d1) b \<noteq> None"
    using 1(3) [of cid b] assms(1,3) by (auto simp: handle_attach_svc)
  note 2 = attach_books [OF assms(6) ok1 b1]
  have "cid \<in> set (attached_to ?d2 a)"
    using attached_to_put [OF 2(1), of cid a] attached_to_put [OF 1(1), of cid a] assms(4) by auto
  moreover have "gm_get (dm_clientSession ?d2) cid = Some b" using 2(2) by simp
  moreover have "gm_get (dm_clientSession (detachClient cid ?d2)) cid = None"
    by (auto simp: detachClient_def session_detached_def split: option.split prod.split dest: drop_attachment_frame(1))
  ultimately show ?thesis using attached_after_leaving [of cid ?d2 a] attached_after_leaving [of cid ?d2 b] assms(4)
    by (auto simp: Let_def)
qed

theorem attach_twice_leaks_witness:
  "let d' = detachClient ''c'' (handleAttach sample_denv ''c'' ''b'' (handleAttach sample_denv ''c'' ''a'' two_sessions)) in
     ''c'' \<in> set (attached_to d' ''a'') \<and> gm_get (dm_clientSession d') ''c'' = None"
proof -
  have "svc_ok (dm_svc two_sessions)" unfolding two_sessions_def by (simp add: sample_create_def svc_step_ok [OF st_create] sample_svc_ok)
  moreover have "find_session (dm_svc two_sessions) ''a'' \<noteq> None" "find_session (dm_svc two_sessions) ''b'' \<noteq> None" by code_simp+
  ultimately show ?thesis
    using attach_twice_leaks [of two_sessions "''a''" "''b''" sample_denv "''a''" sample_denv "''b''" "''c''"]
    by (simp add: Let_def sample_denv_def sample_wire_def)
qed

text \<open>(C37) A served daemon never writes a command history to disk, with cold restore enabled or not: the
repository the command service saves to is not the one the daemon opens writers in, so in every
reachable state a save is dropped, and closing the writers of a session, or all of them, leaves
the file system as it was.\<close>

theorem command_history_never_saved:
  assumes "daemon_reach cfg d"
  shows "repo_Save sid st (dm_cmdSvcRepo d) = dm_cmdSvcRepo d \<and>
    (case dm_cmdRepo d of
       None \<Rightarrow> True
     | Some r \<Rightarrow> snd (repo_Close J now sid r f) = f \<and> snd (repo_CloseAll J now r f) = f)"
proof -
  have d: "repos_idle d" using assms by (rule repos_idle_reach)
  have "snd (repo_Close J now sid r f) = f \<and> snd (repo_CloseAll J now r f) = f" if r: "dm_cmdRepo d = Some r" for r
  proof
    have i: "idle_repo (Some r)" using d r by (simp add: repos_idle_def)
    show "snd (repo_Close J now sid r f) = f"
      using idle_get [OF i, of sid] by (auto simp: repo_Close_def cmd_Close_idle split: option.split)
    have "list_all (\<lambda>(sid, w). \<not> cw_hasState w) ws \<Longrightarrow> fold (\<lambda>(sid, w) f. snd (cmd_Close J now w f)) ws f = f"
      for ws :: "(bytes \<times> CWriter) list"
      by (induction ws) (auto simp: cmd_Close_idle)
    then show "snd (repo_CloseAll J now r f) = f" using i by (simp add: repo_CloseAll_def)
  qed
  with d show ?thesis by (auto simp: repos_idle_def Save_dropped split: option.split)
qed

theorem command_history_never_saved_witness:
  "\<exists>d :: unit daemon. daemon_reach (test_config\<lparr>cg_coldRestore := True\<rparr>) d \<and>
     repo_Save ''a'' \<lparr>History = [], InFlight = None\<rparr> (dm_cmdSvcRepo d) = dm_cmdSvcRepo d"
proof -
  obtain d where "Start_begin sample_denv (serve_daemon (test_config\<lparr>cg_coldRestore := True\<rparr>) [] None empty_fs) = (Inr (), d)"
    using test_started [of "test_config\<lparr>cg_coldRestore := True\<rparr>" "[]" None] by (auto simp: test_config_def) (metis prod.collapse)
  then have "daemon_reach (test_config\<lparr>cg_coldRestore := True\<rparr>) d" by (rule dre_start)
  with command_history_never_saved [OF this] show ?thesis by blast
qed

end
