(* ===== verification/Cli.thy ===== *)
theory Cli
  imports ClientApi DaemonServe Config
begin

text \<open>
  The command line tool (\<^verbatim>\<open>cmd/wmux\<close>: main.go, daemon.go). A command is a function of its arguments and
  of what the process finds: the environment, the token file, the JSON codec, and the peer at the
  other end of the socket. The peer is given as a function from the frames written on a connection
  to the frames that come back on it, and it may keep the connection open or close it after them.
  An exit code \<open>None\<close> is a command that waits forever.
\<close>

section \<open>The process and its connections\<close>

record cli_env =
  ce_host :: host
  ce_getenv :: "bytes \<Rightarrow> bytes"
  ce_cwd :: bytes
  ce_fs :: fs
  ce_listening :: "bytes \<Rightarrow> bool"
  ce_peer :: "Frame list \<Rightarrow> Frame list"
  ce_hangup :: "Frame list \<Rightarrow> proto_error option"
  ce_json :: cwire
  ce_subscribe :: "bytes \<Rightarrow> bytes"
  ce_event :: "bytes \<Rightarrow> bytes option"
  ce_status :: "bytes \<Rightarrow> StatusResponse option"
  ce_build :: "bytes \<times> bytes"

record globals =
  gl_socketPath :: bytes
  gl_tokenPath :: bytes

datatype cli_error =
    CliUsage | CliText bytes | CliDialToken auth_error | CliDial | CliWrite proto_error | CliRead proto_error
  | CliRejected bytes | CliDaemon bytes | CliUnmarshal

record outcome =
  oc_code :: "int option"
  oc_out :: bytes
  oc_err :: "cli_error list"
  oc_sent :: "Frame list"

text \<open>A connection: what was written, and how many frames were read.\<close>

record cli_conn =
  cc_sent :: "Frame list"
  cc_read :: nat

datatype cli_read = ReadGot Frame | ReadFailed proto_error | ReadBlocks

definition cli_ReadFrame :: "cli_env \<Rightarrow> cli_conn \<Rightarrow> cli_read \<times> cli_conn" where
  "cli_ReadFrame env c =
     (let fs = ce_peer env (cc_sent c) in
      if cc_read c < length fs then (ReadGot (fs ! cc_read c), c\<lparr>cc_read := Suc (cc_read c)\<rparr>)
      else case ce_hangup env (cc_sent c) of Some e \<Rightarrow> (ReadFailed e, c) | None \<Rightarrow> (ReadBlocks, c))"

definition cli_WriteFrame :: "Frame \<Rightarrow> cli_conn \<Rightarrow> proto_error option \<times> cli_conn" where
  "cli_WriteFrame f c =
     (if length (Payload f) > MaxPayloadSize then (Some ErrPayloadTooLarge, c) else (None, c\<lparr>cc_sent := cc_sent c @ [f]\<rparr>))"

definition fail :: "cli_error \<Rightarrow> outcome" where
  "fail e = \<lparr>oc_code = Some 1, oc_out = [], oc_err = [e], oc_sent = []\<rparr>"

definition finish :: "int \<Rightarrow> bytes \<Rightarrow> cli_conn \<Rightarrow> outcome" where
  "finish code out c = \<lparr>oc_code = Some code, oc_out = out, oc_err = [], oc_sent = cc_sent c\<rparr>"

definition fail_on :: "cli_error \<Rightarrow> cli_conn \<Rightarrow> outcome" where
  "fail_on e c = \<lparr>oc_code = Some 1, oc_out = [], oc_err = [e], oc_sent = cc_sent c\<rparr>"

definition blocked :: "bytes \<Rightarrow> cli_conn \<Rightarrow> outcome" where
  "blocked out c = \<lparr>oc_code = None, oc_out = out, oc_err = [], oc_sent = cc_sent c\<rparr>"

section \<open>Global flags and paths\<close>

definition defaultSocketPath :: bytes where "defaultSocketPath = ''~/.wmux/daemon.sock''"
definition defaultTokenPath :: bytes where "defaultTokenPath = ''~/.wmux/daemon.token''"

definition TrimSuffix :: "bytes \<Rightarrow> bytes \<Rightarrow> bytes" where
  "TrimSuffix s suf = (if suffix suf s then take (length s - length suf) s else s)"

text \<open>The loop over the flags: the rest of the arguments, whether a socket was given, and the paths.\<close>

fun global_loop :: "bytes list \<Rightarrow> bool \<Rightarrow> globals \<Rightarrow> bytes list \<times> bool \<times> globals" where
  "global_loop (a # v # rest) custom g =
     (if a = ''--socket'' then global_loop rest True (g\<lparr>gl_socketPath := v\<rparr>)
      else if a = ''--token'' then global_loop rest custom (g\<lparr>gl_tokenPath := v\<rparr>)
      else (a # v # rest, custom, g))"
| "global_loop as custom g = (as, custom, g)"

definition parseGlobalFlags :: "bytes list \<Rightarrow> (bytes \<times> bytes list) \<times> globals" where
  "parseGlobalFlags args =
     (case global_loop args False \<lparr>gl_socketPath = defaultSocketPath, gl_tokenPath = defaultTokenPath\<rparr> of
        (rest, customSocket, g) \<Rightarrow>
          let g' = (if customSocket \<and> gl_tokenPath g = defaultTokenPath
                    then g\<lparr>gl_tokenPath := TrimSuffix (gl_socketPath g) ''.sock'' @ ''.token''\<rparr> else g)
          in (case rest of [] \<Rightarrow> ([], []) | a # as \<Rightarrow> (a, as), g'))"

definition expandHome :: "host \<Rightarrow> bytes \<Rightarrow> bytes" where
  "expandHome h p =
     (if \<not> prefix ''~'' p then p
      else case ho_home h of None \<Rightarrow> p | Some home \<Rightarrow> JoinS [home, drop 1 p])"

section \<open>Talking to the daemon\<close>

text \<open>One authenticated channel; the payload of the OK frame is returned.\<close>

definition dial_with :: "cli_env \<Rightarrow> globals \<Rightarrow> (bytes \<Rightarrow> bytes) \<Rightarrow> (outcome + cli_conn \<times> bytes)" where
  "dial_with env g payload =
     (case LoadFromFile (path_of (expandHome (ce_host env) (gl_tokenPath g))) (ce_fs env) of
        Inl e \<Rightarrow> Inl (fail (CliDialToken e))
      | Inr token \<Rightarrow>
          if \<not> ce_listening env (expandHome (ce_host env) (gl_socketPath g)) then Inl (fail CliDial)
          else case cli_WriteFrame (auth_frame (payload token)) \<lparr>cc_sent = [], cc_read = 0\<rparr> of
                 (Some e, c) \<Rightarrow> Inl (fail (CliWrite e))
               | (None, c) \<Rightarrow>
                   (case cli_ReadFrame env c of
                      (ReadBlocks, c') \<Rightarrow> Inl (blocked [] c')
                    | (ReadFailed e, c') \<Rightarrow> Inl (fail_on (CliRead e) c')
                    | (ReadGot resp, c') \<Rightarrow>
                        if Type resp \<noteq> MsgOK then Inl (fail_on (CliRejected (Payload resp)) c') else Inr (c', Payload resp)))"

definition dialDaemon :: "cli_env \<Rightarrow> globals \<Rightarrow> (outcome + cli_conn \<times> bytes)" where
  "dialDaemon env g = dial_with env g control_payload"

definition cli_dialStream :: "cli_env \<Rightarrow> globals \<Rightarrow> bytes \<Rightarrow> (outcome + cli_conn)" where
  "cli_dialStream env g clientID =
     (case dial_with env g (\<lambda>token. stream_payload token clientID) of Inl o' \<Rightarrow> Inl o' | Inr (c, p) \<Rightarrow> Inr c)"

definition cli_sendRequest :: "cli_env \<Rightarrow> cli_conn \<Rightarrow> byte \<Rightarrow> bytes \<Rightarrow> (outcome + Frame \<times> cli_conn)" where
  "cli_sendRequest env c msgType payload =
     (case cli_WriteFrame (request_frame msgType payload) c of
        (Some e, c1) \<Rightarrow> Inl (fail_on (CliWrite e) c1)
      | (None, c1) \<Rightarrow>
          (case cli_ReadFrame env c1 of
             (ReadBlocks, c2) \<Rightarrow> Inl (blocked [] c2)
           | (ReadFailed e, c2) \<Rightarrow> Inl (fail_on (CliRead e) c2)
           | (ReadGot resp, c2) \<Rightarrow> Inr (resp, c2)))"

definition checkError :: "cli_env \<Rightarrow> Frame \<Rightarrow> cli_error option" where
  "checkError env resp =
     (if Type resp = MsgError
      then Some (case kw_error (ce_json env) (Payload resp) of Some m \<Rightarrow> CliDaemon m | None \<Rightarrow> CliDaemon (Payload resp))
      else None)"

text \<open>The common course of a command: connect, send one request, stop on an error reply.\<close>

definition with_reply :: "cli_env \<Rightarrow> globals \<Rightarrow> byte \<Rightarrow> bytes \<Rightarrow> (Frame \<Rightarrow> cli_conn \<Rightarrow> outcome) \<Rightarrow> outcome" where
  "with_reply env g t payload k =
     (case dialDaemon env g of
        Inl o' \<Rightarrow> o'
      | Inr (c, i) \<Rightarrow>
          (case cli_sendRequest env c t payload of
             Inl o' \<Rightarrow> o'
           | Inr (resp, c') \<Rightarrow> (case checkError env resp of Some e \<Rightarrow> fail_on e c' | None \<Rightarrow> k resp c')))"

section \<open>Sessions\<close>

definition ln :: "bytes \<Rightarrow> bytes" where "ln s = s @ [NL]"

text \<open>\<^verbatim>\<open>%-20s\<close>: the width counts runes.\<close>

definition pad :: "nat \<Rightarrow> bytes \<Rightarrow> bytes" where
  "pad n s = s @ replicate (n - length (runes_of s)) (CHR '' '')"

text \<open>The flags of \<^verbatim>\<open>create\<close>: shell and working directory.\<close>

fun create_flags :: "bytes list \<Rightarrow> bytes \<times> bytes \<Rightarrow> bytes \<times> bytes" where
  "create_flags (a # v # rest) sc =
     (if a = ''--shell'' then create_flags rest (v, snd sc)
      else if a = ''--cwd'' then create_flags rest (fst sc, v)
      else create_flags (v # rest) sc)"
| "create_flags as sc = sc"

definition cmdCreate :: "cli_env \<Rightarrow> globals \<Rightarrow> bytes list \<Rightarrow> outcome" where
  "cmdCreate env g args =
     (case args of
        [] \<Rightarrow> fail CliUsage
      | sid # flags \<Rightarrow>
          let sh0 = (if ce_getenv env ''SHELL'' = [] then ''/bin/sh'' else ce_getenv env ''SHELL'');
              (shell, cwd) = create_flags flags (sh0, ce_cwd env)
          in with_reply env g MsgCreate
               (kw_create (ce_json env)
                  \<lparr>cq_ID = sid, cq_Shell = shell, cq_Args = [], cq_Cols = 80, cq_Rows = 24, cq_Cwd = cwd, cq_Env = []\<rparr>)
               (\<lambda>resp c. case kw_info (ce_json env) (Payload resp) of
                   None \<Rightarrow> finish 0 [] c
                 | Some i \<Rightarrow> finish 0 (ln (''Created session '' @ si_ID i @ '' (pid '' @ Itoa (si_Pid i) @ '')'')) c))"

text \<open>What \<^verbatim>\<open>attach\<close> prints of a frame of the stream.\<close>

definition attach_output :: "Frame \<Rightarrow> bytes" where
  "attach_output f =
     (if Type f = MsgData \<and> length (Payload f) > 1
      then let idLen = of_char (Payload f ! 0) in
           if 1 + idLen \<le> length (Payload f) then drop (1 + idLen) (Payload f) else []
      else [])"

text \<open>
  The two goroutines of \<^verbatim>\<open>attach\<close>: one copies the stream to the terminal until the stream fails, the
  other sends what is typed, in reads of at most 4096 bytes (\<open>typed\<close>), each answered by one frame.
\<close>

definition cmdAttach :: "cli_env \<Rightarrow> globals \<Rightarrow> bytes list \<Rightarrow> bytes list \<Rightarrow> outcome" where
  "cmdAttach env g typed args =
     (case args of
        [] \<Rightarrow> fail CliUsage
      | sid # _ \<Rightarrow>
          (case dialDaemon env g of
             Inl o' \<Rightarrow> o'
           | Inr (ctrl, clientID) \<Rightarrow>
               (case cli_dialStream env g clientID of
                  Inl o' \<Rightarrow> o'
                | Inr stream \<Rightarrow>
                    (case cli_sendRequest env ctrl MsgAttach (kw_sid (ce_json env) sid) of
                       Inl o' \<Rightarrow> o'
                     | Inr (resp, ctrl') \<Rightarrow>
                         (case checkError env resp of
                            Some e \<Rightarrow> fail_on e ctrl'
                          | None \<Rightarrow>
                              \<lparr>oc_code = (if ce_hangup env (cc_sent stream) = None then None else Some 0),
                               oc_out = concat (map attach_output (drop (cc_read stream) (ce_peer env (cc_sent stream)))),
                               oc_err = [],
                               oc_sent = cc_sent ctrl' @
                                 map (\<lambda>d. request_frame MsgInput ([char_of (length sid)] @ sid @ d))
                                   (filter (\<lambda>d. d \<noteq> []) typed)\<rparr>)))))"

definition cmdDetach :: "cli_env \<Rightarrow> globals \<Rightarrow> bytes list \<Rightarrow> outcome" where
  "cmdDetach env g args =
     (case args of
        [] \<Rightarrow> fail CliUsage
      | sid # _ \<Rightarrow>
          with_reply env g MsgDetach (kw_sid (ce_json env) sid) (\<lambda>resp c. finish 0 (ln (''Detached from session '' @ sid)) c))"

definition cmdKillPrefix :: "cli_env \<Rightarrow> globals \<Rightarrow> bytes \<Rightarrow> outcome" where
  "cmdKillPrefix env g pfx =
     with_reply env g MsgKillPrefix (kw_prefix (ce_json env) pfx)
       (\<lambda>resp c. case kw_killed (ce_json env) (Payload resp) of
           None \<Rightarrow> fail_on CliUnmarshal c
         | Some (killed, errs) \<Rightarrow>
             finish (if length errs > 0 then 1 else 0)
               (concat (map (\<lambda>sid. ln (sid @ '': killed'')) killed) @
                concat (map (\<lambda>(sid, m). ln (sid @ '': error: '' @ m)) errs)) c)"

definition cmdKill :: "cli_env \<Rightarrow> globals \<Rightarrow> bytes list \<Rightarrow> outcome" where
  "cmdKill env g args =
     (if length args \<ge> 2 \<and> args ! 0 = ''--prefix'' then cmdKillPrefix env g (args ! 1)
      else case args of
             [] \<Rightarrow> fail CliUsage
           | sid # _ \<Rightarrow>
               with_reply env g MsgKill (kw_sid (ce_json env) sid) (\<lambda>resp c. finish 0 (ln (''Killed session '' @ sid)) c))"

text \<open>The flags of \<^verbatim>\<open>list\<close>; \<open>None\<close> is a prefix flag without a value.\<close>

fun list_flags :: "bytes list \<Rightarrow> bytes \<times> bool \<Rightarrow> (bytes \<times> bool) option" where
  "list_flags [] pq = Some pq"
| "list_flags (a # rest) pq =
     (if a = ''--prefix'' then (case rest of [] \<Rightarrow> None | v # r \<Rightarrow> list_flags r (v, snd pq))
      else if a = ''--quiet'' \<or> a = ''-q'' then list_flags rest (fst pq, True)
      else Some pq)"

definition list_row :: "bytes \<Rightarrow> bytes \<Rightarrow> bytes \<Rightarrow> bytes \<Rightarrow> bytes \<Rightarrow> bytes \<Rightarrow> bytes" where
  "list_row i st pid cols rows sh =
     ln (pad 20 i @ '' '' @ pad 10 st @ '' '' @ pad 8 pid @ '' '' @ pad 6 cols @ '' '' @ pad 6 rows @ '' '' @ sh)"

definition cmdList :: "cli_env \<Rightarrow> globals \<Rightarrow> bytes list \<Rightarrow> outcome" where
  "cmdList env g args =
     (case list_flags args ([], False) of
        None \<Rightarrow> fail (CliText ''--prefix requires a value'')
      | Some (pfx, quiet) \<Rightarrow>
          with_reply env g MsgList (if pfx \<noteq> [] then kw_prefix (ce_json env) pfx else [])
            (\<lambda>resp c. case kw_infos (ce_json env) (Payload resp) of
                None \<Rightarrow> fail_on CliUnmarshal c
              | Some sessions \<Rightarrow>
                  if sessions = [] then finish 0 (if quiet then [] else ln ''No sessions'') c
                  else if quiet then finish 0 (concat (map (\<lambda>s. ln (si_ID s)) sessions)) c
                  else finish 0 (list_row ''ID'' ''STATE'' ''PID'' ''COLS'' ''ROWS'' ''SHELL'' @
                         concat (map (\<lambda>s. list_row (si_ID s) (si_State s) (Itoa (si_Pid s)) (Itoa (si_Cols s))
                                              (Itoa (si_Rows s)) (si_Shell s)) sessions)) c))"

definition cmdInfo :: "cli_env \<Rightarrow> globals \<Rightarrow> bytes list \<Rightarrow> outcome" where
  "cmdInfo env g args =
     (case args of
        [] \<Rightarrow> fail CliUsage
      | sid # _ \<Rightarrow>
          with_reply env g MsgInfo (kw_sid (ce_json env) sid)
            (\<lambda>resp c. case kw_info (ce_json env) (Payload resp) of
                None \<Rightarrow> fail_on CliUnmarshal c
              | Some s \<Rightarrow>
                  finish 0 (ln (''ID:    '' @ si_ID s) @ ln (''State: '' @ si_State s) @ ln (''PID:   '' @ Itoa (si_Pid s)) @
                     ln (''Size:  '' @ Itoa (si_Cols s) @ ''x'' @ Itoa (si_Rows s)) @ ln (''Shell: '' @ si_Shell s)) c))"

definition cmdStatus :: "cli_env \<Rightarrow> globals \<Rightarrow> outcome" where
  "cmdStatus env g =
     with_reply env g MsgStatus []
       (\<lambda>resp c. case ce_status env (Payload resp) of
           None \<Rightarrow> fail_on CliUnmarshal c
         | Some sr \<Rightarrow>
             finish 0 (ln (''Build:    '' @ fst (ce_build env) @ '' ('' @ snd (ce_build env) @ '')'') @
                ln (''Protocol: '' @ st_Version sr) @ ln (''Uptime:   '' @ st_Uptime sr) @
                ln (''Sessions: '' @ Itoa (st_SessionCount sr)) @ ln (''Clients:  '' @ Itoa (st_ClientCount sr))) c)"

definition cmdVersion :: "cli_env \<Rightarrow> outcome" where
  "cmdVersion env =
     \<lparr>oc_code = Some 0, oc_out = ln (''wmux '' @ fst (ce_build env) @ '' (commit: '' @ snd (ce_build env) @ '')''),
      oc_err = [], oc_sent = []\<rparr>"

section \<open>Events, waiting\<close>

text \<open>The frames that are still to be read from a connection, and what ends them.\<close>

definition remaining :: "cli_env \<Rightarrow> cli_conn \<Rightarrow> Frame list" where
  "remaining env c = drop (cc_read c) (ce_peer env (cc_sent c))"

definition events_filter :: "bytes list \<Rightarrow> bytes" where
  "events_filter args = fold (\<lambda>arg sid. if arg \<noteq> ''--all'' \<and> \<not> prefix ''--'' arg then arg else sid) args []"

text \<open>
  The loop of \<^verbatim>\<open>events\<close> over the frames to come: every event that parses is printed as a line. A
  truncated header is reported by the connection as \<^verbatim>\<open>ErrShortRead\<close>, never as \<^verbatim>\<open>io.EOF\<close>.
\<close>

definition cmdEvents :: "cli_env \<Rightarrow> globals \<Rightarrow> bytes list \<Rightarrow> outcome" where
  "cmdEvents env g args =
     with_reply env g MsgEvent (ce_subscribe env (events_filter args))
       (\<lambda>resp c.
          let out = concat (map (\<lambda>f. if Type f = MsgEvent
                                    then (case ce_event env (Payload f) of None \<Rightarrow> [] | Some line \<Rightarrow> ln line) else [])
                              (remaining env c))
          in case ce_hangup env (cc_sent c) of
               None \<Rightarrow> blocked out c
             | Some e \<Rightarrow> \<lparr>oc_code = Some 0, oc_out = out, oc_err = [CliRead e], oc_sent = cc_sent c\<rparr>)"

fun timeout_flag :: "bytes list \<Rightarrow> int \<Rightarrow> cli_error + int" where
  "timeout_flag (a # v # rest) t =
     (if a = ''--timeout''
      then if snd (ParseInt v) \<noteq> None then Inl (CliText (''invalid timeout: '' @ v)) else timeout_flag rest (fst (ParseInt v))
      else timeout_flag (v # rest) t)"
| "timeout_flag as t = Inr t"

text \<open>The positional arguments of \<^verbatim>\<open>wait\<close>: the idle time, the pattern and the remaining arguments.\<close>

definition wait_args :: "bytes \<Rightarrow> bytes list \<Rightarrow> cli_error + int \<times> bytes \<times> bytes list" where
  "wait_args mode rest =
     (if mode = ''exit'' then Inr (0, [], rest)
      else if mode = ''idle''
      then (case rest of
              [] \<Rightarrow> Inl (CliText ''idle mode requires <idle-ms> argument'')
            | v # r \<Rightarrow> if snd (ParseInt v) \<noteq> None then Inl (CliText (''invalid idle-ms: '' @ v)) else Inr (fst (ParseInt v), [], r))
      else if mode = ''match''
      then (case rest of
              [] \<Rightarrow> Inl (CliText ''match mode requires <pattern> argument'')
            | v # r \<Rightarrow> Inr (0, v, r))
      else Inl (CliText (''unknown wait mode: '' @ mode)))"

definition wait_outcome :: "WaitResponse \<Rightarrow> cli_conn \<Rightarrow> outcome" where
  "wait_outcome r c =
     (if wr_TimedOut r
      then \<lparr>oc_code = Some 2, oc_out = [], oc_err = [CliText (''wait: timed out ('' @ wr_Mode r @ '' mode)'')], oc_sent = cc_sent c\<rparr>
      else if wr_Mode r = ''exit''
      then finish 0 (case wr_ExitCode r of
                       None \<Rightarrow> []
                     | Some n \<Rightarrow> ln (''session '' @ wr_SessionID r @ '' exited with code '' @ Itoa n)) c
      else if wr_Mode r = ''idle'' then finish 0 (ln (''session '' @ wr_SessionID r @ '' idle'')) c
      else if wr_Mode r = ''match''
      then if wr_Matched r then finish 0 (ln (''session '' @ wr_SessionID r @ '' matched'')) c
           else case wr_ExitCode r of
                  None \<Rightarrow> finish 0 [] c
                | Some n \<Rightarrow> finish 1 (ln (''session '' @ wr_SessionID r @ '' exited (code '' @ Itoa n @ '') before match'')) c
      else finish 0 [] c)"

definition cmdWait :: "cli_env \<Rightarrow> globals \<Rightarrow> bytes list \<Rightarrow> outcome" where
  "cmdWait env g args =
     (case args of
        sid # mode # rest \<Rightarrow>
          (case wait_args mode rest of
             Inl e \<Rightarrow> fail e
           | Inr (idleFor, pat, flags) \<Rightarrow>
               (case timeout_flag flags 0 of
                  Inl e \<Rightarrow> fail e
                | Inr timeout \<Rightarrow>
                    with_reply env g MsgWait
                      (kw_wait (ce_json env) \<lparr>wq_SessionID = sid, wq_Mode = mode, wq_Timeout = timeout, wq_IdleFor = idleFor,
                                              wq_Pattern = pat\<rparr>)
                      (\<lambda>resp c. case kw_waited (ce_json env) (Payload resp) of
                          None \<Rightarrow> fail_on CliUnmarshal c
                        | Some r \<Rightarrow> wait_outcome r c)))
      | _ \<Rightarrow> fail CliUsage)"

section \<open>Input to sessions\<close>

definition join_space :: "bytes list \<Rightarrow> bytes" where
  "join_space ss = concat (case ss of [] \<Rightarrow> [] | s # r \<Rightarrow> s # map (\<lambda>t. CHR '' '' # t) r)"

definition printExecSyncResults :: "cli_env \<Rightarrow> Frame \<Rightarrow> cli_conn \<Rightarrow> outcome" where
  "printExecSyncResults env resp c =
     (case kw_results (ce_json env) (Payload resp) of
        None \<Rightarrow> fail_on CliUnmarshal c
      | Some rs \<Rightarrow>
          finish (if list_all xr_OK rs then 0 else 1)
            (concat (map (\<lambda>r. ln (xr_SessionID r @ (if xr_OK r then '': ok'' else '': error: '' @ xr_Error r))) rs)) c)"

definition execSingle :: "cli_env \<Rightarrow> globals \<Rightarrow> bytes list \<Rightarrow> bool \<Rightarrow> outcome" where
  "execSingle env g args newline =
     (case args of
        sid # w # ws \<Rightarrow>
          with_reply env g MsgExec
            (kw_exec (ce_json env) \<lparr>xq_SessionID = sid, xq_Input = join_space (w # ws), xq_Newline = newline\<rparr>)
            (\<lambda>resp c. finish 0 [] c)
      | _ \<Rightarrow> fail CliUsage)"

definition sep_index :: "bytes list \<Rightarrow> nat option" where
  "sep_index args = index_byte ''--'' args"

definition execSync :: "cli_env \<Rightarrow> globals \<Rightarrow> bytes list \<Rightarrow> bool \<Rightarrow> outcome" where
  "execSync env g args newline =
     (case sep_index args of
        None \<Rightarrow> fail CliUsage
      | Some i \<Rightarrow>
          if i < 1 \<or> i \<ge> length args - 1 then fail CliUsage
          else with_reply env g MsgExecSync
                 (kw_execsync (ce_json env)
                    \<lparr>xs_SessionIDs = take i args, xs_Prefix = [], xs_Input = join_space (drop (Suc i) args), xs_Newline = newline\<rparr>)
                 (\<lambda>resp c. printExecSyncResults env resp c))"

definition prefix_input :: "bytes list \<Rightarrow> bytes option" where
  "prefix_input args =
     (case sep_index args of
        Some i \<Rightarrow> if i < length args - 1 then Some (join_space (drop (Suc i) args))
                  else if args \<noteq> [] \<and> hd args \<noteq> ''--'' then Some (join_space args) else None
      | None \<Rightarrow> if args \<noteq> [] \<and> hd args \<noteq> ''--'' then Some (join_space args) else None)"

definition execPrefix :: "cli_env \<Rightarrow> globals \<Rightarrow> bytes list \<Rightarrow> bytes \<Rightarrow> bool \<Rightarrow> outcome" where
  "execPrefix env g args pfx newline =
     (case prefix_input args of
        None \<Rightarrow> fail CliUsage
      | Some inp \<Rightarrow>
          with_reply env g MsgExecSync
            (kw_execsync (ce_json env) \<lparr>xs_SessionIDs = [], xs_Prefix = pfx, xs_Input = inp, xs_Newline = newline\<rparr>)
            (\<lambda>resp c. printExecSyncResults env resp c))"

record exec_flags =
  xf_sync :: bool
  xf_prefix :: bytes
  xf_noNewline :: bool

fun exec_loop_flags :: "bytes list \<Rightarrow> exec_flags \<Rightarrow> (exec_flags \<times> bytes list) option" where
  "exec_loop_flags [] fl = Some (fl, [])"
| "exec_loop_flags (a # rest) fl =
     (if a = ''--sync'' then exec_loop_flags rest (fl\<lparr>xf_sync := True\<rparr>)
      else if a = ''--prefix''
      then (case rest of [] \<Rightarrow> None | v # r \<Rightarrow> exec_loop_flags r (fl\<lparr>xf_prefix := v\<rparr>))
      else if a = ''--no-newline'' then exec_loop_flags rest (fl\<lparr>xf_noNewline := True\<rparr>)
      else Some (fl, a # rest))"

definition cmdExec :: "cli_env \<Rightarrow> globals \<Rightarrow> bytes list \<Rightarrow> outcome" where
  "cmdExec env g args =
     (if args = [] then fail CliUsage
      else case exec_loop_flags args \<lparr>xf_sync = False, xf_prefix = [], xf_noNewline = False\<rparr> of
             None \<Rightarrow> fail (CliText ''--prefix requires a value'')
           | Some (fl, rest) \<Rightarrow>
               if xf_prefix fl \<noteq> [] then execPrefix env g rest (xf_prefix fl) (\<not> xf_noNewline fl)
               else if xf_sync fl then execSync env g rest (\<not> xf_noNewline fl)
               else execSingle env g rest (\<not> xf_noNewline fl))"

section \<open>Recording and history\<close>

definition quoted :: "bytes \<Rightarrow> bytes" where
  "quoted s = [CHR 0x27] @ s @ [CHR 0x27]"

definition cmdRecord :: "cli_env \<Rightarrow> globals \<Rightarrow> bytes list \<Rightarrow> outcome" where
  "cmdRecord env g args =
     (case args of
        action # sid # _ \<Rightarrow>
          if action \<noteq> ''start'' \<and> action \<noteq> ''stop'' then fail (CliText (''action must be '' @ quoted ''start'' @ '' or '' @ quoted ''stop''))
          else with_reply env g MsgRecord (kw_record (ce_json env) \<lparr>rq_SessionID = sid, rq_Action = action\<rparr>)
                 (\<lambda>resp c. case kw_recorded (ce_json env) (Payload resp) of
                     None \<Rightarrow> finish 0 [] c
                   | Some r \<Rightarrow>
                       finish 0 (if rr_Recording r
                          then ln (''Recording started: '' @ rr_SessionID r @ '' -> '' @
                                   join_slash (case rr_Path r of None \<Rightarrow> [] | Some p \<Rightarrow> [] # p))
                          else ln (''Recording stopped: '' @ rr_SessionID r)) c)
      | _ \<Rightarrow> fail CliUsage)"

fun history_flags :: "bytes list \<Rightarrow> bytes \<times> int \<Rightarrow> cli_error + bytes \<times> int" where
  "history_flags (a # v # rest) fl =
     (if a = ''--format'' then history_flags rest (v, snd fl)
      else if a = ''--lines''
      then if snd (Atoi v) \<noteq> None then Inl (CliText (''invalid --lines value: '' @ v)) else history_flags rest (fst fl, fst (Atoi v))
      else history_flags (v # rest) fl)"
| "history_flags as fl = Inr fl"

text \<open>The loop over the streamed frames: the output, and whether the end frame was seen.\<close>

fun history_loop :: "Frame list \<Rightarrow> bytes \<times> bool" where
  "history_loop [] = ([], False)"
| "history_loop (f # fs) =
     (if Type f = MsgHistoryEnd then ([], True)
      else case history_loop fs of (out, e) \<Rightarrow> ((if Type f = MsgHistory then Payload f else []) @ out, e))"

definition cmdHistory :: "cli_env \<Rightarrow> globals \<Rightarrow> bytes list \<Rightarrow> outcome" where
  "cmdHistory env g args =
     (case args of
        [] \<Rightarrow> fail CliUsage
      | sid # flags \<Rightarrow>
          (case history_flags flags (''ansi'', 0) of
             Inl e \<Rightarrow> fail e
           | Inr (fmt, lines) \<Rightarrow>
               with_reply env g MsgHistory
                 (kw_history (ce_json env) \<lparr>hq_SessionID = sid, hq_Format = fmt, hq_Lines = lines\<rparr>)
                 (\<lambda>resp c.
                    let first = (if Type resp = MsgHistory then Payload resp else []) in
                    case history_loop (remaining env c) of
                      (out, True) \<Rightarrow> finish 0 (first @ out) c
                    | (out, False) \<Rightarrow>
                        (case ce_hangup env (cc_sent c) of
                           None \<Rightarrow> blocked (first @ out) c
                         | Some e \<Rightarrow> \<lparr>oc_code = Some 0, oc_out = first @ out, oc_err = [CliRead e], oc_sent = cc_sent c\<rparr>))))"

section \<open>The daemon command (daemon.go)\<close>

text \<open>The flags of \<^verbatim>\<open>daemon\<close>: the base directory and the options so far. Unknown flags are passed over one by one.\<close>

fun daemon_flags :: "host \<Rightarrow> bytes list \<Rightarrow> bytes \<times> 'f Option list \<Rightarrow> bytes \<times> 'f Option list" where
  "daemon_flags h (a # v # rest) (base, opts) =
     (if a = ''--socket''
      then let e = expandHome h v
           in daemon_flags h rest (Dir e, opts @ [WithSocket e, WithDataDir (JoinS [Dir e, ''sessions''])])
      else if a = ''--data-dir'' then daemon_flags h rest (base, opts @ [WithDataDir (expandHome h v)])
      else if a = ''--log-level'' then daemon_flags h rest (base, opts)
      else daemon_flags h (v # rest) (base, opts))"
| "daemon_flags h as bo = bo"

text \<open>\<^verbatim>\<open>cmdDaemon\<close> up to \<^verbatim>\<open>client.NewDaemon\<close>: the options, or the failure to read the configuration.\<close>

definition cmdDaemon_options :: "'k conf_lib \<Rightarrow> cli_env \<Rightarrow> globals \<Rightarrow> bytes list \<Rightarrow> cli_error + 'f Option list" where
  "cmdDaemon_options L env g args =
     (let h = ce_host env;
          e = expandHome h (gl_socketPath g);
          (base, opts) = daemon_flags h args (Dir e, [WithSocket e, WithDataDir (JoinS [Dir e, ''sessions''])]);
          configPath = path_of (JoinS [base, ''config.toml'']);
          loaded = (if fs_get (ce_fs env) configPath \<noteq> None then Load L configPath (ce_fs env) else Inr Defaults)
      in case loaded of
           Inl err \<Rightarrow> Inl (CliText ''load config'')
         | Inr cfg \<Rightarrow>
             (case ParseSize (hc_MaxPerSession (cf_History cfg)) of
                Inl err \<Rightarrow> Inl (CliText ''parse max_per_session'')
              | Inr n \<Rightarrow> Inr (opts @ [WithColdRestore (hc_ColdRestore (cf_History cfg)), WithMaxScrollbackSize n])))"

definition cmdDaemon ::
  "'k conf_lib \<Rightarrow> 'e denv \<Rightarrow> bytes \<Rightarrow> bool \<Rightarrow> tracer option \<Rightarrow> cli_env \<Rightarrow> globals \<Rightarrow> bytes list \<Rightarrow> sockets \<Rightarrow>
     (cli_error + 'e daemon) \<times> fs" where
  "cmdDaemon L denv rnd bindable tr env g args k =
     (case cmdDaemon_options L env g args :: cli_error + unit Option list of
        Inl e \<Rightarrow> (Inl e, ce_fs env)
      | Inr opts \<Rightarrow>
          (case client_NewDaemon (ce_host env) opts (ce_fs env) of
             (Inl e, f1) \<Rightarrow> (Inl (CliText ''create directories''), f1)
           | (Inr cfg, f1) \<Rightarrow>
               (case Serve denv rnd bindable tr cfg (f1, k) of
                  (Inl e, (f2, k2)) \<Rightarrow> (Inl (CliText ''serve''), f2)
                | (Inr d, (f2, k2)) \<Rightarrow> (Inr d, f2))))"

section \<open>main\<close>

definition cli_main :: "cli_env \<Rightarrow> bytes list \<Rightarrow> (globals \<Rightarrow> bytes list \<Rightarrow> outcome) \<Rightarrow> bytes list \<Rightarrow> outcome" where
  "cli_main env typed daemon args =
     (case parseGlobalFlags args of
        ((cmd, rest), g) \<Rightarrow>
          if cmd = [] then fail CliUsage
          else if cmd = ''daemon'' then daemon g rest
          else if cmd = ''create'' then cmdCreate env g rest
          else if cmd = ''attach'' then cmdAttach env g typed rest
          else if cmd = ''detach'' then cmdDetach env g rest
          else if cmd = ''kill'' then cmdKill env g rest
          else if cmd = ''list'' then cmdList env g rest
          else if cmd = ''info'' then cmdInfo env g rest
          else if cmd = ''status'' then cmdStatus env g
          else if cmd = ''events'' then cmdEvents env g rest
          else if cmd = ''exec'' then cmdExec env g rest
          else if cmd = ''wait'' then cmdWait env g rest
          else if cmd = ''record'' then cmdRecord env g rest
          else if cmd = ''history'' then cmdHistory env g rest
          else if cmd = ''version'' then cmdVersion env
          else fail (CliText (''unknown command: '' @ cmd)))"

section \<open>Properties\<close>

lemma history_loop_chunks:
  "history_loop (map history_frame chunks @ [history_end]) = (concat chunks, True)"
  by (induction chunks) (simp_all add: history_frame_def history_end_def msg_defs)

text \<open>(C33) \<^verbatim>\<open>wmux history\<close> prints the dumped screen and ends, except when the screen is empty: then the
daemon's answer is the end frame alone, which the command takes for its first response, and it
waits for a second end frame that never comes.\<close>

theorem cli_history_output:
  assumes "dialDaemon env g = Inr (c, i)" and "history_flags flags (''ansi'', 0) = Inr (fmt, lines)"
    and "p = kw_history (ce_json env) \<lparr>hq_SessionID = sid, hq_Format = fmt, hq_Lines = lines\<rparr>" and "length p \<le> MaxPayloadSize"
    and "c' = c\<lparr>cc_sent := cc_sent c @ [request_frame MsgHistory p]\<rparr>"
    and "remaining env c' = map history_frame chunks @ [history_end]" and "ce_hangup env (cc_sent c') = None"
  shows "oc_code (cmdHistory env g (sid # flags)) = (if chunks = [] then None else Some 0) \<and>
     oc_out (cmdHistory env g (sid # flags)) = concat chunks"
proof -
  let ?fs = "map history_frame chunks @ [history_end]"
  let ?peer = "ce_peer env (cc_sent c')"
  have w: "cli_WriteFrame (request_frame MsgHistory p) c = (None, c')"
    using assms(4,5) by (simp add: cli_WriteFrame_def request_frame_def)
  have d: "drop (cc_read c') ?peer = ?fs" using assms(6) by (simp add: remaining_def)
  then have lt: "cc_read c' < length ?peer" by (metis append_is_Nil_conv drop_eq_Nil leI not_Cons_self2)
  then have hd: "?peer ! cc_read c' = hd ?fs" "drop (Suc (cc_read c')) ?peer = tl ?fs"
    using d by (simp_all add: hd_drop_conv_nth [symmetric] drop_Suc drop_tl)
  let ?c2 = "c'\<lparr>cc_read := Suc (cc_read c')\<rparr>"
  have r: "cli_sendRequest env c MsgHistory p = Inr (hd ?fs, ?c2)"
    using w lt hd(1) by (simp add: cli_sendRequest_def cli_ReadFrame_def Let_def)
  have rem: "remaining env ?c2 = tl ?fs" using hd(2) by (simp add: remaining_def)
  have e: "checkError env (hd ?fs) = None"
    by (cases chunks) (simp_all add: checkError_def history_frame_def history_end_def msg_defs)
  show ?thesis
    using assms(1,2,3,7) r rem e history_loop_chunks [of "tl chunks"]
    by (cases chunks)
       (simp_all add: cmdHistory_def with_reply_def blocked_def finish_def history_frame_def history_end_def msg_defs)
qed

definition cli_test_env :: "Frame list \<Rightarrow> cli_env" where
  "cli_test_env answer =
     \<lparr>ce_host = \<lparr>ho_home = Some ''/h'', ho_temp = ''/t''\<rparr>, ce_getenv = (\<lambda>v. []), ce_cwd = ''/'',
      ce_fs = \<lparr>fs_nodes = [([''h'', ''.wmux'', ''daemon.token''], FileN (replicate 32 (CHR ''t'')))], fs_deny = [], fs_room = []\<rparr>,
      ce_listening = (\<lambda>s. True),
      ce_peer = (\<lambda>sent. request_frame MsgOK ''id'' # (if length sent > 1 then answer else [])),
      ce_hangup = (\<lambda>sent. None), ce_json = sample_cwire, ce_subscribe = id, ce_event = Some, ce_status = (\<lambda>p. None),
      ce_build = (''v'', ''c'')\<rparr>"

definition default_globals :: globals where
  "default_globals = \<lparr>gl_socketPath = defaultSocketPath, gl_tokenPath = defaultTokenPath\<rparr>"

lemma cli_test_dial:
  "\<exists>c. dialDaemon (cli_test_env answer) default_globals = Inr (c, ''id'') \<and> cc_read c = 1 \<and> length (cc_sent c) = 1"
proof -
  have "path_of (expandHome \<lparr>ho_home = Some ''/h'', ho_temp = ''/t''\<rparr> defaultTokenPath) = [''h'', ''.wmux'', ''daemon.token'']"
    by code_simp
  then have "LoadFromFile (path_of (expandHome \<lparr>ho_home = Some ''/h'', ho_temp = ''/t''\<rparr> defaultTokenPath))
      (ce_fs (cli_test_env answer)) = Inr (replicate 32 (CHR ''t''))"
    by (simp add: LoadFromFile_def ReadFile_def fs_get_def gm_get_Cons cli_test_env_def TokenSize_def)
  then show ?thesis
    by (simp add: dialDaemon_def dial_with_def default_globals_def cli_WriteFrame_def cli_ReadFrame_def auth_frame_def
        control_payload_def MaxPayloadSize_def cli_test_env_def request_frame_def Let_def)
qed

theorem cli_history_output_witness:
  "oc_code (cmdHistory (cli_test_env [history_end]) default_globals [''a'']) = None \<and>
   oc_code (cmdHistory (cli_test_env [history_frame ''x'', history_end]) default_globals [''a'']) = Some 0"
proof -
  have "oc_code (cmdHistory (cli_test_env (map history_frame chunks @ [history_end])) default_globals [''a'']) =
      (if chunks = [] then None else Some 0)" for chunks
  proof -
    obtain c where c: "dialDaemon (cli_test_env (map history_frame chunks @ [history_end])) default_globals = Inr (c, ''id'')"
      "cc_read c = 1" "length (cc_sent c) = 1"
      using cli_test_dial by blast
    let ?c' = "c\<lparr>cc_sent := cc_sent c @ [request_frame MsgHistory ''a'']\<rparr>"
    have "remaining (cli_test_env (map history_frame chunks @ [history_end])) ?c' = map history_frame chunks @ [history_end]"
      using c(2,3) by (simp add: remaining_def cli_test_env_def)
    then show ?thesis
      using cli_history_output [OF c(1), of "[]" "''ansi''" 0 "''a''" "''a''" ?c' chunks]
      by (simp add: MaxPayloadSize_def cli_test_env_def sample_cwire_def)
  qed
  from this [of "[]"] this [of "[''x'']"] show ?thesis by simp
qed

section \<open>Where the token is\<close>

text \<open>An option that leaves the token path and what it is derived from alone.\<close>

definition keeps_token :: "'f Option \<Rightarrow> bool" where
  "keeps_token opt \<longleftrightarrow> (\<forall>c. cg_tokenPath (opt c) = cg_tokenPath c \<and> cg_baseDir (opt c) = cg_baseDir c \<and> cg_namespace (opt c) = cg_namespace c)"

lemma keeps_token_options [simp]:
  "keeps_token (WithSocket s)" "keeps_token (WithDataDir s)" "keeps_token (WithColdRestore b)" "keeps_token (WithMaxScrollbackSize n)"
  by (simp_all add: keeps_token_def option_defs)

lemma keeps_token_fold:
  "list_all keeps_token opts \<Longrightarrow>
   cg_tokenPath (fold (\<lambda>o' c. o' c) opts c) = cg_tokenPath c \<and> cg_baseDir (fold (\<lambda>o' c. o' c) opts c) = cg_baseDir c \<and>
   cg_namespace (fold (\<lambda>o' c. o' c) opts c) = cg_namespace c"
  by (induction opts arbitrary: c) (simp_all add: keeps_token_def)

lemma daemon_flags_keep: "list_all keeps_token (snd bo) \<Longrightarrow> list_all keeps_token (snd (daemon_flags h args bo))"
  by (induction h args bo rule: daemon_flags.induct) (simp_all add: Let_def)

lemma cmdDaemon_options_keep:
  assumes "cmdDaemon_options L env g args = Inr (opts :: 'f Option list)"
  shows "list_all keeps_token opts"
proof -
  let ?e = "expandHome (ce_host env) (gl_socketPath g)"
  have "list_all keeps_token (snd (daemon_flags (ce_host env) args
      (Dir ?e, [WithSocket ?e, WithDataDir (JoinS [Dir ?e, ''sessions''])]) :: bytes \<times> 'f Option list))"
    by (rule daemon_flags_keep) simp
  with assms show ?thesis
    by (auto simp: cmdDaemon_options_def Let_def split: prod.splits sum.splits)
qed

text \<open>The token of \<^verbatim>\<open>wmux daemon\<close> is not where the other commands look for it: whatever flags the two
are given, the daemon keeps its token in the default namespace of the user's base directory, while
a command without \<^verbatim>\<open>--token\<close> and \<^verbatim>\<open>--socket\<close> reads a file one directory above, and gives up before
it dials when that file is not a token.\<close>

lemma cli_token_mismatch:
  assumes "ho_home (ce_host env) = Some ''/h''" and "cmdDaemon_options L env g args = Inr (opts :: 'f Option list)"
  shows "path_of (cg_tokenPath (resolveConfig (ce_host env) (newConfig opts))) = [''h'', ''.wmux'', ''default'', ''daemon.token''] \<and>
     path_of (expandHome (ce_host env) (gl_tokenPath (snd (parseGlobalFlags [''list''])))) = [''h'', ''.wmux'', ''daemon.token''] \<and>
     (case LoadFromFile [''h'', ''.wmux'', ''daemon.token''] (ce_fs env) of
        Inr t \<Rightarrow> True
      | Inl e \<Rightarrow> cli_main env typed daemon [''list''] = fail (CliDialToken e))"
proof -
  have g: "parseGlobalFlags [''list''] = ((''list'', []), default_globals)"
    by (simp add: parseGlobalFlags_def default_globals_def)
  have "expandHome (ce_host env) defaultTokenPath = ''/h/.wmux/daemon.token''"
  proof -
    have "JoinS [''/h'', drop 1 defaultTokenPath] = ''/h/.wmux/daemon.token''" "prefix ''~'' defaultTokenPath" by code_simp+
    with assms(1) show ?thesis by (simp add: expandHome_def)
  qed
  moreover have "path_of ''/h/.wmux/daemon.token'' = [''h'', ''.wmux'', ''daemon.token'']" by code_simp
  ultimately have cli: "path_of (expandHome (ce_host env) defaultTokenPath) = [''h'', ''.wmux'', ''daemon.token'']" by simp
  note k = keeps_token_fold [OF cmdDaemon_options_keep [OF assms(2)]]
  have "cg_tokenPath (newConfig opts) = []" "cg_baseDir (newConfig opts) = []" "cg_namespace (newConfig opts) = ''default''"
    by (simp_all add: newConfig_def k)
  then have "cg_tokenPath (resolveConfig (ce_host env) (newConfig opts)) =
      JoinS [JoinS [defaultBaseDir (ce_host env), ''default''], ''daemon.token'']"
    by (simp add: resolveConfig_def Let_def)
  moreover have "path_of (JoinS [JoinS [JoinS [''/h'', ''.wmux''], ''default''], ''daemon.token'']) =
      [''h'', ''.wmux'', ''default'', ''daemon.token'']" by code_simp
  ultimately show ?thesis
    using assms(1) cli
    by (simp add: g default_globals_def defaultBaseDir_def cli_main_def cmdList_def with_reply_def dialDaemon_def dial_with_def
        split: sum.split)
qed

end
