(* ===== verification/AutoStart.thy ===== *)
theory AutoStart
  imports ClientApi DaemonServe
begin

text \<open>
  Starting a daemon on demand: \<^verbatim>\<open>internal/daemon/autodaemon.go\<close>, and \<^verbatim>\<open>New\<close>, \<^verbatim>\<open>startDaemon\<close> (client.go) and
  \<^verbatim>\<open>ServeDaemon\<close> (daemon.go) of \<^verbatim>\<open>pkg/client\<close>. Time is in nanoseconds. The operating system is given by what
  it answers: whether an executable is found and a process starts, and the socket files over time.
\<close>

section \<open>Polling\<close>

definition socketPollInterval :: duration where
  "socketPollInterval = 50 * 1000000"

text \<open>
  A clock: the first reading, and by how much the \<open>n\<close>th turn of the loop takes longer than its sleep
  of 50 ms (the probe itself, and the scheduler).
\<close>

record clock =
  ck_now :: int
  ck_late :: "nat \<Rightarrow> nat"

function poll :: "(nat \<Rightarrow> nat) \<Rightarrow> (int \<Rightarrow> bool) \<Rightarrow> int \<Rightarrow> nat \<Rightarrow> int \<Rightarrow> bool" where
  "poll late ready deadline n now =
     (if now < deadline
      then ready now \<or> poll late ready deadline (Suc n) (now + socketPollInterval + int (late n))
      else False)"
  by pat_completeness auto
termination
  by (relation "measure (\<lambda>(late, ready, deadline, n, now). nat (deadline - now))") (auto simp: socketPollInterval_def)

declare poll.simps [simp del]

section \<open>autodaemon.go\<close>

datatype daemon_error = ErrDaemonNotRunning

definition WaitForSocket :: "clock \<Rightarrow> (int \<Rightarrow> sockets) \<Rightarrow> path \<Rightarrow> duration \<Rightarrow> daemon_error + unit" where
  "WaitForSocket ck K p timeout =
     (if poll (ck_late ck) (\<lambda>t. gm_get (so_files (K t)) p \<noteq> None) (ck_now ck + timeout) 0 (ck_now ck)
      then Inr () else Inl ErrDaemonNotRunning)"

definition BuildDaemonArgs :: "bytes \<Rightarrow> bytes \<Rightarrow> bytes \<Rightarrow> bytes list" where
  "BuildDaemonArgs socketPath pidFilePath logLevel =
     [''daemon'', ''--socket'', socketPath, ''--pid-file'', pidFilePath, ''--log-level'', logLevel]"

datatype autod_error = AutoExecutable | AutoSpawn | AutoRelease | AutoNotReady duration daemon_error

text \<open>What the system does with a process: \<open>os_sockets\<close> are the socket files over time once it has been started.\<close>

record os =
  os_executable :: "bytes option"
  os_starts :: bool
  os_releases :: bool
  os_sockets :: "bytes list \<Rightarrow> int \<Rightarrow> sockets"
  os_clock :: clock

definition Autodaemonize :: "os \<Rightarrow> bytes \<Rightarrow> bytes \<Rightarrow> bytes \<Rightarrow> duration \<Rightarrow> autod_error + unit" where
  "Autodaemonize os socketPath pidFilePath logLevel timeout =
     (case os_executable os of
        None \<Rightarrow> Inl AutoExecutable
      | Some exe \<Rightarrow>
          let args = BuildDaemonArgs socketPath pidFilePath logLevel in
          if \<not> os_starts os then Inl AutoSpawn
          else if \<not> os_releases os then Inl AutoRelease
          else case WaitForSocket (os_clock os) (os_sockets os (exe # args)) (path_of socketPath) timeout of
                 Inl e \<Rightarrow> Inl (AutoNotReady timeout e)
               | Inr u \<Rightarrow> Inr ())"

section \<open>client.go: startDaemon and New\<close>

text \<open>The machine: its files, its sockets and the daemon behind the socket of the configuration, if there is one.\<close>

record 'e machine =
  mc_fs :: fs
  mc_sockets :: sockets
  mc_daemon :: "'e daemon option"

text \<open>
  The program that is started: the daemon it becomes (\<open>None\<close> when it exits instead), with what it leaves
  of files and sockets, and how long after its start its socket accepts connections.
\<close>

record 'e program =
  pg_run :: "bytes list \<Rightarrow> fs \<times> sockets \<Rightarrow> 'e daemon option \<times> fs \<times> sockets"
  pg_boot :: nat

record start_env =
  se_rand :: bytes
  se_executable :: "bytes option"
  se_starts :: bool
  se_clock :: clock

datatype start_error =
  StartDirs io_error | StartDataDir io_error | StartToken auth_error | StartExecutable | StartSpawn | StartTimeout

definition startTimeout :: duration where
  "startTimeout = 3 * 1000000000"

definition startDaemon ::
  "start_env \<Rightarrow> 'e program \<Rightarrow> 'f config \<Rightarrow> 'e machine \<Rightarrow> (start_error + unit) \<times> 'e machine" where
  "startDaemon env prog cfg m =
     (case MkdirAll (path_of (Dir (cg_socket cfg))) (mc_fs m) of
        (Inl e, f1) \<Rightarrow> (Inl (StartDirs e), m\<lparr>mc_fs := f1\<rparr>)
      | (Inr u1, f1) \<Rightarrow>
          (case MkdirAll (path_of (cg_dataDir cfg)) f1 of
             (Inl e, f2) \<Rightarrow> (Inl (StartDataDir e), m\<lparr>mc_fs := f2\<rparr>)
           | (Inr u2, f2) \<Rightarrow>
               (case Ensure (se_rand env) (path_of (cg_tokenPath cfg)) f2 of
                  (Inl e, f3) \<Rightarrow> (Inl (StartToken e), m\<lparr>mc_fs := f3\<rparr>)
                | (Inr token, f3) \<Rightarrow>
                    (case se_executable env of
                       None \<Rightarrow> (Inl StartExecutable, m\<lparr>mc_fs := f3\<rparr>)
                     | Some exe \<Rightarrow>
                         if \<not> se_starts env then (Inl StartSpawn, m\<lparr>mc_fs := f3\<rparr>)
                         else case pg_run prog (exe # buildDaemonArgs cfg) (f3, mc_sockets m) of
                                (d, f4, k') \<Rightarrow>
                                  let now = ck_now (se_clock env);
                                      K = (\<lambda>t. if t < now + int (pg_boot prog) then mc_sockets m else k');
                                      up = (\<lambda>t. dial_socket (path_of (cg_socket cfg)) (K t) \<noteq> None);
                                      m' = m\<lparr>mc_fs := f4, mc_sockets := k',
                                             mc_daemon := (case d of None \<Rightarrow> mc_daemon m | Some d' \<Rightarrow> Some d')\<rparr>
                                  in (if poll (ck_late (se_clock env)) up (now + startTimeout) 0 now
                                      then Inr () else Inl StartTimeout, m')))))"

datatype new_error = NewConnect dial_error | NewSubscribe api_error | NewAutoStart start_error

text \<open>\<^verbatim>\<open>connect\<close> on the machine: the channels of \<open>connect\<close> against the daemon that is dialed, then \<^verbatim>\<open>subscribe\<close>.\<close>

definition connect_machine ::
  "'e denv \<Rightarrow> cwire \<Rightarrow> hs_env \<times> hs_env \<Rightarrow> 'f config \<Rightarrow> 'e machine \<Rightarrow> (new_error + bytes) \<times> 'e machine" where
  "connect_machine env W hs cfg m =
     (let srv = (case dial_socket (path_of (cg_socket cfg)) (mc_sockets m) of
                   None \<Rightarrow> None
                 | Some l \<Rightarrow> mc_daemon m)
      in case srv of
           None \<Rightarrow>
             (case LoadFromFile (path_of (cg_tokenPath cfg)) (mc_fs m) of
                Inl e \<Rightarrow> (Inl (NewConnect (DialToken e)), m)
              | Inr t \<Rightarrow> (Inl (NewConnect DialSocket), m))
         | Some d \<Rightarrow>
             (case connect (fst hs) (snd hs) (cg_tokenPath cfg) (mc_fs m) (dm_server d) of
                (Inl e, s') \<Rightarrow> (Inl (NewConnect e), m\<lparr>mc_daemon := Some (d\<lparr>dm_server := s'\<rparr>)\<rparr>)
              | (Inr cid, s') \<Rightarrow>
                  (case subscribe W (daemon_rpc env cid) (d\<lparr>dm_server := s'\<rparr>) of
                     (Inl e, d') \<Rightarrow> (Inl (NewSubscribe e), m\<lparr>mc_daemon := Some d'\<rparr>)
                   | (Inr u, d') \<Rightarrow> (Inr cid, m\<lparr>mc_daemon := Some d'\<rparr>))))"

definition client_New ::
  "'e denv \<Rightarrow> cwire \<Rightarrow> start_env \<Rightarrow> 'e program \<Rightarrow> (nat \<Rightarrow> hs_env \<times> hs_env) \<Rightarrow> host \<Rightarrow> 'f Option list \<Rightarrow> 'e machine \<Rightarrow>
     (new_error + bytes) \<times> 'e machine" where
  "client_New env W se prog hs h opts m =
     (let cfg = resolveConfig h (newConfig opts) in
      case connect_machine env W (hs 0) cfg m of
        (Inr cid, m1) \<Rightarrow> (Inr cid, m1)
      | (Inl e, m1) \<Rightarrow>
          if \<not> cg_autoStart cfg then (Inl e, m1)
          else case startDaemon se prog cfg m1 of
                 (Inl e', m2) \<Rightarrow> (Inl (NewAutoStart e'), m2)
               | (Inr u, m2) \<Rightarrow> connect_machine env W (hs 1) cfg m2)"

section \<open>daemon.go: ServeDaemon\<close>

datatype serve_daemon_error = SdCreate io_error | SdServe serve_error

text \<open>The first component is whether the arguments were a daemon's; the server runs until a signal.\<close>

definition ServeDaemon ::
  "'e denv \<Rightarrow> bytes \<Rightarrow> bool \<Rightarrow> tracer option \<Rightarrow> host \<Rightarrow> bytes list \<Rightarrow> 'f Option list \<Rightarrow> fs \<times> sockets \<Rightarrow>
     (bool \<times> (serve_daemon_error + 'e daemon) option) \<times> fs \<times> sockets" where
  "ServeDaemon env rnd bindable tr h args extraOpts = (\<lambda>(f, k).
     if \<not> isDaemonMode args then ((False, None), f, k)
     else case client_NewDaemon h (parseDaemonArgs args @ extraOpts) f of
            (Inl e, f1) \<Rightarrow> ((True, Some (Inl (SdCreate e))), f1, k)
          | (Inr cfg, f1) \<Rightarrow>
              (case Serve env rnd bindable tr cfg (f1, k) of
                 (Inl e, f2, k2) \<Rightarrow> ((True, Some (Inl (SdServe e))), f2, k2)
               | (Inr d, f2, k2) \<Rightarrow> ((True, Some (Inr d)), f2, k2)))"

text \<open>A program whose \<^verbatim>\<open>main\<close> begins with \<^verbatim>\<open>ServeDaemon\<close>, as the documentation of the package asks for.\<close>

definition sdk_program :: "'e denv \<Rightarrow> bytes \<Rightarrow> tracer \<Rightarrow> host \<Rightarrow> nat \<Rightarrow> 'f Option list \<Rightarrow> 'e program" where
  "sdk_program env rnd tr h boot extraOpts =
     \<lparr>pg_run = (\<lambda>args fk.
        case ServeDaemon env rnd True (Some tr) h args extraOpts fk of
          ((handled, Some (Inr d)), fk') \<Rightarrow> (Some d, fk')
        | (_, fk') \<Rightarrow> (None, fk')),
      pg_boot = boot\<rparr>"

section \<open>Polling terminates and is prompt\<close>

lemma poll_sound: "poll late ready deadline n now \<Longrightarrow> \<exists>t. now \<le> t \<and> t < deadline \<and> ready t"
proof (induction late ready deadline n now rule: poll.induct)
  case (1 late ready deadline n now)
  show ?case
  proof (cases "ready now")
    case True
    with "1.prems" show ?thesis by (subst (asm) poll.simps) (auto split: if_splits)
  next
    case False
    with "1.prems" have lt: "now < deadline" and "poll late ready deadline (Suc n) (now + socketPollInterval + int (late n))"
      by (subst (asm) poll.simps, simp split: if_splits)+
    with "1.IH" [OF lt] obtain t where "now + socketPollInterval + int (late n) \<le> t" "t < deadline" "ready t"
      using False by blast
    then show ?thesis by (intro exI [of _ t]) (simp add: socketPollInterval_def)
  qed
qed

text \<open>What a client of the loop relies on: what has become ready stays ready.\<close>

locale readiness =
  fixes ready :: "int \<Rightarrow> bool"
  assumes stays: "ready t \<Longrightarrow> t \<le> t' \<Longrightarrow> ready t'"
begin

lemma found_in_time:
  assumes "\<And>n. late n \<le> b" and "ready t0" and "t0 + socketPollInterval + int b \<le> deadline"
  shows "now < t0 + socketPollInterval + int b \<Longrightarrow> poll late ready deadline n now"
proof (induction "nat (deadline - now)" arbitrary: n now rule: less_induct)
  case less
  show ?case
  proof (cases "ready now")
    case True
    with less.prems assms(3) show ?thesis by (subst poll.simps) simp
  next
    case False
    then have "now < t0" using stays [OF assms(2), of now] by linarith
    then have "poll late ready deadline (Suc n) (now + socketPollInterval + int (late n))"
      using assms(1) [of n] assms(3) by (intro less.hyps) (simp_all add: socketPollInterval_def)
    with less.prems assms(3) show ?thesis by (subst poll.simps) simp
  qed
qed

end

text \<open>The two probes: a socket file that stays in place, and a listener that comes up once and stays.\<close>

interpretation ahead: readiness "\<lambda>t. t0 \<le> t" for t0
  by unfold_locales simp

section \<open>Files under a start\<close>

lemma mkdirs_keeps: "fs_get f q = Some n \<Longrightarrow> fs_get (snd (mkdirs ps f)) q = Some n"
proof (induction ps f rule: mkdirs.induct)
  case (2 p ps f)
  then show ?case by (cases "q = p") (simp_all split: option.split)
qed simp

lemma mkdirs_deny [simp]: "fs_deny (snd (mkdirs ps f)) = fs_deny f"
  by (induction ps f rule: mkdirs.induct) (auto split: option.split)

lemma mkdirs_is_dir: "is_dir f q \<Longrightarrow> is_dir (snd (mkdirs ps f)) q"
  by (auto simp: is_dir_def intro: mkdirs_keeps)

lemma mkdirs_made: "mkdirs ps f = (Inr (), f') \<Longrightarrow> p \<in> set ps \<Longrightarrow> is_dir f' p"
proof (induction ps f rule: mkdirs.induct)
  case (2 q ps f)
  show ?case
  proof (cases "is_dir f q")
    case True
    then show ?thesis using 2 mkdirs_is_dir [OF True, of ps] by auto
  next
    case False
    then have *: "fs_get f q = None" "q \<notin> set (fs_deny f)" "mkdirs ps (fs_put q DirN f) = (Inr (), f')"
      using "2.prems" by (auto split: option.splits if_splits)
    have "is_dir (fs_put q DirN f) q" by (simp add: is_dir_def)
    from mkdirs_is_dir [OF this, of ps] show ?thesis using "2.IH"(2) [OF False] * "2.prems"(2) by auto
  qed
qed simp

lemma mkdirs_again: "(\<And>p. p \<in> set ps \<Longrightarrow> is_dir f p) \<Longrightarrow> mkdirs ps f = (Inr (), f)"
  by (induction ps) simp_all

lemma Ensure_is_dir:
  assumes "Ensure rnd p f = (Inr t, f')" "is_dir f q"
  shows "is_dir f' q"
proof (cases "f' = f")
  case False
  with assms(1) have "WriteFile p t f = (Inr (), f')"
    by (auto simp: Ensure_def SaveToFile_def split: sum.splits prod.splits if_splits)
  moreover from this have "fs_get f p \<noteq> Some DirN"
    by (auto simp: WriteFile_def OpenTrunc_def can_create_def split: if_splits)
  ultimately show ?thesis using assms(2) WriteFile_ok_get(1) [of p t f f' q] by (auto simp: is_dir_def)
qed (use assms in simp)

lemma Load_kept: "fs_get f' p = fs_get f p \<Longrightarrow> fs_deny f' = fs_deny f \<Longrightarrow> LoadFromFile p f' = LoadFromFile p f"
  by (simp add: LoadFromFile_def ReadFile_def)

lemma Reconcile_frame:
  assumes "\<And>d. q \<noteq> d @ [metaFileName]"
  shows "fs_get (snd (ReconcileOrphans J now dir f)) q = fs_get f q \<and> fs_deny (snd (ReconcileOrphans J now dir f)) = fs_deny f"
proof -
  have w: "snd (WriteMetadata J d m f) = snd (WriteFile (d @ [metaFileName]) (mj_enc J m) f)" for J d m f
    by (simp add: WriteMetadata_def split: prod.split sum.split)
  have u: "fs_get (snd (UpdateMetadataExit J d t c f)) q = fs_get f q \<and> fs_deny (snd (UpdateMetadataExit J d t c f)) = fs_deny f" for J d t c f
    using WriteFile_other [of q "d @ [metaFileName]"] assms
    by (auto simp: UpdateMetadataExit_def w split: sum.split)
  have u': "fs_get f' q = fs_get f q \<and> fs_deny f' = fs_deny f" if "UpdateMetadataExit J d t c f = (r, f')" for J d t c f r f'
    using u [of J d t c f] that by simp
  have "fs_get (snd (reconcile_loop J now ds n f)) q = fs_get f q \<and> fs_deny (snd (reconcile_loop J now ds n f)) = fs_deny f" for ds n
    by (induction J now ds n f rule: reconcile_loop.induct) (auto split: prod.splits sum.splits dest!: u')
  then show ?thesis by (auto simp: ReconcileOrphans_def split: sum.split prod.split) (metis snd_conv)+
qed

section \<open>A daemon that serves\<close>

lemma restore_entry_frame [simp]:
  "dm_server (restore_entry env dir e d) = dm_server d" "dm_eventBus (restore_entry env dir e d) = dm_eventBus d"
  "dm_fs (restore_entry env dir e d) = dm_fs d"
  by (simp_all add: restore_entry_def Let_def split: option.split prod.split)

lemma restore_frame [simp]:
  "dm_server (restoreCommandHistoriesAtStartup env dir d) = dm_server d"
  "dm_eventBus (restoreCommandHistoriesAtStartup env dir d) = dm_eventBus d"
  "dm_fs (restoreCommandHistoriesAtStartup env dir d) = dm_fs d"
proof -
  have "dm_server (fold (restore_entry env dir) es d) = dm_server d \<and> dm_eventBus (fold (restore_entry env dir) es d) = dm_eventBus d \<and>
      dm_fs (fold (restore_entry env dir) es d) = dm_fs d" for es
    by (induction es arbitrary: d) simp_all
  then show "dm_server (restoreCommandHistoriesAtStartup env dir d) = dm_server d"
    "dm_eventBus (restoreCommandHistoriesAtStartup env dir d) = dm_eventBus d"
    "dm_fs (restoreCommandHistoriesAtStartup env dir d) = dm_fs d"
    by (simp_all add: restoreCommandHistoriesAtStartup_def split: sum.split)
qed

definition pid_path :: "'f config \<Rightarrow> path" where
  "pid_path cfg = path_of (JoinS [Dir (cg_socket cfg), ''wmux.pid''])"

definition pid_written :: "'e denv \<Rightarrow> 'f config \<Rightarrow> fs \<Rightarrow> (pid_error + unit) \<times> fs" where
  "pid_written env cfg f =
     WritePIDFile (de_pidj env) (pid_path cfg) \<lparr>in_PID = de_getpid env, in_Version = ''0.1.0'', in_StartedAt = de_now env 1\<rparr> f"

lemma Start_ok:
  fixes env :: "'e denv"
  assumes "pid_written env cfg f = (Inr (), f1)"
  shows "\<exists>d. Start_begin env (serve_daemon cfg tok tr f) = (Inr (), d) \<and> dm_server d = OnClient (NewServer tok []) \<and>
     dm_eventBus d = Some NewBus \<and> dm_fs d = snd (ReconcileOrphans (de_meta env) (de_now env) (path_of (cg_dataDir cfg)) f1)"
proof -
  have "dm_version (serve_daemon cfg tok tr f :: 'e daemon) = ''0.1.0''"
    by (simp add: serve_daemon_def NewDaemon_def WithPIDFilePath_def DaemonState.WithDataDir_def WithVersion_def
      WithEventBus_def DaemonState.WithColdRestore_def WithCommandLifecycle_def DaemonState.WithMaxScrollbackSize_def)
  with assms show ?thesis
    by (simp add: Start_begin_def pid_written_def pid_path_def Let_def)
qed

lemma Serve_ok:
  fixes env :: "'e denv"
  assumes "LoadFromFile (path_of (cg_tokenPath cfg)) f = Inr tok" and "fst (pid_written env cfg f) = Inr ()"
    and "path_of (cg_tokenPath cfg) \<noteq> pid_path cfg" and "\<And>d. path_of (cg_tokenPath cfg) \<noteq> d @ [metaFileName]"
  shows "\<exists>d f' k'. Serve env rnd True (Some tr) cfg (f, k) = (Inr d, f', k') \<and> dm_server d = OnClient (NewServer tok []) \<and>
     dm_eventBus d = Some NewBus \<and> dial_socket (path_of (cg_socket cfg)) k' \<noteq> None \<and>
     LoadFromFile (path_of (cg_tokenPath cfg)) f' = Inr tok"
proof -
  obtain f1 where f1: "pid_written env cfg f = (Inr (), f1)" using assms(2) by (cases "pid_written env cfg f") simp
  obtain d where d: "Start_begin env (serve_daemon cfg tok tr f) = (Inr (), d)" "dm_server d = OnClient (NewServer tok [])"
      "dm_eventBus d = Some NewBus" "dm_fs d = snd (ReconcileOrphans (de_meta env) (de_now env) (path_of (cg_dataDir cfg)) f1)"
    using Start_ok [OF f1, of tok tr] by blast
  have "f1 = snd (WriteFile (pid_path cfg) (pj_enc (de_pidj env)
      \<lparr>in_PID = de_getpid env, in_Version = ''0.1.0'', in_StartedAt = de_now env 1\<rparr>) f)"
    using f1 by (auto simp: pid_written_def WritePIDFile_def split: prod.splits sum.splits)
  then have "fs_get (dm_fs d) (path_of (cg_tokenPath cfg)) = fs_get f (path_of (cg_tokenPath cfg))" "fs_deny (dm_fs d) = fs_deny f"
    using WriteFile_other [OF assms(3)] Reconcile_frame [OF assms(4)] by (simp_all add: d(4))
  then have "LoadFromFile (path_of (cg_tokenPath cfg)) (dm_fs d) = Inr tok" using Load_kept assms(1) by metis
  moreover obtain l k' where "Listen True (path_of (cg_socket cfg)) k = (Some l, k')" "dial_socket (path_of (cg_socket cfg)) k' \<noteq> None"
    by (auto simp: Listen_def Let_def dial_socket_def)
  moreover have "Ensure rnd (path_of (cg_tokenPath cfg)) f = (Inr tok, f)" using assms(1) by (simp add: Ensure_def)
  ultimately show ?thesis using d by (simp add: Serve_def)
qed

text \<open>A client that is admitted by a daemon with an open event bus subscribes and is connected.\<close>

lemma connect_machine_ok:
  fixes d :: "'e daemon"
  assumes "dial_socket (path_of (cg_socket cfg)) (mc_sockets m) \<noteq> None" and "mc_daemon m = Some d"
    and "sv_listening (dm_server d)" and "dm_eventBus d = Some b"
    and "LoadFromFile (path_of (cg_tokenPath cfg)) (mc_fs m) = Inr (sv_token (dm_server d))"
    and "he_deadline e1" "he_creds e1 = Some cr1" "he_clear e1" "checkAutomationMode e1 cr1 (dm_server d) = Inr ()"
    and "he_deadline e2" "he_creds e2 = Some cr2" "he_clear e2" "checkAutomationMode e2 cr2 (dm_server d) = Inr ()"
    and "generateClientID (he_rand e1) = Some cid"
  shows "\<exists>d' c. connect_machine env W (e1, e2) cfg m = (Inr cid, m\<lparr>mc_daemon := Some d'\<rparr>) \<and> control_conn cid (dm_server d') = Some c \<and>
     conn_healthy c \<and> dm_svc d' = dm_svc d \<and> dm_forwards d' = dm_forwards d @ [(fst (Subscribe b), cid, [])]"
proof -
  let ?s = "dm_server d"
  obtain s' cl c where c: "connect e1 e2 (cg_tokenPath cfg) (mc_fs m) ?s = (Inr cid, s')"
      "gm_get (sv_clients s') cid = Some cl" "cl_Control cl = Some c" "conn_healthy c"
    using connect_admitted [of "cg_tokenPath cfg" "mc_fs m" ?s e1 cr1 e2 cr2 cid] assms(3,5-14)
    by (auto split: prod.splits sum.splits)
  let ?d = "d\<lparr>dm_server := s'\<rparr>"
  have h: "dispatch env cid (request_frame MsgEvent []) ?d =
      ok_reply env cid None (?d\<lparr>dm_eventBus := Some (snd (Subscribe b)), dm_forwards := dm_forwards d @ [(fst (Subscribe b), cid, [])]\<rparr>)"
    using assms(4) by (simp add: dispatch_def request_frame_def Let_def msg_defs handleSubscribe_def split: prod.split)
  have cc: "control_conn cid (dm_server ?d) = Some c" using c(2,3) by (simp add: control_conn_def)
  have "daemon_rpc env cid MsgEvent [] ?d = (Inr (okFrame env None), dispatch env cid (request_frame MsgEvent []) ?d)"
    by (rule daemon_rpc_answered [OF cc c(4)]) (simp_all add: h ok_reply_def reply_def sendable_def okFrame_def)
  then have "subscribe W (daemon_rpc env cid) ?d = (Inr (), dispatch env cid (request_frame MsgEvent []) ?d)"
    by (simp add: subscribe_def unit_call_def okFrame_def msg_defs)
  moreover have "control_conn cid (dm_server (dispatch env cid (request_frame MsgEvent []) ?d)) = Some (snd (WriteFrame c (okFrame env None)))"
    using cc by (simp add: h ok_reply_def reply_def control_conn_write)
  moreover have "conn_healthy (snd (WriteFrame c (okFrame env None)))" using c(4) by (simp add: WriteFrame_healthy)
  moreover have "dm_forwards (dispatch env cid (request_frame MsgEvent []) ?d) = dm_forwards d @ [(fst (Subscribe b), cid, [])]"
      "dm_svc (dispatch env cid (request_frame MsgEvent []) ?d) = dm_svc d"
    by (simp_all add: h ok_reply_def reply_def)
  ultimately show ?thesis using assms(1,2) c(1) by (auto simp: connect_machine_def Let_def)
qed

lemma sdk_program_runs:
  fixes env :: "'e denv" and cfg :: "'f config" and facs :: "'f list"
  assumes "cfg = resolveConfig h (newConfig opts)" and "in_int64 (cg_maxScrollbackSize cfg)"
    and "value_option exe = (None :: (bytes \<Rightarrow> 'f Option list) option)" "exe \<noteq> ''--cold-restore''"
    and "MkdirAll (path_of (Dir (cg_socket cfg))) f = (Inr (), f)" "MkdirAll (path_of (cg_dataDir cfg)) f = (Inr (), f)"
    and "LoadFromFile (path_of (cg_tokenPath cfg)) f = Inr tok" "fst (pid_written env cfg f) = Inr ()"
    and "path_of (cg_tokenPath cfg) \<noteq> pid_path cfg" "\<And>d. path_of (cg_tokenPath cfg) \<noteq> d @ [metaFileName]"
  shows "\<exists>d f' k'. pg_run (sdk_program env rnd tr h' boot (map WithEmulatorFactory facs)) (exe # buildDaemonArgs cfg) (f, k) = (Some d, f', k') \<and>
     dm_server d = OnClient (NewServer tok []) \<and> dm_eventBus d = Some NewBus \<and> dial_socket (path_of (cg_socket cfg)) k' \<noteq> None \<and>
     LoadFromFile (path_of (cg_tokenPath cfg)) f' = Inr tok"
proof -
  let ?opts = "parseDaemonArgs (exe # buildDaemonArgs cfg) @ map WithEmulatorFactory facs"
  let ?c = "resolveConfig h' (newConfig ?opts)"
  have m: "in_int64 (cg_maxScrollbackSize (newConfig opts))" using assms(1,2) by simp
  have c: "cg_socket ?c = cg_socket cfg" "cg_tokenPath ?c = cg_tokenPath cfg" "cg_dataDir ?c = cg_dataDir cfg"
    using daemon_reads_back [OF assms(3,4) m assms(1) refl, of h' facs] by simp_all
  then have p: "pid_path ?c = pid_path cfg" "pid_written env ?c = pid_written env cfg"
    by (simp_all add: pid_path_def pid_written_def fun_eq_iff)
  have n: "client_NewDaemon h' ?opts f = (Inr ?c, f)" using assms(5,6) c by (simp add: client_NewDaemon_def Let_def)
  have i: "isDaemonMode (exe # buildDaemonArgs cfg)" by (simp add: isDaemonMode_def buildDaemonArgs_def)
  obtain d f' k' where "Serve env rnd True (Some tr) ?c (f, k) = (Inr d, f', k')" "dm_server d = OnClient (NewServer tok [])"
      "dm_eventBus d = Some NewBus" "dial_socket (path_of (cg_socket cfg)) k' \<noteq> None" "LoadFromFile (path_of (cg_tokenPath cfg)) f' = Inr tok"
    using Serve_ok [of ?c f tok env rnd tr k] assms(7-10) c p by auto
  then show ?thesis using n i by (auto simp: sdk_program_def ServeDaemon_def)
qed

section \<open>Properties\<close>

text \<open>(C25) Auto-start works end to end: a client that finds nothing listening creates the directories and
the token, starts its program, and, when that program begins with \<^verbatim>\<open>ServeDaemon\<close> and is up in time
(3 s less one turn of the polling loop), is admitted by the daemon it started, which reads the same
token file and socket path back from its command line. The client is registered there, and the
daemon forwards every event to it. Nothing is assumed of the machine but that the directories, the
token and the PID file can be written, and that the token file is neither the PID file nor a
session's metadata file.\<close>

theorem auto_start_connects:
  fixes env :: "'e denv" and opts :: "'f Option list" and facs :: "'f list"
  assumes "cfg = resolveConfig h (newConfig opts)" "cg_autoStart cfg" "in_int64 (cg_maxScrollbackSize cfg)"
    and "dial_socket (path_of (cg_socket cfg)) (mc_sockets m) = None"
    and "MkdirAll (path_of (Dir (cg_socket cfg))) (mc_fs m) = (Inr (), f1)" "MkdirAll (path_of (cg_dataDir cfg)) f1 = (Inr (), f2)"
    and "Ensure (se_rand se) (path_of (cg_tokenPath cfg)) f2 = (Inr tok, f3)" "fst (pid_written env cfg f3) = Inr ()"
    and "path_of (cg_tokenPath cfg) \<noteq> pid_path cfg" "\<And>d. path_of (cg_tokenPath cfg) \<noteq> d @ [metaFileName]"
    and "se_executable se = Some exe" "se_starts se"
    and "value_option exe = (None :: (bytes \<Rightarrow> 'f Option list) option)" "exe \<noteq> ''--cold-restore''"
    and "\<And>n. ck_late (se_clock se) n \<le> b" "int boot + socketPollInterval + int b \<le> startTimeout"
    and "hs 1 = (e1, e2)" "he_deadline e1" "he_creds e1 = Some cr1" "he_clear e1" "he_deadline e2" "he_creds e2 = Some cr2" "he_clear e2"
    and "generateClientID (he_rand e1) = Some cid"
  shows "case client_New env W se (sdk_program env rnd tr h' boot (map WithEmulatorFactory facs)) hs h opts m of
     (Inl e, m') \<Rightarrow> False
   | (Inr i, m') \<Rightarrow> i = cid \<and> (\<exists>d. mc_daemon m' = Some d \<and> control_conn cid (dm_server d) \<noteq> None \<and> (\<exists>a. (a, cid, []) \<in> set (dm_forwards d)))"
proof -
  let ?prog = "sdk_program env rnd tr h' boot (map WithEmulatorFactory facs)" and ?sp = "path_of (cg_socket cfg)"
  have dirs: "is_dir f3 q" if "q \<in> set (prefixes (path_of (Dir (cg_socket cfg)))) \<union> set (prefixes (path_of (cg_dataDir cfg)))" for q
    using that mkdirs_made [OF assms(5) [unfolded MkdirAll_def]] mkdirs_made [OF assms(6) [unfolded MkdirAll_def]]
      mkdirs_is_dir [of f1 q "prefixes (path_of (cg_dataDir cfg))"] assms(6) Ensure_is_dir [OF assms(7)] by (auto simp: MkdirAll_def)
  then have mk: "MkdirAll (path_of (Dir (cg_socket cfg))) f3 = (Inr (), f3)" "MkdirAll (path_of (cg_dataDir cfg)) f3 = (Inr (), f3)"
    by (simp_all only: MkdirAll_def) (rule mkdirs_again, simp)+
  have tok: "LoadFromFile (path_of (cg_tokenPath cfg)) f3 = Inr tok" using Ensure_spec [OF assms(7)] by simp
  obtain d f' k' where run: "pg_run ?prog (exe # buildDaemonArgs cfg) (f3, mc_sockets m) = (Some d, f', k')"
      "dm_server d = OnClient (NewServer tok [])" "dm_eventBus d = Some NewBus" "dial_socket ?sp k' \<noteq> None"
      "LoadFromFile (path_of (cg_tokenPath cfg)) f' = Inr tok"
    using sdk_program_runs [OF assms(1,3,13,14) mk tok assms(8-10)] by blast
  let ?now = "ck_now (se_clock se)" and ?m = "m\<lparr>mc_fs := f', mc_sockets := k', mc_daemon := Some d\<rparr>"
  have up: "(\<lambda>t. dial_socket ?sp (if t < ?now + int boot then mc_sockets m else k') \<noteq> None) = (\<lambda>t. ?now + int boot \<le> t)"
    using assms(4) run(4) by (auto simp: fun_eq_iff)
  have "poll (ck_late (se_clock se)) (\<lambda>t. ?now + int boot \<le> t) (?now + startTimeout) 0 ?now"
    using assms(16) by (intro ahead.found_in_time [OF assms(15), of _ "?now + int boot"]) (simp_all add: socketPollInterval_def)
  then have start: "startDaemon se ?prog cfg m = (Inr (), ?m)"
    using assms(5-7,11,12) run(1) up by (simp add: startDaemon_def Let_def sdk_program_def)
  have "\<exists>e. connect_machine env W (hs 0) cfg m = (Inl e, m)"
    using assms(4) by (simp add: connect_machine_def split: sum.split)
  then obtain e where "connect_machine env W (hs 0) cfg m = (Inl e, m)" ..
  moreover obtain d' c where "connect_machine env W (e1, e2) cfg ?m = (Inr cid, ?m\<lparr>mc_daemon := Some d'\<rparr>)"
      "control_conn cid (dm_server d') = Some c" "dm_forwards d' = dm_forwards d @ [(fst (Subscribe NewBus), cid, [])]"
    using connect_machine_ok [where m = ?m and d = d and b = NewBus and cfg = cfg and W = W and env = env,
        OF _ _ _ run(3) _ assms(18-20) _ assms(21-23) _ assms(24)] run(2,4,5)
    by (auto simp: OnClient_def NewServer_def checkAutomationMode_def)
  ultimately show ?thesis
    using start assms(1,2,17) by (auto simp: client_New_def Let_def)
qed

definition fresh_machine :: "'e machine" where
  "fresh_machine = \<lparr>mc_fs = empty_fs, mc_sockets = no_sockets, mc_daemon = None\<rparr>"

definition sample_host :: host where
  "sample_host = \<lparr>ho_home = Some ''/h'', ho_temp = ''/t''\<rparr>"

definition sample_hs :: hs_env where
  "sample_hs = \<lparr>he_deadline = True, he_creds = Some \<lparr>pc_UID = 7, pc_PID = 9\<rparr>, he_clear = True, he_uid = 7, he_pid = 1,
     he_ppid = (\<lambda>p. None), he_rand = replicate 16 (CHR ''r''), he_now = 0\<rparr>"

lemma sample_hs_simps [simp]:
  "he_deadline sample_hs" "he_creds sample_hs = Some \<lparr>pc_UID = 7, pc_PID = 9\<rparr>" "he_clear sample_hs"
  "generateClientID (he_rand sample_hs) = Some (hex_encode (replicate 16 (CHR ''r'')))"
  by (simp_all add: sample_hs_def generateClientID_def clientIDSize_def)

definition sample_start :: start_env where
  "sample_start = \<lparr>se_rand = replicate 32 (CHR ''t''), se_executable = Some ''/app'', se_starts = True,
     se_clock = \<lparr>ck_now = 0, ck_late = (\<lambda>n. 0)\<rparr>\<rparr>"

lemma sample_start_rand: "se_rand sample_start = replicate 32 (CHR ''t'')"
  by (simp add: sample_start_def)

definition sample_config :: "unit config" where
  "sample_config = resolveConfig sample_host (newConfig [])"

lemma sample_config_paths:
  "path_of (Dir (cg_socket sample_config)) = [''h'', ''.wmux'', ''default'']"
  "path_of (cg_dataDir sample_config) = [''h'', ''.wmux'', ''default'', ''sessions'']"
  "path_of (cg_tokenPath sample_config) = [''h'', ''.wmux'', ''default'', ''daemon.token'']"
  "pid_path sample_config = [''h'', ''.wmux'', ''default'', ''wmux.pid'']"
  by code_simp+

lemma sample_files:
  fixes W :: cwire
  defines "f2 \<equiv> fs_put [''h'', ''.wmux'', ''default'', ''sessions''] DirN
     (fs_put [''h'', ''.wmux'', ''default''] DirN (fs_put [''h'', ''.wmux''] DirN (fs_put [''h''] DirN empty_fs)))"
  shows "MkdirAll [''h'', ''.wmux'', ''default''] empty_fs =
       (Inr (), fs_put [''h'', ''.wmux'', ''default''] DirN (fs_put [''h'', ''.wmux''] DirN (fs_put [''h''] DirN empty_fs)))"
    and "MkdirAll [''h'', ''.wmux'', ''default'', ''sessions'']
       (fs_put [''h'', ''.wmux'', ''default''] DirN (fs_put [''h'', ''.wmux''] DirN (fs_put [''h''] DirN empty_fs))) = (Inr (), f2)"
    and "\<exists>f3. Ensure (replicate 32 (CHR ''t'')) [''h'', ''.wmux'', ''default'', ''daemon.token''] f2 =
       (Inr (replicate 32 (CHR ''t'')), f3) \<and> fst (pid_written sample_denv sample_config f3) = Inr ()"
proof -
  have e: "fs_get empty_fs q = None" "fs_deny empty_fs = []" "fs_room empty_fs = []" for q by (simp_all add: empty_fs_def fs_get_def)
  show "MkdirAll [''h'', ''.wmux'', ''default''] empty_fs =
       (Inr (), fs_put [''h'', ''.wmux'', ''default''] DirN (fs_put [''h'', ''.wmux''] DirN (fs_put [''h''] DirN empty_fs)))"
    by (simp add: MkdirAll_def is_dir_def e)
  show "MkdirAll [''h'', ''.wmux'', ''default'', ''sessions'']
       (fs_put [''h'', ''.wmux'', ''default''] DirN (fs_put [''h'', ''.wmux''] DirN (fs_put [''h''] DirN empty_fs))) = (Inr (), f2)"
    by (simp add: MkdirAll_def is_dir_def e f2_def)
  have fine: "disk_fine f2" by (simp add: f2_def disk_fine_def e)
  let ?tp = "[''h'', ''.wmux'', ''default'', ''daemon.token'']" and ?tok = "replicate 32 (CHR ''t'')"
  have cc: "can_create ?tp f2" by (simp add: can_create_def is_dir_def f2_def e)
  have "LoadFromFile ?tp f2 = Inl (ErrLoad ErrNotExist)" by (simp add: LoadFromFile_def ReadFile_def f2_def e)
  moreover have "SaveToFile ?tok ?tp f2 = (Inr (), fs_put ?tp (FileN ?tok) (fs_put ?tp (FileN []) f2))"
    using cc by (simp add: SaveToFile_def WriteFile_fine [OF fine])
  ultimately have "Ensure ?tok ?tp f2 = (Inr ?tok, fs_put ?tp (FileN ?tok) (fs_put ?tp (FileN []) f2))"
    by (simp add: Ensure_def Generate_def TokenSize_def)
  moreover have "disk_fine (fs_put ?tp (FileN ?tok) (fs_put ?tp (FileN []) f2))" using fine by (simp add: disk_fine_def)
  then have "fst (pid_written sample_denv sample_config (fs_put ?tp (FileN ?tok) (fs_put ?tp (FileN []) f2))) = Inr ()"
    by (simp add: pid_written_def WritePIDFile_def WriteFile_fine sample_config_paths can_create_def is_dir_def f2_def e)
  ultimately show "\<exists>f3. Ensure ?tok ?tp f2 = (Inr ?tok, f3) \<and> fst (pid_written sample_denv sample_config f3) = Inr ()" by blast
qed

theorem auto_start_connects_witness:
  "is_ok (fst (client_New sample_denv sample_cwire sample_start
     (sdk_program sample_denv [] None sample_host 0 (map WithEmulatorFactory [()])) (\<lambda>n. (sample_hs, sample_hs)) sample_host ([] :: unit Option list) fresh_machine))"
proof -
  obtain f3 where f3: "Ensure (replicate 32 (CHR ''t'')) (path_of (cg_tokenPath sample_config))
      (fs_put [''h'', ''.wmux'', ''default'', ''sessions''] DirN
     (fs_put [''h'', ''.wmux'', ''default''] DirN (fs_put [''h'', ''.wmux''] DirN (fs_put [''h''] DirN empty_fs)))) =
       (Inr (replicate 32 (CHR ''t'')), f3)" "fst (pid_written sample_denv sample_config f3) = Inr ()"
    using sample_files(3) by (auto simp: sample_config_paths)
  have c: "sample_config = resolveConfig sample_host (newConfig [])" "cg_autoStart sample_config" "in_int64 (cg_maxScrollbackSize sample_config)"
    by (simp_all add: sample_config_def newConfig_def in_int64_def)
  have "case client_New sample_denv sample_cwire sample_start (sdk_program sample_denv [] None sample_host 0 (map WithEmulatorFactory [()]))
       (\<lambda>n. (sample_hs, sample_hs)) sample_host ([] :: unit Option list) fresh_machine of
      (Inl e, m') \<Rightarrow> False
    | (Inr i, m') \<Rightarrow> i = hex_encode (replicate 16 (CHR ''r'')) \<and> (\<exists>d. mc_daemon m' = Some d \<and> control_conn (hex_encode (replicate 16 (CHR ''r''))) (dm_server d) \<noteq> None \<and>
        (\<exists>a. (a, hex_encode (replicate 16 (CHR ''r'')), []) \<in> set (dm_forwards d)))"
    by (rule auto_start_connects [where exe = "''/app''" and b = 0, OF c _ _ _ f3(1) [folded sample_start_rand] f3(2) _ _ _ _ _ _ _ _ refl
          sample_hs_simps(1-3) sample_hs_simps(1-4)])
       (use sample_files(1,2) in \<open>simp_all add: fresh_machine_def no_sockets_def dial_socket_def sample_config_paths metaFileName_def
        value_option_def socketPollInterval_def startTimeout_def sample_start_def\<close>)
  then show ?thesis by (auto split: prod.splits sum.splits)
qed

text \<open>\<^verbatim>\<open>Autodaemonize\<close> takes any socket file for a started daemon: a file that a dead daemon left behind makes
it return at once, although nobody can be dialed there.\<close>

lemma autodaemonize_stale_socket:
  assumes "os_executable os = Some exe" "os_starts os" "os_releases os" "0 < timeout"
    and "os_sockets os (exe # BuildDaemonArgs sp pf ll) = K"
    and "gm_get (so_files (K (ck_now (os_clock os)))) (path_of sp) = Some l" "\<And>t. l \<notin> set (so_open (K t))"
  shows "Autodaemonize os sp pf ll timeout = Inr () \<and> dial_socket (path_of sp) (K (ck_now (os_clock os))) = None"
proof -
  have "poll (ck_late (os_clock os)) (\<lambda>t. gm_get (so_files (K t)) (path_of sp) \<noteq> None)
      (ck_now (os_clock os) + timeout) 0 (ck_now (os_clock os))"
    using assms(4,6) by (subst poll.simps) simp
  with assms show ?thesis by (simp add: Autodaemonize_def WaitForSocket_def Let_def dial_socket_def)
qed

text \<open>It never answers that the daemon is there without having seen the file in time.\<close>

lemma autodaemonize_sound:
  assumes "Autodaemonize os sp pf ll timeout = Inr ()"
  shows "\<exists>exe t. os_executable os = Some exe \<and> ck_now (os_clock os) \<le> t \<and> t < ck_now (os_clock os) + timeout \<and>
     gm_get (so_files (os_sockets os (exe # BuildDaemonArgs sp pf ll) t)) (path_of sp) \<noteq> None"
  using assms
  by (auto simp: Autodaemonize_def WaitForSocket_def Let_def split: option.splits if_splits sum.splits dest!: poll_sound)

end
