(* ===== verification/Tmux.thy ===== *)
theory Tmux
  imports AutoStart
begin

text \<open>
  The tmux shim (\<^verbatim>\<open>cmd/wmux-tmux/main.go\<close>): tmux command lines turned into calls of the Go client. A command
  runs on a machine with its daemon, through the client of \<open>AutoStart\<close> and \<open>ClientApi\<close>; its result is an
  exit code, what it prints and the errors it reports. The usage text and the wording of the error
  messages are left out.
\<close>

section \<open>The process\<close>

record 'e tmux_env =
  tx_denv :: "'e denv"
  tx_json :: cwire
  tx_start :: start_env
  tx_program :: "'e program"
  tx_hs :: "nat \<Rightarrow> hs_env \<times> hs_env"
  tx_host :: host
  tx_getenv :: "bytes \<Rightarrow> bytes"

datatype tmux_error = TxUsage | TxText bytes | TxUnsupported bytes | TxConnect new_error | TxApi api_error

record 'e tmux_result =
  tr_code :: int
  tr_out :: bytes
  tr_err :: "tmux_error list"
  tr_machine :: "'e machine"

definition tx_fail :: "tmux_error list \<Rightarrow> 'e machine \<Rightarrow> 'e tmux_result" where
  "tx_fail es m = \<lparr>tr_code = 1, tr_out = [], tr_err = es, tr_machine = m\<rparr>"

definition tx_ok :: "bytes \<Rightarrow> 'e machine \<Rightarrow> 'e tmux_result" where
  "tx_ok out m = \<lparr>tr_code = 0, tr_out = out, tr_err = [], tr_machine = m\<rparr>"

text \<open>A request of the connected client \<open>cid\<close>, answered by the daemon of the machine.\<close>

definition machine_call :: "'e denv \<Rightarrow> bytes \<Rightarrow> 'e machine call" where
  "machine_call env cid t p m =
     (case mc_daemon m of
        None \<Rightarrow> (Inl ErrConnectionClosed, m)
      | Some d \<Rightarrow> (case daemon_rpc env cid t p d of (r, d') \<Rightarrow> (r, m\<lparr>mc_daemon := Some d'\<rparr>)))"

definition tx_options :: "'e tmux_env \<Rightarrow> unit Option list" where
  "tx_options env =
     (let ns = tx_getenv env ''WMUX_NAMESPACE'' in if ns \<noteq> [] then [WithNamespace ns] else [])"

definition newClient :: "'e tmux_env \<Rightarrow> 'e machine \<Rightarrow> (new_error + bytes) \<times> 'e machine" where
  "newClient env m =
     client_New (tx_denv env) (tx_json env) (tx_start env) (tx_program env) (tx_hs env) (tx_host env) (tx_options env) m"

section \<open>Flags\<close>

text \<open>The flags of \<^verbatim>\<open>new-session\<close>: name, columns, rows; \<open>None\<close> is \<^verbatim>\<open>-s\<close> without a name.\<close>

fun new_flags :: "bytes list \<Rightarrow> bytes \<times> int \<times> int \<Rightarrow> (bytes \<times> int \<times> int) option" where
  "new_flags [] (name, cols, rows) = Some (name, cols, rows)"
| "new_flags [a] (name, cols, rows) = (if a = ''-s'' then None else Some (name, cols, rows))"
| "new_flags (a # v # rest) (name, cols, rows) =
     (if a = ''-d'' then new_flags (v # rest) (name, cols, rows)
      else if a = ''-s'' then new_flags rest (v, cols, rows)
      else if a = ''-x'' then new_flags rest (name, if snd (Atoi v) = None then fst (Atoi v) else cols, rows)
      else if a = ''-y'' then new_flags rest (name, cols, if snd (Atoi v) = None then fst (Atoi v) else rows)
      else new_flags (v # rest) (name, cols, rows))"

text \<open>The leading \<^verbatim>\<open>-t NAME\<close> pairs of \<^verbatim>\<open>send-keys\<close>; the rest are the keys.\<close>

fun send_target :: "bytes list \<Rightarrow> bytes \<Rightarrow> bytes \<times> bytes list" where
  "send_target (a # v # rest) target = (if a = ''-t'' then send_target rest v else (target, a # v # rest))"
| "send_target as target = (target, as)"

fun capture_flags :: "bytes list \<Rightarrow> bytes \<times> bool \<Rightarrow> bytes \<times> bool" where
  "capture_flags [] (target, print) = (target, print)"
| "capture_flags [a] (target, print) = (target, print \<or> a = ''-p'')"
| "capture_flags (a # v # rest) (target, print) =
     (if a = ''-t'' then capture_flags rest (v, print)
      else capture_flags (v # rest) (target, print \<or> a = ''-p''))"

text \<open>\<^verbatim>\<open>kill-session\<close> and \<^verbatim>\<open>has-session\<close> take the last \<^verbatim>\<open>-t NAME\<close>, wherever it is.\<close>

fun scan_target :: "bytes list \<Rightarrow> bytes \<Rightarrow> bytes" where
  "scan_target (a # v # rest) target = (if a = ''-t'' then scan_target rest v else scan_target (v # rest) target)"
| "scan_target as target = target"

section \<open>Keys\<close>

text \<open>
  \<^verbatim>\<open>strings.NewReplacer\<close> with non-empty old strings: at each position the first pair, in the order
  given, whose old string is there; the text is not scanned again.
\<close>

function replace_keys :: "(bytes \<times> bytes) list \<Rightarrow> bytes \<Rightarrow> bytes" where
  "replace_keys pairs [] = []"
| "replace_keys pairs (c # s) =
     (case find (\<lambda>(old, new). prefix old (c # s)) pairs of
        None \<Rightarrow> c # replace_keys pairs s
      | Some (old, new) \<Rightarrow> new @ replace_keys pairs (drop (length old - 1) s))"
  by pat_completeness auto
termination
  by (relation "measure (\<lambda>(pairs, s). length s)") auto

definition key_names :: "(bytes \<times> bytes) list" where
  "key_names =
     [(''Enter'', [NL]), (''C-c'', [CHR 0x03]), (''C-d'', [CHR 0x04]), (''C-z'', [CHR 0x1A]), (''C-l'', [CHR 0x0C]),
      (''Escape'', [CHR 0x1B]), (''Tab'', [CHR 0x09]), (''Space'', '' ''), (''BSpace'', [CHR 0x7F])]"

definition translateKeys :: "bytes \<Rightarrow> bytes" where
  "translateKeys keys = replace_keys key_names keys"

fun join_space :: "bytes list \<Rightarrow> bytes" where
  "join_space [] = []"
| "join_space [s] = s"
| "join_space (s # t # ss) = s @ '' '' @ join_space (t # ss)"

section \<open>Commands\<close>

definition cmdNewSession :: "'e tmux_env \<Rightarrow> bytes list \<Rightarrow> 'e machine \<Rightarrow> 'e tmux_result" where
  "cmdNewSession env args m =
     (case new_flags args ([], 80, 24) of
        None \<Rightarrow> tx_fail [TxText ''-s requires a session name''] m
      | Some (name, cols, rows) \<Rightarrow>
          if name = [] then tx_fail [TxText ''new-session requires -s NAME''] m
          else case newClient env m of
                 (Inl e, m1) \<Rightarrow> tx_fail [TxConnect e] m1
               | (Inr cid, m1) \<Rightarrow>
                   let shell = (if tx_getenv env ''SHELL'' = [] then ''/bin/sh'' else tx_getenv env ''SHELL'') in
                   (case Client_Create (tx_json env) (machine_call (tx_denv env) cid) name
                       \<lparr>pp_Shell = shell, pp_Args = [], pp_Cols = cols, pp_Rows = rows, pp_Cwd = [], pp_Env = []\<rparr> m1 of
                      (Inl e, m2) \<Rightarrow> tx_fail [TxApi e] m2
                    | (Inr i, m2) \<Rightarrow> tx_ok [] m2))"

definition cmdSendKeys :: "'e tmux_env \<Rightarrow> bytes list \<Rightarrow> 'e machine \<Rightarrow> 'e tmux_result" where
  "cmdSendKeys env args m =
     (case send_target args [] of
        (target, rest) \<Rightarrow>
          if target = [] then tx_fail [TxText ''send-keys requires -t NAME''] m
          else
            let keys = join_space rest in
            if keys = [] then tx_ok [] m
            else case newClient env m of
                   (Inl e, m1) \<Rightarrow> tx_fail [TxConnect e] m1
                 | (Inr cid, m1) \<Rightarrow>
                     (case Client_Exec (tx_json env) (machine_call (tx_denv env) cid) target (translateKeys keys) [WithNewline False] m1 of
                        (Inl e, m2) \<Rightarrow> tx_fail [TxApi e] m2
                      | (Inr u, m2) \<Rightarrow> tx_ok [] m2))"

definition cmdCapturePane :: "'e tmux_env \<Rightarrow> bytes list \<Rightarrow> 'e machine \<Rightarrow> 'e tmux_result" where
  "cmdCapturePane env args m =
     (case capture_flags args ([], False) of
        (target, printMode) \<Rightarrow>
          if target = [] then tx_fail [TxText ''capture-pane requires -t NAME''] m
          else if \<not> printMode then tx_fail [TxText ''capture-pane requires -p flag''] m
          else case newClient env m of
                 (Inl e, m1) \<Rightarrow> tx_fail [TxConnect e] m1
               | (Inr cid, m1) \<Rightarrow>
                   (case Client_Attach (tx_json env) (machine_call (tx_denv env) cid) target m1 of
                      (Inl e, m2) \<Rightarrow> tx_fail [TxApi e] m2
                    | (Inr r, m2) \<Rightarrow>
                        tx_ok (case ar_Replay r of None \<Rightarrow> [] | Some d \<Rightarrow> d)
                          (snd (Client_Detach (tx_json env) (machine_call (tx_denv env) cid) target m2))))"

definition cmdKillSession :: "'e tmux_env \<Rightarrow> bytes list \<Rightarrow> 'e machine \<Rightarrow> 'e tmux_result" where
  "cmdKillSession env args m =
     (let target = scan_target args [] in
      if target = [] then tx_fail [TxText ''kill-session requires -t NAME''] m
      else case newClient env m of
             (Inl e, m1) \<Rightarrow> tx_fail [TxConnect e] m1
           | (Inr cid, m1) \<Rightarrow>
               (case Client_Kill (tx_json env) (machine_call (tx_denv env) cid) target m1 of
                  (Inl e, m2) \<Rightarrow> tx_fail [TxApi e] m2
                | (Inr u, m2) \<Rightarrow> tx_ok [] m2))"

definition session_line :: "SessionInfo \<Rightarrow> bytes" where
  "session_line s =
     si_ID s @ '': 1 windows ('' @ si_State s @ '') ['' @ Itoa (si_Cols s) @ ''x'' @ Itoa (si_Rows s) @ '']'' @ [NL]"

definition cmdListSessions :: "'e tmux_env \<Rightarrow> 'e machine \<Rightarrow> 'e tmux_result" where
  "cmdListSessions env m =
     (case newClient env m of
        (Inl e, m1) \<Rightarrow> tx_fail [TxConnect e] m1
      | (Inr cid, m1) \<Rightarrow>
          (case Client_List (tx_json env) (machine_call (tx_denv env) cid) [] m1 of
             (Inl e, m2) \<Rightarrow> tx_fail [TxApi e] m2
           | (Inr sessions, m2) \<Rightarrow> tx_ok (concat (map session_line sessions)) m2))"

definition cmdHasSession :: "'e tmux_env \<Rightarrow> bytes list \<Rightarrow> 'e machine \<Rightarrow> 'e tmux_result" where
  "cmdHasSession env args m =
     (let target = scan_target args [] in
      if target = [] then tx_fail [TxText ''has-session requires -t NAME''] m
      else case newClient env m of
             (Inl e, m1) \<Rightarrow> tx_fail [] m1
           | (Inr cid, m1) \<Rightarrow>
               (case Client_Info (tx_json env) (machine_call (tx_denv env) cid) target m1 of
                  (Inl e, m2) \<Rightarrow> tx_fail [] m2
                | (Inr i, m2) \<Rightarrow> tx_ok [] m2))"

definition tmux_main :: "'e tmux_env \<Rightarrow> bytes list \<Rightarrow> 'e machine \<Rightarrow> 'e tmux_result" where
  "tmux_main env args m =
     (case args of
        [] \<Rightarrow> tx_fail [TxUsage] m
      | cmd # rest \<Rightarrow>
          if cmd = ''new-session'' then cmdNewSession env rest m
          else if cmd = ''send-keys'' then cmdSendKeys env rest m
          else if cmd = ''capture-pane'' then cmdCapturePane env rest m
          else if cmd = ''kill-session'' then cmdKillSession env rest m
          else if cmd = ''list-sessions'' then cmdListSessions env m
          else if cmd = ''has-session'' then cmdHasSession env rest m
          else tx_fail [TxUnsupported cmd, TxUsage] m)"

text \<open>
  The shim as the program that its own client starts: the executable is the shim itself, so the
  started process is \<open>tmux_main\<close> on the daemon's command line, and it never serves.
\<close>

definition tmux_program :: "'e tmux_env \<Rightarrow> nat \<Rightarrow> 'e program" where
  "tmux_program env boot =
     \<lparr>pg_run = (\<lambda>args (f, k).
        case tmux_main env (drop 1 args) \<lparr>mc_fs = f, mc_sockets = k, mc_daemon = None\<rparr> of
          r \<Rightarrow> (None, mc_fs (tr_machine r), mc_sockets (tr_machine r))),
      pg_boot = boot\<rparr>"

section \<open>Keys and text\<close>

text \<open>Text that contains no key name is sent as it is.\<close>

lemma translateKeys_plain:
  assumes "\<And>old new. (old, new) \<in> set key_names \<Longrightarrow> \<not> sublist old s"
  shows "translateKeys s = s"
  using assms
proof (induction s)
  case (Cons c s)
  have "find (\<lambda>(old, new). prefix old (c # s)) key_names = None"
    using Cons.prems by (auto simp: find_None_iff dest: prefix_imp_sublist)
  moreover have "translateKeys s = s" using Cons by (meson sublist_Cons_right)
  ultimately show ?case by (simp add: translateKeys_def)
qed (simp add: translateKeys_def)

text \<open>A key name inside a word is taken for the key.\<close>

lemma translateKeys_inside_word: "translateKeys ''echo Enterprise'' = ''echo '' @ [NL] @ ''prise''"
  by code_simp

section \<open>The shim and its daemon\<close>

definition tx_config :: "'e tmux_env \<Rightarrow> unit config" where
  "tx_config env = resolveConfig (tx_host env) (newConfig (tx_options env))"

lemma tx_config_autoStart: "cg_autoStart (tx_config env)"
  by (simp add: tx_config_def tx_options_def Let_def newConfig_def WithNamespace_def)

lemma tmux_main_sentinel: "tmux_main env (daemonSentinel # args) m = tx_fail [TxUnsupported daemonSentinel, TxUsage] m"
  by (simp add: tmux_main_def daemonSentinel_def)

lemma tmux_program_exits:
  "pg_run (tmux_program env boot) (exe # buildDaemonArgs cfg) (f, k) = (None, f, k)"
  by (simp add: tmux_program_def buildDaemonArgs_def tmux_main_sentinel tx_fail_def)

text \<open>A program that exits leaves the socket as it was, so the client that started it gives up.\<close>

lemma startDaemon_exits:
  assumes "dial_socket (path_of (cg_socket cfg)) (mc_sockets m) = None"
    and "\<And>exe f k. pg_run prog (exe # buildDaemonArgs cfg) (f, k) = (None, f, k)"
  shows "\<exists>e m'. startDaemon se prog cfg m = (Inl e, m') \<and> mc_sockets m' = mc_sockets m \<and> mc_daemon m' = mc_daemon m"
proof -
  have "\<not> poll late (\<lambda>t. dial_socket (path_of (cg_socket cfg)) (mc_sockets m) \<noteq> None) dl n now" for late dl n now
    using assms(1) poll_sound [of late "\<lambda>t. dial_socket (path_of (cg_socket cfg)) (mc_sockets m) \<noteq> None" dl n now] by auto
  with assms(2) show ?thesis
    by (auto simp: startDaemon_def Let_def split: prod.splits sum.splits option.splits)
qed

lemma newClient_exits:
  assumes "dial_socket (path_of (cg_socket (tx_config env))) (mc_sockets m) = None" and "tx_program env = tmux_program env' boot"
  shows "\<exists>e m'. newClient env m = (Inl e, m') \<and> mc_sockets m' = mc_sockets m \<and> mc_daemon m' = mc_daemon m"
proof -
  have "\<exists>e. connect_machine (tx_denv env) (tx_json env) (tx_hs env 0) (tx_config env) m = (Inl e, m)"
    using assms(1) by (simp add: connect_machine_def split: sum.split)
  moreover obtain e m' where "startDaemon (tx_start env) (tx_program env) (tx_config env) m = (Inl e, m')"
      "mc_sockets m' = mc_sockets m" "mc_daemon m' = mc_daemon m"
    using startDaemon_exits [OF assms(1), of "tx_program env" "tx_start env"] assms(2) by (auto simp: tmux_program_exits)
  ultimately show ?thesis
    using tx_config_autoStart [of env] by (auto simp: newClient_def client_New_def Let_def simp flip: tx_config_def)
qed

section \<open>Properties\<close>

text \<open>(C27) The shim cannot start a daemon: its client starts the running executable with the daemon's
command line, and the shim's own \<^verbatim>\<open>main\<close> rejects that as an unsupported command. So when nothing
listens on the socket of its namespace, every command fails with exit code 1, without a daemon or a
socket having appeared, except \<^verbatim>\<open>send-keys\<close> without keys, which does nothing.\<close>

theorem tmux_never_starts_daemon:
  fixes env :: "'e tmux_env"
  assumes "dial_socket (path_of (cg_socket (tx_config env))) (mc_sockets m) = None" and "tx_program env = tmux_program env' boot"
    and "\<And>rest. args = ''send-keys'' # rest \<Longrightarrow> join_space (snd (send_target rest [])) \<noteq> []"
  shows "tr_code (tmux_main env args m) = 1 \<and> mc_daemon (tr_machine (tmux_main env args m)) = mc_daemon m \<and>
     mc_sockets (tr_machine (tmux_main env args m)) = mc_sockets m"
proof -
  define bad where "bad r \<longleftrightarrow> tr_code r = 1 \<and> mc_daemon (tr_machine r) = mc_daemon m \<and> mc_sockets (tr_machine r) = mc_sockets m" for r :: "'e tmux_result"
  obtain e m' where n: "newClient env m = (Inl e, m')" "mc_sockets m' = mc_sockets m" "mc_daemon m' = mc_daemon m"
    using newClient_exits [OF assms(1,2)] by blast
  have f: "bad (tx_fail es m)" "bad (tx_fail es m')" for es using n by (simp_all add: bad_def tx_fail_def)
  have "bad (cmdNewSession env rest m)" "bad (cmdCapturePane env rest m)" "bad (cmdKillSession env rest m)"
    "bad (cmdListSessions env m)" "bad (cmdHasSession env rest m)" for rest
    by (simp_all add: cmdNewSession_def cmdCapturePane_def cmdKillSession_def cmdListSessions_def cmdHasSession_def Let_def n(1) f
        split: option.split prod.split)
  moreover have "join_space (snd (send_target rest [])) \<noteq> [] \<Longrightarrow> bad (cmdSendKeys env rest m)" for rest
    by (cases "send_target rest []") (simp add: cmdSendKeys_def Let_def n(1) f)
  ultimately have "bad (tmux_main env args m)" using assms(3) f by (cases args) (simp_all add: tmux_main_def)
  then show ?thesis by (simp add: bad_def)
qed

text \<open>A daemon that lets the shim in: dialed on the socket of the namespace, with the token the shim reads.\<close>

definition hs_passes :: "hs_env \<Rightarrow> Server \<Rightarrow> bool" where
  "hs_passes e s \<longleftrightarrow> he_deadline e \<and> he_clear e \<and>
     (case he_creds e of None \<Rightarrow> False | Some cr \<Rightarrow> checkAutomationMode e cr s = Inr ())"

definition serves :: "'e tmux_env \<Rightarrow> 'e machine \<Rightarrow> 'e daemon \<Rightarrow> bool" where
  "serves env m d \<longleftrightarrow>
     dial_socket (path_of (cg_socket (tx_config env))) (mc_sockets m) \<noteq> None \<and> mc_daemon m = Some d \<and>
     sv_listening (dm_server d) \<and> dm_eventBus d \<noteq> None \<and>
     LoadFromFile (path_of (cg_tokenPath (tx_config env))) (mc_fs m) = Inr (sv_token (dm_server d)) \<and>
     hs_passes (fst (tx_hs env 0)) (dm_server d) \<and> hs_passes (snd (tx_hs env 0)) (dm_server d) \<and>
     generateClientID (he_rand (fst (tx_hs env 0))) \<noteq> None"

lemma newClient_served:
  assumes "serves env m d"
  shows "\<exists>cid d' c. newClient env m = (Inr cid, m\<lparr>mc_daemon := Some d'\<rparr>) \<and> control_conn cid (dm_server d') = Some c \<and>
     conn_healthy c \<and> dm_svc d' = dm_svc d"
proof -
  obtain e1 e2 where e: "tx_hs env 0 = (e1, e2)" by fastforce
  obtain cr1 cr2 cid b where *: "he_creds e1 = Some cr1" "he_creds e2 = Some cr2" "generateClientID (he_rand e1) = Some cid"
      "dm_eventBus d = Some b" "he_deadline e1" "he_clear e1" "checkAutomationMode e1 cr1 (dm_server d) = Inr ()"
      "he_deadline e2" "he_clear e2" "checkAutomationMode e2 cr2 (dm_server d) = Inr ()"
    using assms e by (auto simp: serves_def hs_passes_def split: option.splits)
  obtain d' c where "connect_machine (tx_denv env) (tx_json env) (e1, e2) (tx_config env) m = (Inr cid, m\<lparr>mc_daemon := Some d'\<rparr>)"
      "control_conn cid (dm_server d') = Some c" "conn_healthy c" "dm_svc d' = dm_svc d"
    using connect_machine_ok [of "tx_config env" m d b e1 cr1 e2 cr2 cid "tx_denv env" "tx_json env"] assms * by (auto simp: serves_def)
  with e show ?thesis by (auto simp: newClient_def client_New_def Let_def simp flip: tx_config_def)
qed

text \<open>A call that changes nothing but the session service, through the machine.\<close>

lemma machine_unit_call:
  assumes "mc_daemon m = Some d" and "control_conn cid (dm_server d) = Some c" "conn_healthy c" "length p \<le> MaxPayloadSize"
    and "dispatch env cid (request_frame t p) d = unit_reply env cid rs d" "readable env W (fst rs)"
  shows "\<exists>d'. unit_call W (machine_call env cid) t p m = (api_result (fst rs), m\<lparr>mc_daemon := Some d'\<rparr>) \<and> dm_svc d' = snd rs"
proof -
  have "unit_call W (machine_call env cid) t p m =
      (case unit_call W (daemon_rpc env cid) t p d of (r, d') \<Rightarrow> (r, m\<lparr>mc_daemon := Some d'\<rparr>))"
    using assms(1) by (auto simp: unit_call_def machine_call_def split: prod.split sum.split)
  then show ?thesis using unit_call_refines [OF assms(2-6)] by (auto split: prod.splits)
qed

text \<open>(C26) Keys sent through the shim arrive in the session: against a daemon that lets it in, \<^verbatim>\<open>send-keys -t
NAME KEYS...\<close> writes the keys, joined by blanks and with the key names replaced, to the terminal of the
named session as one input, nothing added at the end, and does nothing else to the sessions; it
exits 0 exactly when the service accepted the input.\<close>

theorem tmux_send_keys:
  fixes env :: "'e tmux_env"
  assumes "serves env m d" and "send_target args [] = (target, keys)" "target \<noteq> []" "join_space keys \<noteq> []"
    and "q = \<lparr>xq_SessionID = target, xq_Input = translateKeys (join_space keys), xq_Newline = False\<rparr>"
    and "wj_exec (de_wire (tx_denv env)) (kw_exec (tx_json env) q) = Some q" "length (kw_exec (tx_json env) q) \<le> MaxPayloadSize"
    and "rs = sm_WriteInput target (translateKeys (join_space keys)) (dm_svc d)" "readable (tx_denv env) (tx_json env) (fst rs)"
  shows "case tmux_main env (''send-keys'' # args) m of r \<Rightarrow>
     (tr_code r = 0 \<longleftrightarrow> is_ok (fst rs)) \<and> tr_out r = [] \<and> (\<exists>d'. mc_daemon (tr_machine r) = Some d' \<and> dm_svc d' = snd rs)"
proof -
  obtain cid d1 c where n: "newClient env m = (Inr cid, m\<lparr>mc_daemon := Some d1\<rparr>)" "control_conn cid (dm_server d1) = Some c"
      "conn_healthy c" "dm_svc d1 = dm_svc d"
    using newClient_served [OF assms(1)] by blast
  have h: "dispatch (tx_denv env) cid (request_frame MsgExec (kw_exec (tx_json env) q)) d1 = unit_reply (tx_denv env) cid rs d1"
    using assms(6,8) n(4) by (simp add: dispatch_def request_frame_def Let_def msg_defs handleExec_def assms(5) exec_input_def)
  obtain d' where "unit_call (tx_json env) (machine_call (tx_denv env) cid) MsgExec (kw_exec (tx_json env) q) (m\<lparr>mc_daemon := Some d1\<rparr>) =
      (api_result (fst rs), m\<lparr>mc_daemon := Some d1, mc_daemon := Some d'\<rparr>)" "dm_svc d' = snd rs"
    using machine_unit_call [of "m\<lparr>mc_daemon := Some d1\<rparr>", OF _ n(2,3) assms(7) h assms(9)] by auto
  then have x: "Client_Exec (tx_json env) (machine_call (tx_denv env) cid) target (translateKeys (join_space keys)) [WithNewline False]
      (m\<lparr>mc_daemon := Some d1\<rparr>) = (api_result (fst rs), m\<lparr>mc_daemon := Some d'\<rparr>)" "dm_svc d' = snd rs"
    by (simp_all add: Client_Exec_def WithNewline_def assms(5))
  then show ?thesis
    using assms(2-4) n(1)
    by (cases "fst rs") (simp_all add: tmux_main_def cmdSendKeys_def tx_ok_def tx_fail_def api_result_def)
qed

text \<open>\<^verbatim>\<open>has-session\<close> tells the truth: against a daemon that lets it in, it exits 0 exactly when a session of
that name is registered, prints nothing, and leaves the sessions as they are.\<close>

lemma tmux_has_session:
  fixes env :: "'e tmux_env"
  assumes "serves env m d" and "scan_target args [] = target" "target \<noteq> []"
    and "wj_sid (de_wire (tx_denv env)) (kw_sid (tx_json env) target) = Some target" "length (kw_sid (tx_json env) target) \<le> MaxPayloadSize"
    and "readable (tx_denv env) (tx_json env) (sm_Get (dm_svc d) target)"
    and "\<And>i. sm_Get (dm_svc d) target = Inr i \<Longrightarrow>
       kw_info (tx_json env) (wj_resp (de_wire (tx_denv env)) (RSession i)) = Some i \<and>
       length (wj_resp (de_wire (tx_denv env)) (RSession i)) \<le> MaxPayloadSize"
  shows "case tmux_main env (''has-session'' # args) m of r \<Rightarrow>
     (tr_code r = 0 \<longleftrightarrow> find_session (dm_svc d) target \<noteq> None) \<and> tr_out r = [] \<and> tr_err r = [] \<and>
     (\<exists>d'. mc_daemon (tr_machine r) = Some d' \<and> dm_svc d' = dm_svc d)"
proof -
  let ?p = "kw_sid (tx_json env) target" and ?env = "tx_denv env" and ?W = "tx_json env"
  obtain cid d1 c where n: "newClient env m = (Inr cid, m\<lparr>mc_daemon := Some d1\<rparr>)" "control_conn cid (dm_server d1) = Some c"
      "conn_healthy c" "dm_svc d1 = dm_svc d"
    using newClient_served [OF assms(1)] by blast
  have h: "dispatch ?env cid (request_frame MsgInfo ?p) d1 =
      (case sm_Get (dm_svc d) target of Inl e \<Rightarrow> err_reply ?env cid e d1 | Inr i \<Rightarrow> ok_reply ?env cid (Some (RSession i)) d1)"
    using assms(4) n(4) by (simp add: dispatch_def request_frame_def Let_def msg_defs handleInfo_def)
  define f where "f = (case sm_Get (dm_svc d) target of Inl e \<Rightarrow> errorFrame ?env e | Inr i \<Rightarrow> okFrame ?env (Some (RSession i)))"
  have "daemon_rpc ?env cid MsgInfo ?p d1 = (Inr f, dispatch ?env cid (request_frame MsgInfo ?p) d1)"
    by (rule daemon_rpc_answered [OF n(2,3) assms(5)])
       (use assms(6,7) in \<open>auto simp: h f_def err_reply_def ok_reply_def reply_def readable_def sendable_def errorFrame_def okFrame_def
         split: sum.split\<close>)
  then have rpc: "machine_call ?env cid MsgInfo ?p (m\<lparr>mc_daemon := Some d1\<rparr>) =
      (Inr f, m\<lparr>mc_daemon := Some (dispatch ?env cid (request_frame MsgInfo ?p) d1)\<rparr>)"
    by (simp add: machine_call_def)
  have svc: "dm_svc (dispatch ?env cid (request_frame MsgInfo ?p) d1) = dm_svc d"
    using n(4) by (simp add: h err_reply_def ok_reply_def reply_def split: sum.split)
  have "is_ok (parseSessionInfo ?W f) \<longleftrightarrow> is_ok (sm_Get (dm_svc d) target)"
    using assms(7) by (auto simp: f_def parseSessionInfo_def errorFrame_def okFrame_def msg_defs split: sum.split)
  also have "\<dots> \<longleftrightarrow> find_session (dm_svc d) target \<noteq> None"
    by (auto simp: sm_Get_def svc_Get_def wrap_err_def split: option.split sum.split)
  finally show ?thesis
    using assms(2,3) n(1) rpc svc
    by (cases "parseSessionInfo ?W f") (simp_all add: tmux_main_def cmdHasSession_def Client_Info_def tx_ok_def tx_fail_def Let_def)
qed

section \<open>Witnesses\<close>

definition tmux_env_of :: "'e denv \<Rightarrow> cwire \<Rightarrow> 'e program \<Rightarrow> 'e tmux_env" where
  "tmux_env_of env W prog =
     \<lparr>tx_denv = env, tx_json = W, tx_start = sample_start, tx_program = prog, tx_hs = (\<lambda>n. (sample_hs, sample_hs)),
      tx_host = sample_host, tx_getenv = (\<lambda>v. [])\<rparr>"

lemma tmux_env_simps [simp]:
  "tx_denv (tmux_env_of env W prog) = env" "tx_json (tmux_env_of env W prog) = W" "tx_program (tmux_env_of env W prog) = prog"
  "tx_hs (tmux_env_of env W prog) = (\<lambda>n. (sample_hs, sample_hs))" "tx_config (tmux_env_of env W prog) = sample_config"
  by (simp_all add: tmux_env_of_def tx_config_def tx_options_def sample_config_def)

definition tmux_daemon :: "unit daemon" where
  "tmux_daemon = sample_daemon\<lparr>dm_server := NewServer (replicate 32 (CHR ''t'')) [], dm_eventBus := Some NewBus\<rparr>"

definition tmux_machine :: "unit machine" where
  "tmux_machine =
     \<lparr>mc_fs = \<lparr>fs_nodes = [([''h'', ''.wmux'', ''default'', ''daemon.token''], FileN (replicate 32 (CHR ''t'')))], fs_deny = [], fs_room = []\<rparr>,
      mc_sockets = snd (Listen True (path_of (cg_socket sample_config)) no_sockets), mc_daemon = Some tmux_daemon\<rparr>"

lemma tmux_machine_serves: "serves (tmux_env_of env W prog) tmux_machine tmux_daemon"
  by (simp add: serves_def hs_passes_def tmux_machine_def tmux_daemon_def Listen_def no_sockets_def dial_socket_def Let_def gm_get_Cons
      NewServer_def checkAutomationMode_def sample_config_paths LoadFromFile_def ReadFile_def fs_get_def TokenSize_def)

definition exec_denv :: "unit denv" where
  "exec_denv = sample_denv\<lparr>de_wire := sample_wire\<lparr>wj_exec := \<lambda>p. Some \<lparr>xq_SessionID = ''a'', xq_Input = p, xq_Newline = False\<rparr>\<rparr>\<rparr>"

definition exit_program :: "'e program" where
  "exit_program = \<lparr>pg_run = (\<lambda>args fk. (None, fk)), pg_boot = 0\<rparr>"

definition info_cwire :: cwire where
  "info_cwire = sample_cwire\<lparr>kw_exec := xq_Input, kw_info := \<lambda>p. case sm_Get sample_svc ''a'' of Inl e \<Rightarrow> None | Inr i \<Rightarrow> Some i\<rparr>"

theorem tmux_never_starts_daemon_witness:
  "let shim = tmux_env_of sample_denv sample_cwire exit_program;
       env = tmux_env_of sample_denv sample_cwire (tmux_program shim 0)
   in tr_code (tmux_main env [''list-sessions''] fresh_machine) = 1"
  unfolding Let_def
  using tmux_never_starts_daemon [OF _ tmux_env_simps(3), where m = "fresh_machine :: unit machine" and args = "[''list-sessions'']"]
  by (simp add: fresh_machine_def no_sockets_def dial_socket_def)

theorem tmux_send_keys_witness:
  "tr_code (tmux_main (tmux_env_of exec_denv info_cwire exit_program) [''send-keys'', ''-t'', ''a'', ''ls'', ''Enter''] tmux_machine) = 0"
proof -
  obtain ms where ms: "find_session sample_svc ''a'' = Some (0, ms)" "s_State (ms_session ms) = StateAlive"
      "pr_open (ms_process ms)" "pr_fault (ms_process ms) = None"
    using sample_find by auto
  have t: "translateKeys ''ls Enter'' = ''ls '' @ [NL]" by code_simp
  have svc: "dm_svc tmux_daemon = sample_svc" by (simp add: tmux_daemon_def)
  have w: "fst (sm_WriteInput ''a'' (''ls '' @ [NL]) sample_svc) = Inr ()"
    using ms by (simp add: sm_WriteInput_def svc_WriteInput_def wrap_err_def Process_Write_def proc_io_error_def)
  show ?thesis
    using tmux_send_keys [OF tmux_machine_serves, of "[''-t'', ''a'', ''ls'', ''Enter'']" "''a''" "[''ls'', ''Enter'']", OF _ _ _ refl _ _ refl,
        of exec_denv info_cwire exit_program] w
    by (simp add: t svc exec_denv_def readable_def MaxPayloadSize_def info_cwire_def)
qed

end
