(* ===== verification/CharmVt.thy ===== *)
theory CharmVt
  imports Session ClientConfig
begin

text \<open>
  The terminal emulator backend (\<^verbatim>\<open>addons/charmvt\<close>: emulator.go, render.go, options.go, backend.go) and the
  adapter by which the session service uses it (\<^verbatim>\<open>pkg/client/adapter.go\<close>). The terminal itself and its
  styles come from other packages (\<^verbatim>\<open>charmbracelet/x/vt\<close>, \<^verbatim>\<open>ultraviolet\<close>): they are the record \<open>vt\<close>. A cell is its
  content and its style. The goroutine that drains the terminal's replies keeps \<^verbatim>\<open>Write\<close> from blocking;
  here a write just returns.
\<close>

section \<open>The terminal library\<close>

datatype vt_event = VtBell | VtTitle bytes | VtWorkingDirectory bytes | VtAltScreen bool

record ('t, 'y) vt =
  vt_NewEmulator :: "int \<Rightarrow> int \<Rightarrow> 't"
  vt_SetScrollbackSize :: "int \<Rightarrow> 't \<Rightarrow> 't"
  vt_SetED2SavesScrollback :: "bool \<Rightarrow> 't \<Rightarrow> 't"
  vt_SetLogger :: "'t \<Rightarrow> 't"
  vt_Write :: "bytes \<Rightarrow> 't \<Rightarrow> vt_event list \<times> 't"
  vt_IsAltScreen :: "'t \<Rightarrow> bool"
  vt_ScrollbackLen :: "'t \<Rightarrow> nat"
  vt_ScrollbackCellAt :: "nat \<Rightarrow> nat \<Rightarrow> 't \<Rightarrow> (bytes \<times> 'y) option"
  vt_Render :: "'t \<Rightarrow> bytes"
  vt_ScrollRegion :: "'t \<Rightarrow> int \<times> int \<times> bool"
  vt_SavedCursor :: "'t \<Rightarrow> int \<times> int"
  vt_CursorPosition :: "'t \<Rightarrow> int \<times> int"
  vt_Resize :: "int \<Rightarrow> int \<Rightarrow> 't \<Rightarrow> 't"
  vt_Close :: "'t \<Rightarrow> bool \<times> 't"
  uv_zero :: 'y
  uv_IsZero :: "'y \<Rightarrow> bool"
  uv_Equal :: "'y \<Rightarrow> 'y \<Rightarrow> bool"
  uv_String :: "'y \<Rightarrow> bytes"

section \<open>Options (options.go)\<close>

record 'o Callbacks =
  cb_Bell :: "(bytes \<Rightarrow> 'o) option"
  cb_Title :: "(bytes \<Rightarrow> bytes \<Rightarrow> 'o) option"
  cb_WorkingDirectory :: "(bytes \<Rightarrow> bytes \<Rightarrow> 'o) option"
  cb_AltScreen :: "(bytes \<Rightarrow> bool \<Rightarrow> 'o) option"

datatype SnapshotScrollbackMode = SnapshotScrollbackAll | SnapshotScrollbackSinceLastClear

record 'o vtconfig =
  vc_scrollback :: int
  vc_scrollbackMode :: SnapshotScrollbackMode
  vc_callbacks :: "'o Callbacks option"
  vc_logger :: bool

definition defaultConfig :: "'o vtconfig" where
  "defaultConfig =
     \<lparr>vc_scrollback = 10000, vc_scrollbackMode = SnapshotScrollbackAll, vc_callbacks = None, vc_logger = False\<rparr>"

definition WithScrollbackSize :: "int \<Rightarrow> 'o vtconfig \<Rightarrow> 'o vtconfig" where
  "WithScrollbackSize lines c = c\<lparr>vc_scrollback := lines\<rparr>"

definition WithCallbacks :: "'o Callbacks \<Rightarrow> 'o vtconfig \<Rightarrow> 'o vtconfig" where
  "WithCallbacks cb c = c\<lparr>vc_callbacks := Some cb\<rparr>"

definition WithLogger :: "'o vtconfig \<Rightarrow> 'o vtconfig" where
  "WithLogger c = c\<lparr>vc_logger := True\<rparr>"

definition WithSnapshotScrollbackMode :: "SnapshotScrollbackMode \<Rightarrow> 'o vtconfig \<Rightarrow> 'o vtconfig" where
  "WithSnapshotScrollbackMode mode c = c\<lparr>vc_scrollbackMode := mode\<rparr>"

section \<open>Rendering the scrollback (render.go)\<close>

definition CRLF :: bytes where "CRLF = [CHR 0x0D, CHR 0x0A]"

definition SGR0 :: bytes where "SGR0 = [CHR 0x1B] @ ''[m''"

definition sgrForStyle :: "('t, 'y) vt \<Rightarrow> 'y \<Rightarrow> bytes" where
  "sgrForStyle V s = (if uv_IsZero V s then SGR0 else uv_String V s)"

text \<open>One cell: the line so far, the blanks held back, and the style in force.\<close>

definition render_cell :: "('t, 'y) vt \<Rightarrow> (bytes \<times> 'y) option \<Rightarrow> bytes \<times> nat \<times> 'y \<Rightarrow> bytes \<times> nat \<times> 'y" where
  "render_cell V cell = (\<lambda>(line, trailingSpaces, prevStyle).
     case cell of
       None \<Rightarrow> (line, Suc trailingSpaces, prevStyle)
     | Some (content, style) \<Rightarrow>
         if (content = [] \<or> content = '' '') \<and> uv_IsZero V style then (line, Suc trailingSpaces, prevStyle)
         else
           let line1 = (if trailingSpaces > 0 then line @ replicate trailingSpaces (CHR '' '') else line);
               (line2, prev') = (if \<not> uv_Equal V style prevStyle then (line1 @ sgrForStyle V style, style) else (line1, prevStyle))
           in (line2 @ (if content = [] then '' '' else content), 0, prev'))"

definition render_line :: "('t, 'y) vt \<Rightarrow> 't \<Rightarrow> nat \<Rightarrow> nat \<Rightarrow> bytes \<times> 'y \<times> bool \<Rightarrow> bytes \<times> 'y \<times> bool" where
  "render_line V t cols y = (\<lambda>(buf, prevStyle, first).
     let buf1 = (if \<not> first then buf @ CRLF else buf);
         (buf2, prev1) = (if \<not> uv_IsZero V prevStyle then (buf1 @ SGR0, uv_zero V) else (buf1, prevStyle));
         (line, trailingSpaces, prev2) = fold (\<lambda>x. render_cell V (vt_ScrollbackCellAt V x y t)) [0..<cols] ([], 0, prev1)
     in (buf2 @ line, prev2, False))"

definition renderScrollbackFrom :: "('t, 'y) vt \<Rightarrow> 't \<Rightarrow> nat \<Rightarrow> nat \<Rightarrow> bytes option" where
  "renderScrollbackFrom V t cols from =
     (let sbLen = vt_ScrollbackLen V t in
      if sbLen = 0 \<or> from \<ge> sbLen then None
      else case fold (render_line V t cols) [from..<sbLen] ([], uv_zero V, True) of
             (buf, prevStyle, first) \<Rightarrow> Some ((if \<not> uv_IsZero V prevStyle then buf @ SGR0 else buf) @ CRLF))"

section \<open>The emulator (emulator.go)\<close>

record ('t, 'o) vtemulator =
  em_term :: 't
  em_cols :: int
  em_scrollbackMode :: SnapshotScrollbackMode
  em_scrollbackBaseline :: nat
  em_callback :: "vt_event \<Rightarrow> 'o option"
  em_called :: "'o list"

text \<open>The callbacks of the terminal: each one is set only when the integrator gave it, and adds the session id.\<close>

fun adapt_callbacks :: "'o Callbacks option \<Rightarrow> bytes \<Rightarrow> vt_event \<Rightarrow> 'o option" where
  "adapt_callbacks None sid ev = None"
| "adapt_callbacks (Some cb) sid VtBell = map_option (\<lambda>fn. fn sid) (cb_Bell cb)"
| "adapt_callbacks (Some cb) sid (VtTitle title) = map_option (\<lambda>fn. fn sid title) (cb_Title cb)"
| "adapt_callbacks (Some cb) sid (VtWorkingDirectory dir) = map_option (\<lambda>fn. fn sid dir) (cb_WorkingDirectory cb)"
| "adapt_callbacks (Some cb) sid (VtAltScreen active) = map_option (\<lambda>fn. fn sid active) (cb_AltScreen cb)"

definition newEmulator :: "('t, 'y) vt \<Rightarrow> bytes \<Rightarrow> int \<Rightarrow> int \<Rightarrow> 'o vtconfig \<Rightarrow> ('t, 'o) vtemulator" where
  "newEmulator V sid cols rows cfg =
     (let t1 = vt_SetED2SavesScrollback V False (vt_SetScrollbackSize V (vc_scrollback cfg) (vt_NewEmulator V cols rows));
          t2 = (if vc_logger cfg then vt_SetLogger V t1 else t1)
      in \<lparr>em_term = t2, em_cols = cols, em_scrollbackMode = vc_scrollbackMode cfg, em_scrollbackBaseline = 0,
          em_callback = adapt_callbacks (vc_callbacks cfg) sid, em_called = []\<rparr>)"

definition ed2Seq :: bytes where "ed2Seq = [CHR 0x1B] @ ''[2J''"

definition em_Process :: "('t, 'y) vt \<Rightarrow> bytes \<Rightarrow> ('t, 'o) vtemulator \<Rightarrow> ('t, 'o) vtemulator" where
  "em_Process V data e =
     (case vt_Write V data (em_term e) of
        (evs, t') \<Rightarrow>
          let e1 = e\<lparr>em_term := t', em_called := em_called e @ List.map_filter (em_callback e) evs\<rparr> in
          if em_scrollbackMode e1 = SnapshotScrollbackSinceLastClear \<and> sublist ed2Seq data \<and> \<not> vt_IsAltScreen V t'
          then e1\<lparr>em_scrollbackBaseline := vt_ScrollbackLen V t'\<rparr> else e1)"

definition trimTrailingEmptyRows :: "bytes \<Rightarrow> bytes" where
  "trimTrailingEmptyRows s = rev (dropWhile (\<lambda>c. c = CHR 0x0A) (rev s))"

definition toTerminalLineEndings :: "bytes \<Rightarrow> bytes" where
  "toTerminalLineEndings s = concat (map (\<lambda>c. if c = CHR 0x0A then CRLF else [c]) s)"

definition csi2 :: "int \<Rightarrow> int \<Rightarrow> bytes \<Rightarrow> bytes" where
  "csi2 a b final = [CHR 0x1B] @ ''['' @ Itoa a @ '';'' @ Itoa b @ final"

definition clear_all :: bytes where
  "clear_all = [CHR 0x1B] @ ''[2J'' @ [CHR 0x1B] @ ''[H'' @ [CHR 0x1B] @ ''[3J''"

definition em_Snapshot :: "('t, 'y) vt \<Rightarrow> ('t, 'o) vtemulator \<Rightarrow> bytes" where
  "em_Snapshot V e =
     (let t = em_term e;
          from = (if em_scrollbackMode e = SnapshotScrollbackSinceLastClear
                  then min (em_scrollbackBaseline e) (vt_ScrollbackLen V t) else 0);
          sb = renderScrollbackFrom V t (nat (em_cols e)) from;
          viewport = (if sb = None then trimTrailingEmptyRows (vt_Render V t) else vt_Render V t)
      in clear_all @ (case sb of None \<Rightarrow> [] | Some d \<Rightarrow> d) @ toTerminalLineEndings viewport @
         (case vt_ScrollRegion V t of (topRow, bottomRow, defined) \<Rightarrow> if defined then csi2 topRow bottomRow ''r'' else []) @
         (case vt_SavedCursor V t of (x, y) \<Rightarrow> csi2 (y + 1) (x + 1) (''H'' @ [CHR 0x1B] @ ''7'')) @
         (case vt_CursorPosition V t of (x, y) \<Rightarrow> csi2 (y + 1) (x + 1) ''H''))"

definition em_SetScrollbackSize :: "('t, 'y) vt \<Rightarrow> int \<Rightarrow> ('t, 'o) vtemulator \<Rightarrow> ('t, 'o) vtemulator" where
  "em_SetScrollbackSize V lines e = e\<lparr>em_term := vt_SetScrollbackSize V lines (em_term e)\<rparr>"

definition em_Close :: "('t, 'y) vt \<Rightarrow> ('t, 'o) vtemulator \<Rightarrow> bool \<times> ('t, 'o) vtemulator" where
  "em_Close V e = (case vt_Close V (em_term e) of (ok, t') \<Rightarrow> (ok, e\<lparr>em_term := t'\<rparr>))"

definition em_Resize :: "('t, 'y) vt \<Rightarrow> int \<Rightarrow> int \<Rightarrow> ('t, 'o) vtemulator \<Rightarrow> ('t, 'o) vtemulator" where
  "em_Resize V cols rows e = e\<lparr>em_cols := cols, em_term := vt_Resize V cols rows (em_term e)\<rparr>"

section \<open>The backend and its adapter (backend.go, pkg/client/adapter.go)\<close>

definition NewEmulatorFactory :: "('o vtconfig \<Rightarrow> 'o vtconfig) list \<Rightarrow> 'o vtconfig" where
  "NewEmulatorFactory opts = fold (\<lambda>o' c. o' c) opts defaultConfig"

definition Backend :: "('o vtconfig \<Rightarrow> 'o vtconfig) list \<Rightarrow> 'o vtconfig Option" where
  "Backend opts = WithEmulatorFactory (fold (\<lambda>o' c. o' c) opts defaultConfig)"

text \<open>
  What the session service gets of the emulator: the adapter forwards \<^verbatim>\<open>Process\<close>, \<^verbatim>\<open>Snapshot\<close>, \<^verbatim>\<open>Resize\<close> and
  \<^verbatim>\<open>SetScrollbackSize\<close>, and has no \<^verbatim>\<open>Close\<close>, so that the service's test for \<^verbatim>\<open>io.Closer\<close> fails on it.
\<close>

definition factory_adapter :: "('t, 'y) vt \<Rightarrow> 'o vtconfig \<Rightarrow> 'x ext \<Rightarrow> (('t, 'o) vtemulator) ext" where
  "factory_adapter V cfg X =
     \<lparr>x_spawn = x_spawn X,
      x_create = (\<lambda>sid cols rows. newEmulator V sid cols rows cfg),
      x_process = (\<lambda>data e. Some (em_Process V data e)),
      x_snapshot = em_Snapshot V,
      x_resize = em_Resize V,
      x_setscroll = Some (em_SetScrollbackSize V),
      x_close = id,
      x_grow = x_grow X, x_sha1 = x_sha1 X\<rparr>"

section \<open>What a replay paints\<close>

text \<open>The output as a stream of style changes, texts and line ends, and the lines it paints.\<close>

datatype 'y tok = TStyle 'y | TText bytes | TNl

fun tok_bytes :: "('t, 'y) vt \<Rightarrow> 'y tok \<Rightarrow> bytes" where
  "tok_bytes V (TStyle s) = sgrForStyle V s"
| "tok_bytes V (TText b) = b"
| "tok_bytes V TNl = CRLF"

fun paint :: "'y \<Rightarrow> (bytes \<times> 'y) list \<Rightarrow> 'y tok list \<Rightarrow> (bytes \<times> 'y) list list" where
  "paint cur line [] = [line]"
| "paint cur line (TStyle s # ts) = paint s line ts"
| "paint cur line (TText b # ts) = paint cur (line @ [(b, cur)]) ts"
| "paint cur line (TNl # ts) = line # paint cur [] ts"

text \<open>
  The lines that are painted: trailing blank cells are left out, a cell with content or a style of its
  own is painted in its style, and a blank cell between such cells in the style of the cell before it.
\<close>

definition blank_cell :: "('t, 'y) vt \<Rightarrow> (bytes \<times> 'y) option \<Rightarrow> bool" where
  "blank_cell V cell \<longleftrightarrow>
     (case cell of None \<Rightarrow> True | Some (content, style) \<Rightarrow> (content = [] \<or> content = '' '') \<and> style = uv_zero V)"

fun cell_text :: "(bytes \<times> 'y) option \<Rightarrow> bytes" where
  "cell_text None = '' ''"
| "cell_text (Some (content, style)) = (if content = [] then '' '' else content)"

fun painted_cells :: "('t, 'y) vt \<Rightarrow> 'y \<Rightarrow> (bytes \<times> 'y) option list \<Rightarrow> (bytes \<times> 'y) list" where
  "painted_cells V cur [] = []"
| "painted_cells V cur (cell # cells) =
     (if blank_cell V cell then ('' '', cur) # painted_cells V cur cells
      else case cell of None \<Rightarrow> [] | Some (content, style) \<Rightarrow> (cell_text cell, style) # painted_cells V style cells)"

definition trim_cells :: "('t, 'y) vt \<Rightarrow> (bytes \<times> 'y) option list \<Rightarrow> (bytes \<times> 'y) option list" where
  "trim_cells V cells = rev (dropWhile (blank_cell V) (rev cells))"

definition scrollback_row :: "('t, 'y) vt \<Rightarrow> 't \<Rightarrow> nat \<Rightarrow> nat \<Rightarrow> (bytes \<times> 'y) option list" where
  "scrollback_row V t cols y = map (\<lambda>x. vt_ScrollbackCellAt V x y t) [0..<cols]"

text \<open>What is relied on of the styles: the zero style is the one without attributes, and equality is equality.\<close>

definition style_laws :: "('t, 'y) vt \<Rightarrow> bool" where
  "style_laws V \<longleftrightarrow> (\<forall>s. uv_IsZero V s \<longleftrightarrow> s = uv_zero V) \<and> (\<forall>a b. uv_Equal V a b \<longleftrightarrow> a = b)"

text \<open>The painter's state after a stream: the lines finished, the line in progress and the style.\<close>

fun painter :: "(bytes \<times> 'y) list list \<times> (bytes \<times> 'y) list \<times> 'y \<Rightarrow> 'y tok list \<Rightarrow> (bytes \<times> 'y) list list \<times> (bytes \<times> 'y) list \<times> 'y" where
  "painter st [] = st"
| "painter (ls, l, cur) (TStyle s # ts) = painter (ls, l, s) ts"
| "painter (ls, l, cur) (TText b # ts) = painter (ls, l @ [(b, cur)], cur) ts"
| "painter (ls, l, cur) (TNl # ts) = painter (ls @ [l], [], cur) ts"

lemma painter_append: "painter st (ts @ us) = painter (painter st ts) us"
  by (induction st ts rule: painter.induct) simp_all

lemma painter_paint: "painter (ls, l, cur) ts = (ls', l', cur') \<Longrightarrow> ls @ paint cur l ts = ls' @ [l']"
  by (induction "(ls, l, cur)" ts arbitrary: ls l cur rule: painter.induct) auto

lemma painter_blanks: "painter (ls, l, cur) (replicate n (TText b)) = (ls, l @ replicate n (b, cur), cur)"
  by (induction n arbitrary: l) (simp_all add: replicate_app_Cons_same)

lemma trim_cells_snoc: "trim_cells V (cells @ [c]) = (if blank_cell V c then trim_cells V cells else cells @ [c])"
  by (simp add: trim_cells_def)

text \<open>The style in force after some cells.\<close>

fun style_after :: "('t, 'y) vt \<Rightarrow> 'y \<Rightarrow> (bytes \<times> 'y) option list \<Rightarrow> 'y" where
  "style_after V cur [] = cur"
| "style_after V cur (cell # cells) =
     (if blank_cell V cell then style_after V cur cells
      else case cell of None \<Rightarrow> cur | Some (content, style) \<Rightarrow> style_after V style cells)"

lemma painted_append:
  "painted_cells V cur (xs @ ys) = painted_cells V cur xs @ painted_cells V (style_after V cur xs) ys"
  by (induction xs arbitrary: cur) (auto simp: blank_cell_def split: option.split)

lemma style_after_append: "style_after V cur (xs @ ys) = style_after V (style_after V cur xs) ys"
  by (induction xs arbitrary: cur) (auto simp: blank_cell_def split: option.split)

lemma painted_blanks: "list_all (blank_cell V) xs \<Longrightarrow> painted_cells V cur xs = replicate (length xs) ('' '', cur) \<and> style_after V cur xs = cur"
  by (induction xs) simp_all

text \<open>A line is its trimmed part and blanks.\<close>

lemma trim_cells_split: "\<exists>bs. cells = trim_cells V cells @ bs \<and> list_all (blank_cell V) bs"
  by (rule exI [of _ "rev (takeWhile (blank_cell V) (rev cells))"])
     (metis list_all_iff rev_append rev_rev_ident set_rev set_takeWhileD takeWhile_dropWhile_id trim_cells_def)

lemma style_after_trim: "style_after V cur (trim_cells V cells) = style_after V cur cells"
  using trim_cells_split [of cells V] painted_blanks style_after_append by metis

text \<open>The bytes of a line in progress are those of a stream that paints the trimmed cells seen so far.\<close>

lemma render_cells_paint:
  assumes "style_laws V"
  shows "\<exists>ts n prev. fold (render_cell V) cells ([], 0, cur) = (concat (map (tok_bytes V) ts), n, prev) \<and>
     prev = style_after V cur cells \<and> n = length cells - length (trim_cells V cells) \<and>
     (\<forall>ls. painter (ls, [], cur) ts = (ls, painted_cells V cur (trim_cells V cells), prev))"
proof (induction cells rule: rev_induct)
  case Nil
  show ?case by (rule exI [of _ "[]"]) (simp add: trim_cells_def)
next
  case (snoc c cells)
  then obtain ts n prev where IH: "fold (render_cell V) cells ([], 0, cur) = (concat (map (tok_bytes V) ts), n, prev)"
      "prev = style_after V cur cells" "n = length cells - length (trim_cells V cells)"
      "\<And>ls. painter (ls, [], cur) ts = (ls, painted_cells V cur (trim_cells V cells), prev)"
    by blast
  obtain bs where bs: "cells = trim_cells V cells @ bs" "list_all (blank_cell V) bs" using trim_cells_split by blast
  have n: "n = length bs" using IH(3) bs(1) by (metis length_append diff_add_inverse)
  show ?case
  proof (cases "blank_cell V c")
    case True
    have "render_cell V c (concat (map (tok_bytes V) ts), n, prev) = (concat (map (tok_bytes V) ts), Suc n, prev)"
      using True assms by (auto simp: render_cell_def blank_cell_def style_laws_def split: option.splits)
    moreover have "length (trim_cells V cells) \<le> length cells" using bs(1) by (metis le_add1 length_append)
    ultimately show ?thesis
      using IH True by (intro exI [of _ ts] exI [of _ "Suc n"] exI [of _ prev])
        (simp add: trim_cells_snoc style_after_append Suc_diff_le)
  next
    case False
    then obtain content style where c: "c = Some (content, style)" "\<not> ((content = [] \<or> content = '' '') \<and> style = uv_zero V)"
      by (auto simp: blank_cell_def split: option.splits)
    let ?us = "replicate n (TText '' '') @ (if style = prev then [] else [TStyle style]) @ [TText (cell_text c)]"
    have "concat (map (tok_bytes V) (replicate n (TText '' ''))) = replicate n (CHR '' '')"
      by (induction n) simp_all
    then have r: "render_cell V c (concat (map (tok_bytes V) ts), n, prev) = (concat (map (tok_bytes V) (ts @ ?us)), 0, style)"
      using c assms by (auto simp: render_cell_def style_laws_def Let_def)
    have p: "painted_cells V cur (cells @ [c]) = painted_cells V cur (trim_cells V cells) @ replicate n ('' '', prev) @ [(cell_text c, style)]"
    proof -
      have "painted_cells V cur cells = painted_cells V cur (trim_cells V cells) @ replicate n ('' '', prev)"
        using painted_append [of V cur "trim_cells V cells" bs] painted_blanks [OF bs(2)] bs(1) IH(2) n
        by (simp add: style_after_trim)
      moreover have "painted_cells V prev [c] = [(cell_text c, style)]" using False c(1) by simp
      ultimately show ?thesis using IH(2) by (simp add: painted_append del: painted_cells.simps(2))
    qed
    have "painter (ls, [], cur) (ts @ ?us) = (ls, painted_cells V cur (cells @ [c]), style)" for ls
      using IH(4) [of ls] by (auto simp: painter_append painter_blanks p)
    then show ?thesis
      using IH(1) r False c(1) by (intro exI [of _ "ts @ ?us"] exI [of _ 0] exI [of _ style])
        (simp add: trim_cells_snoc style_after_append)
  qed
qed

definition painted_row :: "('t, 'y) vt \<Rightarrow> 't \<Rightarrow> nat \<Rightarrow> nat \<Rightarrow> (bytes \<times> 'y) list" where
  "painted_row V t cols y = painted_cells V (uv_zero V) (trim_cells V (scrollback_row V t cols y))"

lemma render_line_paint:
  assumes laws: "style_laws V" and p: "painter ([], [], uv_zero V) ts = (ls, l, prev)" and "first \<Longrightarrow> ls = [] \<and> l = [] \<and> prev = uv_zero V"
  shows "\<exists>us prev'. render_line V t cols y (concat (map (tok_bytes V) ts), prev, first) = (concat (map (tok_bytes V) us), prev', False) \<and>
     painter ([], [], uv_zero V) us = (if first then [] else ls @ [l], painted_row V t cols y, prev')"
proof -
  let ?nl = "if first then [] else [TNl]" and ?r = "if prev = uv_zero V then [] else [TStyle (uv_zero V)]"
  obtain vs n prev' where vs: "fold (render_cell V) (scrollback_row V t cols y) ([], 0, uv_zero V) = (concat (map (tok_bytes V) vs), n, prev')"
      "\<And>ls. painter (ls, [], uv_zero V) vs = (ls, painted_row V t cols y, prev')"
    using render_cells_paint [OF laws, of "scrollback_row V t cols y" "uv_zero V"] unfolding painted_row_def by blast
  have f: "fold (\<lambda>x. render_cell V (vt_ScrollbackCellAt V x y t)) [0..<cols] st = fold (render_cell V) (scrollback_row V t cols y) st" for st
    by (simp add: scrollback_row_def fold_map comp_def)
  have z: "uv_IsZero V s \<longleftrightarrow> s = uv_zero V" "sgrForStyle V (uv_zero V) = SGR0" for s
    using laws by (simp_all add: style_laws_def sgrForStyle_def)
  have "render_line V t cols y (concat (map (tok_bytes V) ts), prev, first) = (concat (map (tok_bytes V) (ts @ ?nl @ ?r @ vs)), prev', False)"
    using vs(1) by (simp add: render_line_def f z Let_def)
  moreover have "painter ([], [], uv_zero V) (ts @ ?nl @ ?r @ vs) = (if first then [] else ls @ [l], painted_row V t cols y, prev')"
    using p assms(3) vs(2) by (auto simp: painter_append)
  ultimately show ?thesis by blast
qed

lemma render_lines_paint:
  assumes "style_laws V"
  shows "\<exists>ts prev. fold (render_line V t cols) ys ([], uv_zero V, True) = (concat (map (tok_bytes V) ts), prev, ys = []) \<and>
     painter ([], [], uv_zero V) ts =
       (map (painted_row V t cols) (butlast ys), if ys = [] then [] else painted_row V t cols (last ys), prev) \<and>
     (ys = [] \<longrightarrow> prev = uv_zero V)"
proof (induction ys rule: rev_induct)
  case Nil
  show ?case by (rule exI [of _ "[]"]) simp
next
  case (snoc y ys)
  then obtain ts prev where IH: "fold (render_line V t cols) ys ([], uv_zero V, True) = (concat (map (tok_bytes V) ts), prev, ys = [])"
     "painter ([], [], uv_zero V) ts = (map (painted_row V t cols) (butlast ys), if ys = [] then [] else painted_row V t cols (last ys), prev)"
     "ys = [] \<longrightarrow> prev = uv_zero V" by blast
  obtain us prev' where "render_line V t cols y (concat (map (tok_bytes V) ts), prev, ys = []) = (concat (map (tok_bytes V) us), prev', False)"
     "painter ([], [], uv_zero V) us = (if ys = [] then [] else map (painted_row V t cols) (butlast ys) @ [painted_row V t cols (last ys)],
        painted_row V t cols y, prev')"
    using render_line_paint [OF assms IH(2), of "ys = []" t cols y] IH(3) by auto
  moreover have "ys \<noteq> [] \<Longrightarrow> map (painted_row V t cols) (butlast ys) @ [painted_row V t cols (last ys)] = map (painted_row V t cols) ys"
    by (metis append_butlast_last_id list.simps(8) list.simps(9) map_append)
  ultimately show ?case using IH(1) by (intro exI [of _ us] exI [of _ prev']) (auto simp: butlast_append)
qed

section \<open>Properties\<close>


text \<open>
  A terminal for examples: a list of scrollback lines with a limit, each written line goes there. A
  style is a number.
\<close>

fun push_lines :: "bytes \<Rightarrow> bytes \<Rightarrow> bytes list" where
  "push_lines acc [] = []"
| "push_lines acc (c # cs) = (if c = CHR 0x0A then acc # push_lines [] cs else push_lines (acc @ [c]) cs)"

definition line_vt :: "(nat \<times> bytes list, nat) vt" where
  "line_vt =
     \<lparr>vt_NewEmulator = (\<lambda>c r. (0, [])), vt_SetScrollbackSize = (\<lambda>n (cap, ls). (nat n, ls)), vt_SetED2SavesScrollback = (\<lambda>b t. t),
      vt_SetLogger = id,
      vt_Write = (\<lambda>d (cap, ls). let ls' = ls @ push_lines [] d in ([], (cap, drop (length ls' - cap) ls'))),
      vt_IsAltScreen = (\<lambda>t. False), vt_ScrollbackLen = (\<lambda>(cap, ls). length ls),
      vt_ScrollbackCellAt = (\<lambda>x y (cap, ls). if x < length (ls ! y) then Some ([ls ! y ! x], if ls ! y ! x = CHR ''R'' then 1 else 0) else None),
      vt_Render = (\<lambda>t. []), vt_ScrollRegion = (\<lambda>t. (0, 0, False)), vt_SavedCursor = (\<lambda>t. (0, 0)), vt_CursorPosition = (\<lambda>t. (0, 0)),
      vt_Resize = (\<lambda>c r t. t), vt_Close = (\<lambda>t. (True, t)),
      uv_zero = 0, uv_IsZero = (\<lambda>s. s = 0), uv_Equal = (=), uv_String = (\<lambda>s. [CHR 0x1B] @ ''[41m'')\<rparr>"


text \<open>The blank second cell has no style, and is painted in that of the first: the stream holds the blank before it resets the style.\<close>

lemma blank_cell_painted_in_style:
  "vt_ScrollbackCellAt line_vt 1 0 (9, [''R x'']) = Some ('' '', 0) \<and>
   renderScrollbackFrom line_vt (9, [''R x'']) 3 0 = Some ([CHR 0x1B] @ ''[41mR '' @ [CHR 0x1B] @ ''[mx'' @ CRLF)"
  by code_simp

section \<open>Clears and the scrollback limit\<close>

definition vt_writes :: "('t, 'y) vt \<Rightarrow> bytes list \<Rightarrow> 't \<Rightarrow> 't" where
  "vt_writes V ds t = fold (\<lambda>d t. snd (vt_Write V d t)) ds t"

lemma Process_no_clear:
  assumes "\<not> sublist ed2Seq d"
  shows "em_term (em_Process V d e) = snd (vt_Write V d (em_term e))" "em_scrollbackBaseline (em_Process V d e) = em_scrollbackBaseline e"
    "em_scrollbackMode (em_Process V d e) = em_scrollbackMode e" "em_cols (em_Process V d e) = em_cols e"
  using assms by (simp_all add: em_Process_def Let_def split: prod.split)

lemma Processes_no_clear:
  assumes "\<forall>d \<in> set ds. \<not> sublist ed2Seq d"
  shows "em_term (fold (em_Process V) ds e) = vt_writes V ds (em_term e) \<and>
     em_scrollbackBaseline (fold (em_Process V) ds e) = em_scrollbackBaseline e \<and>
     em_scrollbackMode (fold (em_Process V) ds e) = em_scrollbackMode e \<and> em_cols (fold (em_Process V) ds e) = em_cols e"
  using assms by (induction ds arbitrary: e) (simp_all add: Process_no_clear vt_writes_def)

lemma render_none: "vt_ScrollbackLen V t \<le> from \<Longrightarrow> renderScrollbackFrom V t cols from = None"
  by (simp add: renderScrollbackFrom_def Let_def)

text \<open>(C29) In the mode that leaves out what precedes the last clear, a clear on a full scrollback loses
everything after it too: the mark it sets is a number of lines, and it equals the limit, which the
number of lines never exceeds. From then on, whatever is written (short of another clear), no
snapshot holds any scrollback, although the lines after the clear are there.\<close>

theorem clear_at_capacity_hides_scrollback:
  assumes "em_scrollbackMode e = SnapshotScrollbackSinceLastClear" and "e1 = em_Process V clear e"
    and "sublist ed2Seq clear" "\<not> vt_IsAltScreen V (em_term e1)" "vt_ScrollbackLen V (em_term e1) = cap"
    and "\<And>ds. vt_ScrollbackLen V (vt_writes V ds (em_term e1)) \<le> cap"
    and "\<forall>d \<in> set ds. \<not> sublist ed2Seq d" and "e' = fold (em_Process V) ds e1"
  shows "em_term e' = vt_writes V ds (em_term e1) \<and>
     em_Snapshot V e' = clear_all @ toTerminalLineEndings (trimTrailingEmptyRows (vt_Render V (em_term e'))) @
       (case vt_ScrollRegion V (em_term e') of (topRow, bottomRow, defined) \<Rightarrow> if defined then csi2 topRow bottomRow ''r'' else []) @
       (case vt_SavedCursor V (em_term e') of (x, y) \<Rightarrow> csi2 (y + 1) (x + 1) (''H'' @ [CHR 0x1B] @ ''7'')) @
       (case vt_CursorPosition V (em_term e') of (x, y) \<Rightarrow> csi2 (y + 1) (x + 1) ''H'')"
proof -
  have e1: "em_scrollbackMode e1 = SnapshotScrollbackSinceLastClear" "em_scrollbackBaseline e1 = cap"
    using assms(1,3-5) by (auto simp: assms(2) em_Process_def Let_def split: prod.splits)
  note p = Processes_no_clear [OF assms(7), of V e1]
  have "renderScrollbackFrom V (em_term e') (nat (em_cols e')) (min cap (vt_ScrollbackLen V (em_term e'))) = None"
    using p assms(6) [of ds] by (intro render_none) (simp add: assms(8))
  then show ?thesis
    using p e1 by (simp add: em_Snapshot_def Let_def assms(8))
qed

definition full_emulator :: "(nat \<times> bytes list, unit) vtemulator" where
  "full_emulator = \<lparr>em_term = (2, [''a'', ''b'']), em_cols = 80, em_scrollbackMode = SnapshotScrollbackSinceLastClear,
     em_scrollbackBaseline = 0, em_callback = (\<lambda>ev. None), em_called = []\<rparr>"

lemma line_vt_limit: "vt_ScrollbackLen line_vt (cap, ls) \<le> cap \<Longrightarrow> vt_ScrollbackLen line_vt (vt_writes line_vt ds (cap, ls)) \<le> cap"
proof (induction ds arbitrary: ls)
  case (Cons d ds)
  have w: "snd (vt_Write line_vt d (cap, ls)) = (cap, drop (length (ls @ push_lines [] d) - cap) (ls @ push_lines [] d))"
    by (simp add: line_vt_def Let_def)
  show ?case unfolding vt_writes_def by (simp add: w) (rule Cons.IH [unfolded vt_writes_def], simp add: line_vt_def)
qed (simp add: vt_writes_def)

theorem clear_at_capacity_hides_scrollback_witness:
  "let e' = fold (em_Process line_vt) [''new'' @ [CHR 0x0A]] (em_Process line_vt ed2Seq full_emulator)
   in em_term e' = (2, [''b'', ''new'']) \<and> em_Snapshot line_vt e' = clear_all @ csi2 1 1 (''H'' @ [CHR 0x1B] @ ''7'') @ csi2 1 1 ''H''"
proof -
  let ?e1 = "em_Process line_vt ed2Seq full_emulator"
  have m: "em_scrollbackMode full_emulator = SnapshotScrollbackSinceLastClear" by (simp add: full_emulator_def)
  have t: "em_term ?e1 = (2, [''a'', ''b''])" by code_simp
  have w: "vt_writes line_vt [''new'' @ [CHR 0x0A]] (2, [''a'', ''b'']) = (2, [''b'', ''new''])" by code_simp
  have s: "sublist ed2Seq ed2Seq" "\<not> sublist ed2Seq (''new'' @ [CHR 0x0A])" by (simp, code_simp)
  have "vt_Render line_vt (2, [''b'', ''new'']) = []" "vt_ScrollRegion line_vt (2, [''b'', ''new'']) = (0, 0, False)"
      "vt_SavedCursor line_vt (2, [''b'', ''new'']) = (0, 0)" "vt_CursorPosition line_vt (2, [''b'', ''new'']) = (0, 0)"
      "\<not> vt_IsAltScreen line_vt (2, [''a'', ''b''])" "vt_ScrollbackLen line_vt (2, [''a'', ''b'']) = 2"
    by (simp_all add: line_vt_def)
  then show ?thesis
    unfolding Let_def
    using clear_at_capacity_hides_scrollback [OF m refl s(1) _ _ _ _ refl, of line_vt 2 "[''new'' @ [CHR 0x0A]]"]
      line_vt_limit [of 2 "[''a'', ''b'']"] s(2)
    by (simp add: t w [simplified] trimTrailingEmptyRows_def toTerminalLineEndings_def)
qed

text \<open>A clear that arrives in two pieces is not noticed.\<close>

lemma split_clear_unnoticed:
  "em_scrollbackBaseline (fold (em_Process line_vt) [[CHR 0x1B] @ ''[2'', ''J''] full_emulator) = 0 \<and>
   em_scrollbackBaseline (em_Process line_vt ed2Seq full_emulator) = 2"
  by code_simp

text \<open>The session service never closes an emulator of this kind: the adapter hides its \<^verbatim>\<open>Close\<close>.\<close>

lemma adapter_never_closes: "emu_close (factory_adapter V cfg X) em = em"
  by (simp add: emu_close_def factory_adapter_def split: emulator.split)

text \<open>The options of the backend are applied in order.\<close>

lemma Backend_factory: "cg_emulatorFactory (Backend opts c) = Some (NewEmulatorFactory opts)"
  by (simp add: Backend_def NewEmulatorFactory_def WithEmulatorFactory_def)

end
