(* ===== verification/Lifecycle.thy ===== *)
theory Lifecycle
  imports Session Transport
begin

text \<open>
  The loops that run beside the requests: the periodic ones of the reaper, the watchdog and the
  heartbeats (\<^verbatim>\<open>Start\<close>, \<^verbatim>\<open>loop\<close> and the stop functions of \<^verbatim>\<open>internal/session/reaper.go\<close>, watchdog.go and
  \<^verbatim>\<open>internal/transport/heartbeat.go\<close>), the accept loop (\<^verbatim>\<open>Serve\<close> of \<^verbatim>\<open>internal/transport/service.go\<close>) and the
  signal handler (\<^verbatim>\<open>internal/daemon/shutdown.go\<close>).
\<close>

section \<open>Periodic loops\<close>

text \<open>
  The state of one loop: what it works on, whether its channel \<^verbatim>\<open>done\<close> is closed, whether the goroutine
  still runs, how many callers of the stop function are past its test of \<^verbatim>\<open>done\<close>, and whether closing a
  closed channel has panicked.
\<close>

record 'w periodic =
  pd_world :: 'w
  pd_closed :: bool
  pd_running :: bool
  pd_stopping :: nat
  pd_panicked :: bool

definition loop_start :: "'w \<Rightarrow> 'w periodic" where
  "loop_start w = \<lparr>pd_world = w, pd_closed = False, pd_running = True, pd_stopping = 0, pd_panicked = False\<rparr>"

definition stop_test :: "'w periodic \<Rightarrow> 'w periodic" where
  "stop_test p = (if pd_closed p then p else p\<lparr>pd_stopping := Suc (pd_stopping p)\<rparr>)"

definition stop_close :: "'w periodic \<Rightarrow> 'w periodic" where
  "stop_close p =
     (let p' = p\<lparr>pd_stopping := pd_stopping p - 1\<rparr> in
      if pd_closed p then p'\<lparr>pd_panicked := True\<rparr> else p'\<lparr>pd_closed := True\<rparr>)"

definition stop_once :: "'w periodic \<Rightarrow> 'w periodic" where
  "stop_once p = p\<lparr>pd_closed := True\<rparr>"

text \<open>
  The steps of a loop whose stop function tests and closes (reaper, watchdog). The other goroutines
  change the world by \<open>rely\<close>; a tick that is due may still be taken after \<^verbatim>\<open>done\<close> was closed.
\<close>

inductive per_step :: "('w \<Rightarrow> 'w \<Rightarrow> bool) \<Rightarrow> ('w \<Rightarrow> 'w \<Rightarrow> bool) \<Rightarrow> 'w periodic \<Rightarrow> 'w periodic \<Rightarrow> bool"
  for tick rely where
  lp_tick: "pd_running p \<Longrightarrow> tick (pd_world p) w \<Longrightarrow> per_step tick rely p (p\<lparr>pd_world := w\<rparr>)"
| lp_end: "pd_running p \<Longrightarrow> pd_closed p \<Longrightarrow> per_step tick rely p (p\<lparr>pd_running := False\<rparr>)"
| lp_other: "rely (pd_world p) w \<Longrightarrow> per_step tick rely p (p\<lparr>pd_world := w\<rparr>)"
| lp_test: "per_step tick rely p (stop_test p)"
| lp_close: "0 < pd_stopping p \<Longrightarrow> per_step tick rely p (stop_close p)"

text \<open>The same with a stop function that closes once (heartbeats).\<close>

inductive once_step :: "('w \<Rightarrow> 'w \<Rightarrow> bool) \<Rightarrow> ('w \<Rightarrow> 'w \<Rightarrow> bool) \<Rightarrow> 'w periodic \<Rightarrow> 'w periodic \<Rightarrow> bool"
  for tick rely where
  on_tick: "pd_running p \<Longrightarrow> tick (pd_world p) w \<Longrightarrow> once_step tick rely p (p\<lparr>pd_world := w\<rparr>)"
| on_end: "pd_running p \<Longrightarrow> pd_closed p \<Longrightarrow> once_step tick rely p (p\<lparr>pd_running := False\<rparr>)"
| on_other: "rely (pd_world p) w \<Longrightarrow> once_step tick rely p (p\<lparr>pd_world := w\<rparr>)"
| on_stop: "once_step tick rely p (stop_once p)"

definition reaper_ticks :: "duration \<Rightarrow> 'e service \<Rightarrow> 'e service \<Rightarrow> bool" where
  "reaper_ticks idleTTL s s' \<longleftrightarrow> (\<exists>now. s' = snd (reaper_tick idleTTL now s))"

definition watchdog_ticks :: "'e service \<Rightarrow> 'e service \<Rightarrow> bool" where
  "watchdog_ticks s s' \<longleftrightarrow> (\<exists>alive. s' = snd (watchdog_tick alive s))"

definition heartbeat_ticks :: "HeartbeatManager \<Rightarrow> HeartbeatManager \<Rightarrow> bool" where
  "heartbeat_ticks h h' \<longleftrightarrow> h' = snd (hb_tick h)"

text \<open>The calls that change what the heartbeats track.\<close>

definition heartbeat_calls :: "HeartbeatManager \<Rightarrow> HeartbeatManager \<Rightarrow> bool" where
  "heartbeat_calls h h' \<longleftrightarrow> (\<exists>c. h' = Track c h) \<or> (\<exists>cid. h' = Untrack cid h) \<or> (\<exists>cid now. h' = Ack cid now h)"

text \<open>The three loops among the other goroutines of the daemon.\<close>

definition Reaper_loop :: "duration \<Rightarrow> 'e service periodic \<Rightarrow> 'e service periodic \<Rightarrow> bool" where
  "Reaper_loop idleTTL = per_step (reaper_ticks idleTTL) svc_step"

definition Watchdog_loop :: "'e service periodic \<Rightarrow> 'e service periodic \<Rightarrow> bool" where
  "Watchdog_loop = per_step watchdog_ticks svc_step"

definition Heartbeat_loop :: "HeartbeatManager periodic \<Rightarrow> HeartbeatManager periodic \<Rightarrow> bool" where
  "Heartbeat_loop = once_step heartbeat_ticks heartbeat_calls"

lemma stop_frame [simp]:
  "pd_world (stop_test p) = pd_world p" "pd_world (stop_close p) = pd_world p" "pd_world (stop_once p) = pd_world p"
  "pd_running (stop_test p) = pd_running p" "pd_running (stop_close p) = pd_running p" "pd_running (stop_once p) = pd_running p"
  by (simp_all add: stop_test_def stop_close_def stop_once_def Let_def)

inductive_cases per_stepE: "per_step tick rely p p'"

inductive_cases once_stepE: "once_step tick rely p p'"

section \<open>What a loop keeps\<close>

text \<open>
  A loop and the goroutines around it: when each tick and each other step keeps an invariant of the
  world, so does every run, and once the loop has ended only the others change the world.
\<close>

locale periodic_loop =
  fixes tick :: "'w \<Rightarrow> 'w \<Rightarrow> bool" and rely :: "'w \<Rightarrow> 'w \<Rightarrow> bool" and inv :: "'w \<Rightarrow> bool"
  assumes tick_inv: "tick w w' \<Longrightarrow> inv w \<Longrightarrow> inv w'" and rely_inv: "rely w w' \<Longrightarrow> inv w \<Longrightarrow> inv w'"
begin

lemma runs_keep:
  assumes "(per_step tick rely)\<^sup>*\<^sup>* p p'" and "inv (pd_world p)"
  shows "inv (pd_world p')"
  using assms
proof (induction rule: rtranclp_induct)
  case (step p1 p2)
  from step(2,3) step(4) show ?case
    by (auto elim!: per_stepE dest: tick_inv rely_inv)
qed simp

lemma once_runs_keep:
  assumes "(once_step tick rely)\<^sup>*\<^sup>* p p'" and "inv (pd_world p)"
  shows "inv (pd_world p')"
  using assms
proof (induction rule: rtranclp_induct)
  case (step p1 p2)
  from step(2,3) step(4) show ?case by (auto elim!: once_stepE dest: tick_inv rely_inv)
qed simp

lemma quiet_when_ended:
  assumes "(per_step tick rely)\<^sup>*\<^sup>* p p'" and "\<not> pd_running p"
  shows "rely\<^sup>*\<^sup>* (pd_world p) (pd_world p') \<and> \<not> pd_running p'"
  using assms
proof (induction rule: rtranclp_induct)
  case (step p1 p2)
  from step(2,3) step(4) show ?case
    by (auto elim!: per_stepE intro: rtranclp.rtrancl_into_rtrancl)
qed simp

end

interpretation rp: periodic_loop "reaper_ticks ttl" svc_step svc_ok for ttl
  by unfold_locales (auto simp: reaper_ticks_def reaper_ok svc_step_ok)

interpretation wd: periodic_loop watchdog_ticks svc_step svc_ok
  by unfold_locales (auto simp: watchdog_ticks_def watchdog_ok svc_step_ok)

interpretation hb: periodic_loop heartbeat_ticks heartbeat_calls "\<lambda>h. gm_ok (hb_clients h)"
  by unfold_locales
     (auto simp: heartbeat_ticks_def heartbeat_calls_def Track_def Untrack_def Ack_def dest: hb_tick_get split: option.splits)

text \<open>A session service beside which a reaper and a watchdog run stays well formed.\<close>

lemma service_ok_beside_reaper:
  "(Reaper_loop ttl)\<^sup>*\<^sup>* (loop_start s) p \<Longrightarrow> svc_ok s \<Longrightarrow> svc_ok (pd_world p)"
  unfolding Reaper_loop_def using rp.runs_keep by (fastforce simp: loop_start_def)

lemma service_ok_beside_watchdog:
  "Watchdog_loop\<^sup>*\<^sup>* (loop_start s) p \<Longrightarrow> svc_ok s \<Longrightarrow> svc_ok (pd_world p)"
  unfolding Watchdog_loop_def using wd.runs_keep by (fastforce simp: loop_start_def)

lemma heartbeat_clients_ok:
  "Heartbeat_loop\<^sup>*\<^sup>* (loop_start h) p \<Longrightarrow> gm_ok (hb_clients h) \<Longrightarrow> gm_ok (hb_clients (pd_world p))"
  unfolding Heartbeat_loop_def using hb.once_runs_keep by (fastforce simp: loop_start_def)

section \<open>Stopping\<close>

text \<open>A stop function that is called twice in turn is harmless: the second call sees the closed channel.\<close>

lemma stop_twice_in_turn:
  assumes "\<not> pd_closed p" "\<not> pd_panicked p"
  shows "\<not> pd_panicked (stop_test (stop_close (stop_test p))) \<and> pd_stopping (stop_test (stop_close (stop_test p))) = pd_stopping p"
  using assms by (simp add: stop_test_def stop_close_def Let_def)

text \<open>Two callers at the same time can both find the channel open; the second close panics.\<close>

lemma concurrent_stops_panic:
  "\<exists>p. (per_step tick rely)\<^sup>*\<^sup>* (loop_start w) p \<and> pd_panicked p"
proof (intro exI conjI)
  let ?p = "stop_close (stop_close (stop_test (stop_test (loop_start w))))"
  have "per_step tick rely (stop_test (stop_test (loop_start w))) (stop_close (stop_test (stop_test (loop_start w))))"
    "per_step tick rely (stop_close (stop_test (stop_test (loop_start w)))) ?p"
    by (rule lp_close, simp add: loop_start_def stop_test_def stop_close_def)+
  moreover have "per_step tick rely (loop_start w) (stop_test (loop_start w))"
    "per_step tick rely (stop_test (loop_start w)) (stop_test (stop_test (loop_start w)))" by (rule lp_test)+
  ultimately show "(per_step tick rely)\<^sup>*\<^sup>* (loop_start w) ?p" by (meson converse_rtranclp_into_rtranclp rtranclp.rtrancl_refl)
  show "pd_panicked ?p" by (simp add: loop_start_def stop_test_def stop_close_def)
qed

text \<open>The heartbeats' stop function never panics, however it is called.\<close>

lemma once_never_panics:
  assumes "(once_step tick rely)\<^sup>*\<^sup>* (loop_start w) p"
  shows "\<not> pd_panicked p"
  using assms by induction (auto simp: loop_start_def stop_once_def elim!: once_stepE)

section \<open>Accepting connections (service.go)\<close>

text \<open>What the accept loop sees: a connection, the cancelled context, a failing accept (with \<^verbatim>\<open>net.ErrClosed\<close> or not).\<close>

datatype serve_event = SeConn hs_env Conn | SeCancel | SeFail bool

datatype accept_error = AcServerClosed | AcAccept

text \<open>The result is \<open>None\<close> while the loop waits; the connections are returned as their handshakes left them.\<close>

fun Server_Serve :: "serve_event list \<Rightarrow> Server \<Rightarrow> accept_error option \<times> Conn list \<times> Server" where
  "Server_Serve [] s = (None, [], s)"
| "Server_Serve (SeConn env raw # evs) s =
     (case handleConn env raw s of (c, s') \<Rightarrow> case Server_Serve evs s' of (r, cs, s'') \<Rightarrow> (r, c # cs, s''))"
| "Server_Serve (SeCancel # evs) s = Server_Serve evs (s\<lparr>sv_closed := True, sv_listening := False\<rparr>)"
| "Server_Serve (SeFail closedErr # evs) s = (Some (if sv_closed s \<or> closedErr then AcServerClosed else AcAccept), [], s)"

text \<open>The context \<^verbatim>\<open>HandleSignals\<close> returns is cancelled by SIGTERM, by SIGINT and with its parent.\<close>

datatype signal = SIGTERM | SIGINT | OtherSignal

definition HandleSignals :: "bool \<Rightarrow> signal list \<Rightarrow> bool" where
  "HandleSignals parentDone sigs \<longleftrightarrow> parentDone \<or> list_ex (\<lambda>g. g = SIGTERM \<or> g = SIGINT) sigs"

definition intruder :: "Server \<Rightarrow> serve_event \<Rightarrow> bool" where
  "intruder s ev = (case ev of SeConn env c \<Rightarrow> \<not> authenticated env c s | _ \<Rightarrow> True)"

lemma authenticated_cong: "sv_token s' = sv_token s \<Longrightarrow> sv_mode s' = sv_mode s \<Longrightarrow> authenticated env c s' = authenticated env c s"
  by (simp add: authenticated_def checkAutomationMode_def split: option.split sum.split)

text \<open>
  Whatever connections are made without the token, however many: none of them gets into the
  registry, and each one is closed.
\<close>

lemma intruders_stay_out:
  assumes "list_all (intruder s) evs"
  shows "case Server_Serve evs s of (r, cs, s') \<Rightarrow> sv_clients s' = sv_clients s \<and> list_all c_closed cs"
  using assms
proof (induction evs s rule: Server_Serve.induct)
  case (2 env raw evs s)
  obtain c s1 where h: "handleConn env raw s = (c, s1)" by fastforce
  with 2(2) have "s1 = s" "c_closed c" using handleConn_cases [OF h] by (auto simp: intruder_def)
  with 2(1) [OF h [symmetric]] 2(2) h show ?case by (auto split: prod.splits)
next
  case (3 evs s)
  have "intruder (s\<lparr>sv_closed := True, sv_listening := False\<rparr>) = intruder s"
    by (auto simp: intruder_def fun_eq_iff authenticated_cong [of "s\<lparr>sv_closed := True, sv_listening := False\<rparr>" s] split: serve_event.split)
  with 3 show ?case by simp
qed simp_all

lemma handleConn_closed: "handleConn env c s = (c', s') \<Longrightarrow> sv_closed s' = sv_closed s"
  by (auto simp: handleConn_def refuse_def registerControl_def registerStream_def Let_def split: option.splits prod.splits sum.splits if_splits)

text \<open>A cancelled server ends with the clean error, whatever the accept fails with.\<close>

lemma cancelled_serve_ends:
  assumes "list_all (\<lambda>ev. case ev of SeFail b \<Rightarrow> False | _ \<Rightarrow> True) evs" and "SeCancel \<in> set evs \<or> sv_closed s"
  shows "fst (Server_Serve (evs @ [SeFail b]) s) = Some AcServerClosed"
  using assms
proof (induction evs s rule: Server_Serve.induct)
  case (2 env raw evs s)
  obtain c s1 where h: "handleConn env raw s = (c, s1)" by fastforce
  with 2 handleConn_closed [OF h] show ?case by (auto split: prod.splits)
qed auto

end
