(* ===== verification/Wiring.thy ===== *)
theory Wiring
  imports DaemonServe
begin

text \<open>
  The parts a daemon is wired from: the options of the session service (\<^verbatim>\<open>internal/session/options.go\<close>) with its
  spawn slots, the Unix spawner (\<^verbatim>\<open>internal/platform/pty/pty.go\<close>) that provides the \<open>x_spawn\<close> of the session
  service, and the debug log (\<^verbatim>\<open>internal/platform/debug\<close>: options.go, \<^verbatim>\<open>NewTracer\<close>) that provides the tracer of
  \<open>Serve\<close>.
\<close>

section \<open>Options of the session service (session/options.go)\<close>

text \<open>The service with its spawn slots: a limit, if there is one, and the slots taken.\<close>

record 'e slotted =
  sl_service :: "'e service"
  sl_slots :: "nat option"
  sl_taken :: nat

type_synonym 'e session_option = "'e slotted \<Rightarrow> 'e slotted"

definition WithMaxSessions :: "int \<Rightarrow> 'e session_option" where
  "WithMaxSessions n s = s\<lparr>sl_service := (sl_service s)\<lparr>ss_maxSessions := n\<rparr>\<rparr>"

definition WithOnExit :: "'e session_option" where
  "WithOnExit s = s\<lparr>sl_service := (sl_service s)\<lparr>ss_hasOnExit := True\<rparr>\<rparr>"

definition WithOnDataReady :: "'e session_option" where
  "WithOnDataReady s = s\<lparr>sl_service := (sl_service s)\<lparr>ss_hasOnDataReady := True\<rparr>\<rparr>"

definition WithSpawnSemaphore :: "int \<Rightarrow> 'e session_option" where
  "WithSpawnSemaphore n s = (if n > 0 then s\<lparr>sl_slots := Some (nat n), sl_taken := 0\<rparr> else s)"

definition session_WithEmulatorFactory :: "'e session_option" where
  "session_WithEmulatorFactory s = s\<lparr>sl_service := (sl_service s)\<lparr>ss_factory := True\<rparr>\<rparr>"

definition session_WithTracer :: "tracer \<Rightarrow> 'e session_option" where
  "session_WithTracer t s = s\<lparr>sl_service := (sl_service s)\<lparr>ss_tracer := t\<rparr>\<rparr>"

definition session_NewService :: "'e session_option list \<Rightarrow> 'e slotted" where
  "session_NewService opts =
     fold (\<lambda>o' s. o' s) opts \<lparr>sl_service = new_service 0 False None, sl_slots = None, sl_taken = 0\<rparr>"

text \<open>\<^verbatim>\<open>Create\<close> around its slot: taking one (\<open>None\<close> while it has to wait), and giving it back.\<close>

definition acquire_slot :: "'e slotted \<Rightarrow> 'e slotted option" where
  "acquire_slot s =
     (case sl_slots s of
        None \<Rightarrow> Some s
      | Some n \<Rightarrow> if sl_taken s < n then Some (s\<lparr>sl_taken := Suc (sl_taken s)\<rparr>) else None)"

definition release_slot :: "'e slotted \<Rightarrow> 'e slotted" where
  "release_slot s = (case sl_slots s of None \<Rightarrow> s | Some n \<Rightarrow> s\<lparr>sl_taken := sl_taken s - 1\<rparr>)"

lemma slots_bounded:
  "(\<forall>n. sl_slots s = Some n \<longrightarrow> sl_taken s \<le> n) \<Longrightarrow> acquire_slot s = Some s' \<Longrightarrow>
   (\<forall>n. sl_slots s' = Some n \<longrightarrow> sl_taken s' \<le> n) \<and> release_slot s' = s"
  by (auto simp: acquire_slot_def release_slot_def split: option.splits if_splits)

text \<open>The service that \<^verbatim>\<open>Serve\<close> builds from its options is the one of \<open>serve_daemon\<close>.\<close>

lemma serve_session_options:
  "sl_service (session_NewService ((if cg_emulatorFactory cfg \<noteq> None then [session_WithEmulatorFactory] else []) @ [session_WithTracer t])) =
   dm_svc (serve_daemon cfg token t f)"
  by (simp add: session_NewService_def session_WithEmulatorFactory_def session_WithTracer_def new_service_def)

section \<open>The Unix spawner (pty.go)\<close>

text \<open>
  \<open>start\<close> is the kernel: it starts a command with a directory and an environment (\<open>None\<close> is the
  caller's) on a terminal of a size, and gives the pid or an error.
\<close>

type_synonym pty_start = "bytes \<Rightarrow> bytes list \<Rightarrow> bytes option \<Rightarrow> bytes list option \<Rightarrow> 16 word \<times> 16 word \<Rightarrow> bytes + int"

definition UnixSpawner_Spawn :: "pty_start \<Rightarrow> SpawnOptions \<Rightarrow> bytes + Process" where
  "UnixSpawner_Spawn start opts =
     (let dir = (if so_Cwd opts \<noteq> [] then Some (so_Cwd opts) else None);
          environ = (if length (so_Env opts) > 0 then Some (so_Env opts) else None);
          cols = (if so_Cols opts \<le> 0 then 80 else so_Cols opts);
          rows = (if so_Rows opts \<le> 0 then 24 else so_Rows opts);
          ws = (word_of_int cols, word_of_int rows)
      in case start (so_Command opts) (so_Args opts) dir environ ws of
           Inl e \<Rightarrow> Inl (''pty start: '' @ e)
         | Inr pid \<Rightarrow> Inr \<lparr>pr_pid = pid, pr_winsize = ws, pr_input = [], pr_open = True, pr_running = True, pr_hup = False, pr_fault = None\<rparr>)"

datatype wait_status = WaitOk | WaitExit int | WaitSignalled | WaitFailed bytes

text \<open>The exit code of a process killed by a signal is -1.\<close>

definition Process_Wait :: "wait_status \<Rightarrow> int \<times> bytes option" where
  "Process_Wait st =
     (case st of
        WaitOk \<Rightarrow> (0, None)
      | WaitExit code \<Rightarrow> (code, None)
      | WaitSignalled \<Rightarrow> (- 1, None)
      | WaitFailed e \<Rightarrow> (- 1, Some (''process wait: '' @ e)))"

definition Process_Read :: "(bytes \<times> bytes option) \<Rightarrow> bytes \<times> bytes option" where
  "Process_Read r = (case r of (d, None) \<Rightarrow> (d, None) | (d, Some e) \<Rightarrow> (d, Some (''pty read: '' @ e)))"

section \<open>The debug log (debug/options.go, debug/service.go)\<close>

record tracerConfig =
  tc_maxSizeMB :: int
  tc_maxFiles :: int

definition newTracerConfig :: "(tracerConfig \<Rightarrow> tracerConfig) list \<Rightarrow> tracerConfig" where
  "newTracerConfig opts = fold (\<lambda>o' c. o' c) opts \<lparr>tc_maxSizeMB = 50, tc_maxFiles = 7\<rparr>"

definition WithMaxSize :: "int \<Rightarrow> tracerConfig \<Rightarrow> tracerConfig" where
  "WithMaxSize mb c = c\<lparr>tc_maxSizeMB := mb\<rparr>"

definition WithMaxFiles :: "int \<Rightarrow> tracerConfig \<Rightarrow> tracerConfig" where
  "WithMaxFiles n c = c\<lparr>tc_maxFiles := n\<rparr>"

text \<open>A new tracer with the settings of its rotating file; the file itself is opened by the first line.\<close>

definition NewTracer ::
  "bytes \<Rightarrow> Level \<Rightarrow> (tracerConfig \<Rightarrow> tracerConfig) list \<Rightarrow> fs \<Rightarrow> (io_error + tracer \<times> bytes \<times> tracerConfig) \<times> fs" where
  "NewTracer logPath level opts f =
     (let cfg = newTracerConfig opts in
      case MkdirAll (path_of (Dir logPath)) f of
        (Inl e, f1) \<Rightarrow> (Inl e, f1)
      | (Inr u, f1) \<Rightarrow> (Inr (Some \<lparr>tr_level = level, tr_seqs = [], tr_lines = []\<rparr>, logPath, cfg), f1))"

text \<open>The tracer of \<^verbatim>\<open>Serve\<close>: none unless the settings ask for one; \<open>Inl\<close> when its directory cannot be made.\<close>

definition serve_tracer :: "EnvConfig \<Rightarrow> 'f config \<Rightarrow> fs \<Rightarrow> (io_error + tracer) \<times> fs" where
  "serve_tracer env cfg f =
     (let dc = resolveDebugConfig env cfg in
      if \<not> ec_Enabled dc then (Inr None, f)
      else case NewTracer (ec_Path dc) (ec_Level dc)
                  ((if ec_MaxSizeMB dc > 0 then [WithMaxSize (ec_MaxSizeMB dc)] else []) @
                   (if ec_MaxFiles dc > 0 then [WithMaxFiles (ec_MaxFiles dc)] else [])) f of
             (Inl e, f1) \<Rightarrow> (Inl e, f1)
           | (Inr (t, p, c), f1) \<Rightarrow> (Inr t, f1))"

section \<open>The size of a new terminal\<close>

text \<open>
  A session created on the Unix spawner records the size that was asked for (80 by 24 for what is not
  positive), while its terminal has the low 16 bits of it: the two agree up to 65535 and not beyond.
\<close>

lemma created_terminal_size:
  assumes "svc_Create x now sid opts s = (Inr sess, s')" and "x_spawn x = UnixSpawner_Spawn start"
  shows "\<exists>ms. find_session s' sid = Some (ss_next s, ms) \<and> ms_session ms = sess \<and> 0 < s_Cols sess \<and> 0 < s_Rows sess \<and>
     uint (fst (pr_winsize (ms_process ms))) = s_Cols sess mod 2 ^ 16 \<and> uint (snd (pr_winsize (ms_process ms))) = s_Rows sess mod 2 ^ 16 \<and>
     (uint (fst (pr_winsize (ms_process ms))) = s_Cols sess \<longleftrightarrow> s_Cols sess < 65536)"
proof -
  let ?cols = "pos_or (co_Cols opts) 80" and ?rows = "pos_or (co_Rows opts) 24"
  let ?so = "\<lparr>so_Command = co_Shell opts, so_Args = co_Args opts, so_Cols = ?cols, so_Rows = ?rows, so_Cwd = co_Cwd opts, so_Env = co_Env opts\<rparr>"
  obtain p where p: "UnixSpawner_Spawn start ?so = Inr p"
    using assms by (auto simp: svc_Create_def Let_def split: if_splits sum.splits)
  have pos: "0 < ?cols" "0 < ?rows" by (simp_all add: pos_or_def)
  then have w: "pr_winsize p = (word_of_int ?cols, word_of_int ?rows)"
    using p by (auto simp: UnixSpawner_Spawn_def Let_def split: sum.splits)
  have u: "uint (word_of_int n :: 16 word) = n mod 2 ^ 16" for n :: int by (simp add: uint_word_of_int)
  have "sess = \<lparr>s_ID = sid, s_Prefix = fst (ExtractPrefix sid), s_State = StateAlive, s_Pid = pr_pid p, s_Cols = ?cols, s_Rows = ?rows,
      s_Shell = co_Shell opts, s_Cwd = co_Cwd opts, s_ExitCode = 0, s_StartedAt = now, s_EndedAt = 0, s_Metadata = None\<rparr>"
    and "\<exists>ms. find_session s' sid = Some (ss_next s, ms) \<and> ms_session ms = sess \<and> ms_process ms = p"
    using assms p by (auto simp: svc_Create_def Let_def find_session_def obj_def split: if_splits)
  then show ?thesis using w u pos by (auto simp: mod_eq_self_iff_div_eq_0 intro: mod_pos_pos_trivial)
qed

end
