(* ===== verification/Peers.thy ===== *)
theory Peers
  imports Transport History
begin

text \<open>
  Who is at the other end of a connection: peer credentials (\<^verbatim>\<open>internal/platform/ipc\<close>: peercred.go,
  peercred_linux.go, peercred_darwin.go) and parent processes (\<^verbatim>\<open>internal/transport\<close>: ppid_linux.go,
  ppid_darwin.go, \<^verbatim>\<open>parentPID\<close> of service.go). The answers of the kernel (socket options, the files
  \<^verbatim>\<open>/proc/N/stat\<close>, the buffer filled by sysctl) are arguments.
\<close>

section \<open>Peer credentials\<close>

datatype ipc_error = ErrNotUnixConn | ErrSyscallConn | ErrControlCall | ErrPeerCred | ErrPeerPID

text \<open>
  What one connection answers: whether it is a Unix socket, whether its descriptor can be reached,
  and the socket options as the kernel reports them.
\<close>

record peer_sock =
  pk_unix :: bool
  pk_syscallConn :: bool
  pk_control :: bool
  pk_cred :: "(int \<times> int) option"
  pk_peerpid :: "int option"

definition wrap32 :: "int \<Rightarrow> int" where
  "wrap32 x = (x + 2 ^ 31) mod 2 ^ 32 - 2 ^ 31"

definition toUnixConn :: "peer_sock \<Rightarrow> ipc_error + peer_sock" where
  "toUnixConn c = (if pk_unix c then Inr c else Inl ErrNotUnixConn)"

definition ExtractPeerCredentials_linux :: "peer_sock \<Rightarrow> ipc_error + PeerCredentials" where
  "ExtractPeerCredentials_linux c =
     (case toUnixConn c of
        Inl e \<Rightarrow> Inl e
      | Inr uc \<Rightarrow>
          if \<not> pk_syscallConn uc then Inl ErrSyscallConn
          else if \<not> pk_control uc then Inl ErrControlCall
          else case pk_cred uc of
                 None \<Rightarrow> Inl ErrPeerCred
               | Some (uid, pid) \<Rightarrow> Inr \<lparr>pc_UID = uid, pc_PID = pid\<rparr>)"

definition ExtractPeerCredentials_darwin :: "peer_sock \<Rightarrow> ipc_error + PeerCredentials" where
  "ExtractPeerCredentials_darwin c =
     (case toUnixConn c of
        Inl e \<Rightarrow> Inl e
      | Inr uc \<Rightarrow>
          if \<not> pk_syscallConn uc then Inl ErrSyscallConn
          else if \<not> pk_control uc then Inl ErrControlCall
          else case pk_cred uc of
                 None \<Rightarrow> Inl ErrPeerCred
               | Some (uid, _) \<Rightarrow>
                   (case pk_peerpid uc of
                      None \<Rightarrow> Inl ErrPeerPID
                    | Some pid \<Rightarrow> Inr \<lparr>pc_UID = uid, pc_PID = wrap32 pid\<rparr>))"

section \<open>Parent processes\<close>

text \<open>
  \<^verbatim>\<open>strings.Fields\<close>: the words between runs of white space. A white space sequence starts with a byte
  that no other UTF-8 sequence contains after its first one, so that looking for it at every byte
  finds the runes that separate words.
\<close>

lemma find_shortens: "find (\<lambda>w. w \<noteq> [] \<and> prefix w s) ws = Some w \<Longrightarrow> length s - length w < length s"
  by (cases s) (auto simp: find_Some_iff)

function fields_from :: "bytes \<Rightarrow> bytes \<Rightarrow> bytes list" where
  "fields_from cur s =
     (case s of
        [] \<Rightarrow> if cur = [] then [] else [cur]
      | c # cs \<Rightarrow>
          (case find (\<lambda>w. w \<noteq> [] \<and> prefix w s) white_space of
             Some w \<Rightarrow> (if cur = [] then [] else [cur]) @ fields_from [] (drop (length w) s)
           | None \<Rightarrow> fields_from (cur @ [c]) cs))"
  by pat_completeness auto
termination
  by (relation "measure (\<lambda>(cur, s). length s)") (auto dest: find_shortens)

declare fields_from.simps [simp del]

definition Fields :: "bytes \<Rightarrow> bytes list" where
  "Fields s = fields_from [] s"

text \<open>\<^verbatim>\<open>strconv.ParseInt(s, 10, 32)\<close>: its value when there is no error.\<close>

definition ParseInt32 :: "bytes \<Rightarrow> int option" where
  "ParseInt32 s =
     (case ParseInt s of
        (n, None) \<Rightarrow> if - (2 ^ 31) \<le> n \<and> n < 2 ^ 31 then Some n else None
      | (_, Some _) \<Rightarrow> None)"

datatype ppid_error =
    ErrReadStat | ErrNoClosingParen | ErrTooFewFields | ErrStatPpid | ErrSysctl | ErrSysctlShort

definition platformParentPID_linux :: "(int \<Rightarrow> bytes option) \<Rightarrow> int \<Rightarrow> ppid_error + int" where
  "platformParentPID_linux proc pid =
     (case proc pid of
        None \<Rightarrow> Inl ErrReadStat
      | Some content \<Rightarrow>
          (case last_index_byte (CHR '')'') content of
             None \<Rightarrow> Inl ErrNoClosingParen
           | Some closeParen \<Rightarrow>
               if closeParen + 2 \<ge> length content then Inl ErrNoClosingParen
               else let fields = Fields (drop (closeParen + 2) content) in
                 if length fields < 2 then Inl ErrTooFewFields
                 else case ParseInt32 (fields ! 1) of
                        None \<Rightarrow> Inl ErrStatPpid
                      | Some ppid \<Rightarrow> Inr ppid))"

definition kinfoStructSize :: nat where "kinfoStructSize = 648"

text \<open>\<^verbatim>\<open>binary.LittleEndian.Uint32\<close>.\<close>

definition Uint32_LE :: "bytes \<Rightarrow> int" where
  "Uint32_LE b = foldr (\<lambda>c n. int (of_char c) + 256 * n) (take 4 b) 0"

text \<open>
  The answer of sysctl: None for an error number, otherwise the size it reports and the buffer of
  \<^verbatim>\<open>kinfoStructSize\<close> bytes it has filled.
\<close>

definition platformParentPID_darwin :: "(int \<Rightarrow> (nat \<times> bytes) option) \<Rightarrow> int \<Rightarrow> ppid_error + int" where
  "platformParentPID_darwin sysctl pid =
     (case sysctl pid of
        None \<Rightarrow> Inl ErrSysctl
      | Some (sz, buf) \<Rightarrow>
          if sz < kinfoStructSize then Inl ErrSysctlShort
          else Inr (wrap32 (Uint32_LE (take 4 (drop 560 buf)))))"

text \<open>What \<^verbatim>\<open>isDescendant\<close> uses of the result: the parent, or that there was an error.\<close>

definition parentPID :: "(int \<Rightarrow> ppid_error + int) \<Rightarrow> int \<Rightarrow> int option" where
  "parentPID platform pid = (case platform pid of Inl _ \<Rightarrow> None | Inr p \<Rightarrow> Some p)"

section \<open>The process table as the kernel prints it\<close>

text \<open>
  A line of \<^verbatim>\<open>/proc/N/stat\<close>: the process id, the command name in parentheses, the state, the parent
  and further numbers. A process chooses its command name freely: it may contain parentheses,
  spaces and line breaks.
\<close>

record proc_entry =
  pr_comm :: bytes
  pr_state :: bytes
  pr_ppid :: int
  pr_rest :: bytes

definition stat_file :: "int \<Rightarrow> proc_entry \<Rightarrow> bytes" where
  "stat_file pid e =
     Itoa pid @ '' ('' @ pr_comm e @ '') '' @ pr_state e @ '' '' @ Itoa (pr_ppid e) @ '' '' @ pr_rest e"

definition proc_ok :: "proc_entry \<Rightarrow> bool" where
  "proc_ok e \<longleftrightarrow> pr_state e \<noteq> [] \<and> list_all graphic (pr_state e) \<and> CHR '')'' \<notin> set (pr_state e) \<and>
     CHR '')'' \<notin> set (pr_rest e) \<and> - (2 ^ 31) \<le> pr_ppid e \<and> pr_ppid e < 2 ^ 31"

definition proc_fs :: "(int \<Rightarrow> proc_entry option) \<Rightarrow> int \<Rightarrow> bytes option" where
  "proc_fs tab pid = map_option (stat_file pid) (tab pid)"

lemma white_space_head: "w \<in> set white_space \<Longrightarrow> w \<noteq> [] \<and> \<not> graphic (hd w)"
  by (auto simp: white_space_def graphic_def)

lemma find_white_graphic: "graphic c \<Longrightarrow> find (\<lambda>w. w \<noteq> [] \<and> prefix w (c # s)) white_space = None"
  using white_space_head by (fastforce simp: find_None_iff prefix_def neq_Nil_conv)

lemma ascii_blanks:
  "map (\<lambda>n. [char_of n]) [9, 10, 11, 12, 13, 32 :: nat] =
   [[CHR 0x09], [CHR 0x0A], [CHR 0x0B], [CHR 0x0C], [CHR 0x0D], '' '']"
  by code_simp

lemma find_white_blank: "find (\<lambda>w. w \<noteq> [] \<and> prefix w (CHR '' '' # s)) white_space = Some '' ''"
  unfolding white_space_def ascii_blanks by simp

lemma fields_from_word:
  "list_all graphic w \<Longrightarrow> cur @ w \<noteq> [] \<Longrightarrow> fields_from cur (w @ '' '' @ s) = (cur @ w) # Fields s"
proof (induction w arbitrary: cur)
  case Nil
  then show ?case by (subst fields_from.simps) (simp add: find_white_blank Fields_def)
next
  case (Cons c w)
  then show ?case by (subst fields_from.simps) (simp add: find_white_graphic)
qed

lemma Fields_word: "list_all graphic w \<Longrightarrow> w \<noteq> [] \<Longrightarrow> Fields (w @ '' '' @ s) = w # Fields s"
  using fields_from_word [of w "[]" s] by (simp add: Fields_def)

lemma Itoa_graphic: "list_all graphic (Itoa i)"
  using digits_graphic by (simp add: Itoa_def graphic_def)

lemma Itoa_no_paren: "CHR '')'' \<notin> set (Itoa i)"
  using nat_digits_digit [of "CHR '')''"] by (auto simp: Itoa_def digit_val_def)

lemma Itoa_nonempty: "Itoa i \<noteq> []"
  by (simp add: Itoa_def)

lemma ParseInt32_Itoa: "- (2 ^ 31) \<le> i \<Longrightarrow> i < 2 ^ 31 \<Longrightarrow> ParseInt32 (Itoa i) = Some i"
  using Atoi_Itoa [of i] by (simp add: ParseInt32_def Atoi_def in_int64_def)

lemma drop_past_two: "drop (length xs + 2) (xs @ a # b # ys) = ys"
  by simp

text \<open>The parent is read back from the kernel's line, whatever the process calls itself.\<close>

lemma parent_read_back:
  assumes "proc_ok e" and "proc pid = Some (stat_file pid e)"
  shows "platformParentPID_linux proc pid = Inr (pr_ppid e)"
proof -
  let ?pre = "Itoa pid @ '' ('' @ pr_comm e" and ?post = "pr_state e @ '' '' @ Itoa (pr_ppid e) @ '' '' @ pr_rest e"
  have line: "stat_file pid e = ?pre @ CHR '')'' # CHR '' '' # ?post" by (simp add: stat_file_def)
  have paren: "last_index_byte (CHR '')'') (stat_file pid e) = Some (length ?pre)"
    using assms(1) Itoa_no_paren unfolding line by (intro last_index_byte_append) (simp add: proc_ok_def)
  have dr: "drop (length ?pre + 2) (stat_file pid e) = ?post"
    unfolding line by (rule drop_past_two)
  have "Fields ?post = pr_state e # Itoa (pr_ppid e) # Fields (pr_rest e)"
    using assms(1) by (simp add: Fields_word [simplified] Itoa_graphic Itoa_nonempty proc_ok_def)
  moreover have "length ?pre + 2 < length (stat_file pid e)" unfolding line by simp
  ultimately show ?thesis using assms paren dr
    by (simp add: platformParentPID_linux_def Let_def ParseInt32_Itoa proc_ok_def)
qed

lemma parentPID_proc:
  assumes "\<And>p e. tab p = Some e \<Longrightarrow> proc_ok e"
  shows "parentPID (platformParentPID_linux (proc_fs tab)) = (\<lambda>p. map_option pr_ppid (tab p))"
proof
  fix p
  show "parentPID (platformParentPID_linux (proc_fs tab)) p = map_option pr_ppid (tab p)"
  proof (cases "tab p")
    case None
    then show ?thesis by (simp add: parentPID_def platformParentPID_linux_def proc_fs_def)
  next
    case (Some e)
    with parent_read_back [OF assms [OF Some], of "proc_fs tab" p] show ?thesis
      by (simp add: parentPID_def proc_fs_def)
  qed
qed

text \<open>On macOS the parent is a little-endian number at a fixed offset of the kernel's structure.\<close>

definition PutUint32_LE :: "nat \<Rightarrow> bytes" where
  "PutUint32_LE n = map (\<lambda>i. char_of (n div 256 ^ i)) [0, 1, 2, 3]"

lemma Uint32_LE_Put:
  assumes "n < 2 ^ 32"
  shows "Uint32_LE (PutUint32_LE n) = int n"
proof -
  have base: "int k = int (k mod 256) + 256 * int (k div 256)" for k :: nat
    using mod_mult_div_eq [of k 256] by linarith
  have d: "n div 256 div 256 = n div 65536" "n div 65536 div 256 = n div 16777216"
    by (simp_all flip: div_mult2_eq)
  have "int (n mod 256) + (256 * int (n div 256 mod 256) + (65536 * int (n div 65536 mod 256) + 16777216 * int (n div 16777216))) = int n"
    using base [of n] base [of "n div 256", unfolded d] base [of "n div 65536", unfolded d] by linarith
  with assms show ?thesis by (simp add: Uint32_LE_def PutUint32_LE_def)
qed

lemma wrap32_word: "- (2 ^ 31) \<le> i \<Longrightarrow> i < 2 ^ 31 \<Longrightarrow> wrap32 (i mod 2 ^ 32) = i"
  by (simp add: wrap32_def mod_simps)

lemma darwin_parent_read_back:
  assumes "- (2 ^ 31) \<le> ppid" "ppid < 2 ^ 31" and "length pre = 560" "length post = 84"
    and "sysctl pid = Some (kinfoStructSize, pre @ PutUint32_LE (nat (ppid mod 2 ^ 32)) @ post)"
  shows "platformParentPID_darwin sysctl pid = Inr ppid"
proof -
  have len: "length (PutUint32_LE n) = 4" for n by (simp add: PutUint32_LE_def)
  have "nat (ppid mod 2 ^ 32) < 2 ^ 32" by (simp add: nat_less_iff)
  from Uint32_LE_Put [OF this] have "Uint32_LE (PutUint32_LE (nat (ppid mod 2 ^ 32))) = ppid mod 2 ^ 32" by simp
  then show ?thesis using assms len wrap32_word [OF assms(1,2)] by (simp add: platformParentPID_darwin_def)
qed

text \<open>(C12) On Linux the mode \<^verbatim>\<open>children\<close> admits exactly the peers that have the daemon among their
first 64 ancestors in the kernel's process table. The parents are read from the files
\<^verbatim>\<open>/proc/N/stat\<close>, and no choice of command names (parentheses, blanks, a forged rest of the line) changes
the answer.\<close>

theorem children_mode_exact:
  assumes "\<And>p e. tab p = Some e \<Longrightarrow> proc_ok e"
    and "sv_mode s = ModeChildren"
    and "he_ppid env = parentPID (platformParentPID_linux (proc_fs tab))"
    and "ExtractPeerCredentials_linux sock = Inr creds"
  shows "checkAutomationMode env creds s = Inr () \<longleftrightarrow>
     (\<exists>k \<ge> 1. k \<le> 64 \<and> ancestor_at (\<lambda>p. map_option pr_ppid (tab p)) k (snd (the (pk_cred sock))) = Some (he_pid env))"
proof -
  have "pc_PID creds = snd (the (pk_cred sock))"
    using assms(4) by (auto simp: ExtractPeerCredentials_linux_def toUnixConn_def split: if_splits option.splits)
  moreover have "isDescendant (he_ppid env) p a \<longleftrightarrow>
     (\<exists>k \<ge> 1. k \<le> 64 \<and> ancestor_at (\<lambda>p. map_option pr_ppid (tab p)) k p = Some a)" for p a
    by (simp add: isDescendant_def descend_iff assms(3) parentPID_proc [OF assms(1)])
  ultimately show ?thesis using assms(2) unfolding checkAutomationMode_def by auto
qed

definition forging_tab :: "int \<Rightarrow> proc_entry option" where
  "forging_tab p =
     (if p = 9 then Some \<lparr>pr_comm = ''x) S 5 ('', pr_state = ''S'', pr_ppid = 7, pr_rest = ''7 7 0''\<rparr>
      else if p = 7 then Some \<lparr>pr_comm = ''sh'', pr_state = ''S'', pr_ppid = 1, pr_rest = ''1 1 0''\<rparr>
      else None)"

definition forging_env :: "int \<Rightarrow> hs_env" where
  "forging_env self =
     \<lparr>he_deadline = True, he_creds = Some \<lparr>pc_UID = 1000, pc_PID = 9\<rparr>, he_clear = True, he_uid = 1000, he_pid = self,
      he_ppid = parentPID (platformParentPID_linux (proc_fs forging_tab)), he_rand = [], he_now = 0\<rparr>"

lemma forging_tab_ok: "forging_tab p = Some e \<Longrightarrow> proc_ok e"
  by (auto simp: forging_tab_def proc_ok_def graphic_def split: if_splits)

theorem children_mode_exact_witness:
  "let s = NewServer [] [WithAutomationMode ModeChildren]; cr = \<lparr>pc_UID = 1000, pc_PID = 9\<rparr> in
     checkAutomationMode (forging_env 7) cr s = Inr () \<and> checkAutomationMode (forging_env 5) cr s \<noteq> Inr ()"
proof -
  let ?s = "NewServer [] [WithAutomationMode ModeChildren]" and ?cr = "\<lparr>pc_UID = 1000, pc_PID = 9\<rparr>"
  let ?sock = "\<lparr>pk_unix = True, pk_syscallConn = True, pk_control = True, pk_cred = Some (1000, 9), pk_peerpid = None\<rparr>"
  have eq: "checkAutomationMode (forging_env self) ?cr ?s = Inr () \<longleftrightarrow>
     (\<exists>k \<ge> 1. k \<le> 64 \<and> ancestor_at (\<lambda>p. map_option pr_ppid (forging_tab p)) k 9 = Some self)" for self
    using children_mode_exact [of forging_tab ?s "forging_env self" ?sock ?cr, OF forging_tab_ok]
    by (simp add: forging_env_def NewServer_def WithAutomationMode_def ExtractPeerCredentials_linux_def toUnixConn_def)
  have up: "ancestor_at (\<lambda>p. map_option pr_ppid (forging_tab p)) k 9 =
     (if k = 0 then Some 9 else if k = 1 then Some 7 else if k = 2 then Some 1 else None)" for k
    by (cases k; cases "k - 1"; cases "k - 2"; simp add: forging_tab_def numeral_2_eq_2)
  show ?thesis unfolding Let_def eq up by (auto intro: exI [of _ 1])
qed

end
