(* ===== verification/Screens.thy ===== *)
theory Screens
  imports Tmux CharmVt
begin

text \<open>
  The emulator backend under a whole daemon: what a client that attaches, and the shim's \<^verbatim>\<open>capture-pane\<close>,
  gets of the screen of a session.
\<close>

text \<open>A daemon whose sessions run on the backend.\<close>

definition on_backend :: "(('t, 'o) vtemulator) denv \<Rightarrow> ('t, 'y) vt \<Rightarrow> bool" where
  "on_backend env V \<longleftrightarrow> (x_snapshot (de_ext env) = em_Snapshot V)"

lemma factory_adapter_backend: "on_backend (env\<lparr>de_ext := factory_adapter V cfg X\<rparr>) V"
  by (simp add: on_backend_def factory_adapter_def)

lemma Snapshot_starts_clear: "prefix clear_all (em_Snapshot V e)"
  by (simp add: em_Snapshot_def Let_def)

lemma Snapshot_nonempty [simp]: "em_Snapshot V e \<noteq> []"
  using Snapshot_starts_clear [of V e] by (auto simp: clear_all_def)

lemma Attach_keeps_emulator:
  assumes "find_session s sid = Some (a, ms)"
  shows "\<exists>s' ms'. sm_Attach sid s = (Inr (), s') \<and> find_session s' sid = Some (a, ms') \<and> ms_emulator ms' = ms_emulator ms"
proof -
  have "gm_get (ss_sessions s) sid = Some a" using assms by (auto simp: find_session_def split: option.splits)
  with assms show ?thesis
    by (auto simp: sm_Attach_def svc_Attach_def wrap_err_def set_session_def find_session_set_obj update_session_def)
qed

text \<open>The answer to an attach request for a session on the backend.\<close>

lemma attach_answer:
  assumes "on_backend env V" and "wj_sid (de_wire env) p = Some sid" and "find_session (dm_svc d) sid = Some (a, ms)"
    and "ms_emulator ms = FactoryEmulator e"
  shows "\<exists>r. ap_Snapshot r = Some (em_Snapshot V e) \<and>
     dm_server (dispatch env cid (request_frame MsgAttach p) d) = control_write cid (okFrame env (Some (RAttach r))) (dm_server d)"
proof -
  obtain s' ms' where s': "sm_Attach sid (dm_svc d) = (Inr (), s')" "find_session s' sid = Some (a, ms')" "ms_emulator ms' = FactoryEmulator e"
    using Attach_keeps_emulator [OF assms(3)] assms(4) by auto
  obtain info where info: "sm_Get (dm_svc d) sid = Inr info" using assms(3) by (simp add: sm_Get_def svc_Get_def wrap_err_def)
  have snap: "sm_Snapshot env s1 sid = Inr (em_Snapshot V e)" if "find_session s1 = find_session s'" for s1
    using assms(1) s'(2,3) that by (simp add: sm_Snapshot_def svc_Snapshot_def wrap_err_def emu_snapshot_def on_backend_def)
  have h: "dispatch env cid (request_frame MsgAttach p) d = handleAttach env cid p d"
    by (simp add: dispatch_def request_frame_def Let_def msg_defs)
  have keep: "ap_Snapshot (attach_commands sid d' r) = ap_Snapshot r" for d' r
    by (simp add: attach_commands_def split: option.split sum.split)
  have sv: "dm_server (add_attachment sid cid d') = dm_server d'" "dm_svc (add_attachment sid cid d') = dm_svc d'" for d'
    by (simp_all add: add_attachment_def Let_def)
  show ?thesis
    unfolding h handleAttach_def
    by (simp add: assms(2) info s'(1) Let_def ok_reply_def reply_def sv snap trace_def) (rule exI, rule conjI [rotated], rule refl, simp add: keep)
qed

section \<open>Properties\<close>

text \<open>(C30) \<^verbatim>\<open>capture-pane -p\<close> prints a replay, not the text of the pane: for a session on the backend it prints the
snapshot of the session's emulator byte for byte, scrollback, styles and cursor movements
included, which begins with the sequences that clear the screen and the scrollback of the terminal
it is printed on, and exits 0.\<close>

theorem capture_pane_prints_replay:
  fixes env :: "(('t, 'o) vtemulator) tmux_env"
  assumes "serves env m d" and "on_backend (tx_denv env) V" and "capture_flags args ([], False) = (target, True)" "target \<noteq> []"
    and "wj_sid (de_wire (tx_denv env)) (kw_sid (tx_json env) target) = Some target" "length (kw_sid (tx_json env) target) \<le> MaxPayloadSize"
    and "find_session (dm_svc d) target = Some (a, ms)" "ms_emulator ms = FactoryEmulator e"
    and "\<And>r. ap_Snapshot r = Some (em_Snapshot V e) \<Longrightarrow>
       map_option ap_Snapshot (kw_attached (tx_json env) (wj_resp (de_wire (tx_denv env)) (RAttach r))) = Some (ap_Snapshot r) \<and>
       length (wj_resp (de_wire (tx_denv env)) (RAttach r)) \<le> MaxPayloadSize"
  shows "case tmux_main env (''capture-pane'' # args) m of r \<Rightarrow>
     tr_code r = 0 \<and> tr_out r = em_Snapshot V e \<and> prefix clear_all (tr_out r)"
proof -
  let ?p = "kw_sid (tx_json env) target" and ?env = "tx_denv env" and ?W = "tx_json env"
  obtain cid d1 c where n: "newClient env m = (Inr cid, m\<lparr>mc_daemon := Some d1\<rparr>)" "control_conn cid (dm_server d1) = Some c"
      "conn_healthy c" "dm_svc d1 = dm_svc d"
    using newClient_served [OF assms(1)] by blast
  obtain r where r: "ap_Snapshot r = Some (em_Snapshot V e)"
      "dm_server (dispatch ?env cid (request_frame MsgAttach ?p) d1) = control_write cid (okFrame ?env (Some (RAttach r))) (dm_server d1)"
    using attach_answer [OF assms(2,5), of d1 a ms e] assms(7,8) n(4) by auto
  obtain r' where w: "kw_attached ?W (wj_resp (de_wire ?env) (RAttach r)) = Some r'" "ap_Snapshot r' = ap_Snapshot r"
      "length (wj_resp (de_wire ?env) (RAttach r)) \<le> MaxPayloadSize"
    using assms(9) [OF r(1)] by auto
  have "daemon_rpc ?env cid MsgAttach ?p d1 = (Inr (okFrame ?env (Some (RAttach r))), dispatch ?env cid (request_frame MsgAttach ?p) d1)"
    by (rule daemon_rpc_answered [OF n(2,3) assms(6) r(2)]) (use w in \<open>simp add: sendable_def okFrame_def\<close>)
  then have "fst (Client_Attach ?W (machine_call ?env cid) target (m\<lparr>mc_daemon := Some d1\<rparr>)) =
      Inr \<lparr>ar_Session = ap_Info r', ar_Replay = ap_Snapshot r, ar_CommandHistory = ap_CommandHistory r', ar_InFlightCommand = ap_InFlightCommand r'\<rparr>"
    using w by (simp add: Client_Attach_def value_call_def machine_call_def okFrame_def msg_defs)
  then show ?thesis
    using assms(3,4) n(1) r(1) Snapshot_starts_clear [of V e]
    by (cases "Client_Attach ?W (machine_call ?env cid) target (m\<lparr>mc_daemon := Some d1\<rparr>)")
       (simp add: tmux_main_def cmdCapturePane_def tx_ok_def)
qed

type_synonym line_emulator = "(nat \<times> bytes list, unit) vtemulator"

definition vt_wire :: wire where
  "vt_wire = sample_wire\<lparr>wj_resp := \<lambda>r. case r of RAttach a \<Rightarrow> (case ap_Snapshot a of None \<Rightarrow> [] | Some d \<Rightarrow> d) | _ \<Rightarrow> []\<rparr>"

definition vt_denv :: "line_emulator denv" where
  "vt_denv =
     \<lparr>de_ext = factory_adapter line_vt defaultConfig sample_ext, de_wire = vt_wire, de_meta = de_meta sample_denv, de_rec = de_rec sample_denv,
      de_cmd = de_cmd sample_denv, de_pidj = de_pidj sample_denv, de_getpid = 1, de_url = Some, de_stat = (\<lambda>p. False), de_stamp = (\<lambda>t. []),
      de_oserr = (\<lambda>p. []), de_now = int, de_pick = 0\<rparr>"

definition vt_cwire :: cwire where
  "vt_cwire = sample_cwire\<lparr>kw_attached := \<lambda>p. Some \<lparr>ap_Info = \<lparr>si_ID = ''a'', si_State = [], si_Pid = 0, si_Cols = 0, si_Rows = 0, si_Shell = []\<rparr>, ap_Snapshot = Some p, ap_CommandHistory = [], ap_InFlightCommand = None\<rparr>\<rparr>"

definition vt_svc :: "line_emulator service" where
  "vt_svc = snd (svc_Create (de_ext vt_denv) 1 ''a'' sample_opts (new_service 3 True None))"

definition vt_daemon :: "line_emulator daemon" where
  "vt_daemon =
     (NewDaemon (NewServer (replicate 32 (CHR ''t'')) []) vt_svc (newCmdRepository False) empty_fs [WithEventBus (Some NewBus)])"

definition vt_machine :: "line_emulator machine" where
  "vt_machine = \<lparr>mc_fs = mc_fs tmux_machine, mc_sockets = mc_sockets tmux_machine, mc_daemon = Some vt_daemon\<rparr>"

lemma vt_daemon_simps [simp]:
  "dm_svc vt_daemon = vt_svc" "dm_server vt_daemon = NewServer (replicate 32 (CHR ''t'')) []" "dm_eventBus vt_daemon = Some NewBus"
  by (simp_all add: vt_daemon_def NewDaemon_def WithEventBus_def)

lemma vt_machine_serves: "serves (tmux_env_of env W prog) vt_machine vt_daemon"
  using tmux_machine_serves [of meta_denv W exit_program]
  by (simp add: serves_def hs_passes_def vt_machine_def tmux_daemon_def)

definition new_screen :: line_emulator where
  "new_screen = newEmulator line_vt ''a'' 80 24 defaultConfig"

lemma vt_find: "\<exists>ms. find_session vt_svc ''a'' = Some (0, ms) \<and> ms_emulator ms = FactoryEmulator new_screen"
  by (simp add: vt_svc_def svc_Create_def valid_a new_service_def vt_denv_def factory_adapter_def sample_ext_def sample_opts_def pos_or_def
      Let_def find_session_def obj_def gm_get_Cons new_screen_def)

theorem capture_pane_prints_replay_witness:
  "tr_out (tmux_main (tmux_env_of vt_denv vt_cwire exit_program) [''capture-pane'', ''-t'', ''a'', ''-p''] vt_machine) =
     em_Snapshot line_vt new_screen"
proof -
  obtain ms where ms: "find_session (dm_svc vt_daemon) ''a'' = Some (0, ms)" "ms_emulator ms = FactoryEmulator new_screen"
    using vt_find by auto
  have l: "length (em_Snapshot line_vt new_screen) \<le> MaxPayloadSize"
  proof -
    have "em_Snapshot line_vt new_screen = clear_all @ csi2 1 1 (''H'' @ [CHR 0x1B] @ ''7'') @ csi2 1 1 ''H''" by code_simp
    moreover have "length (clear_all @ csi2 1 1 (''H'' @ [CHR 0x1B] @ ''7'') @ csi2 1 1 ''H'') = 25" by code_simp
    ultimately show ?thesis by (simp only:) (simp add: MaxPayloadSize_def)
  qed
  show ?thesis
    using capture_pane_prints_replay [OF vt_machine_serves, of vt_denv vt_cwire exit_program line_vt "[''-t'', ''a'', ''-p'']" "''a''" 0 ms new_screen] ms l
    by (simp add: on_backend_def vt_denv_def factory_adapter_def vt_wire_def sample_wire_def vt_cwire_def sample_cwire_def MaxPayloadSize_def)
qed

end
