(* ===== verification/Spec2Isabelle.thy ===== *)
theory Spec2Isabelle
  imports Protocol SessionId Debug OutputBuffer Batcher CmdLifecycle Session
    Auth EventBus Osc Ansi History Commands Transport
    DaemonState DaemonOutput DaemonScan DaemonFiles DaemonControl DaemonReplies
    Paths ClientConfig Config ClientRpc ClientApi DaemonServe DaemonSafety DaemonBehaviour
    Cli AutoStart Tmux CharmVt Lifecycle Wiring Peers Screens
begin

text \<open>
  \<^bold>\<open>wmux\<close>, a terminal multiplexer written in Go: a daemon keeps shells running in pseudo terminals, and
  clients attach to them over a Unix socket. This library models the Go sources under \<^verbatim>\<open>src/\<close> as HOL
  functions and step relations and proves what makes them correct, and, where the code does not do
  what it means to, exactly what it does instead.

  \<^bold>\<open>The program and how its parts interact.\<close> The command line tool (\<^verbatim>\<open>cmd/wmux\<close>), the tmux shim
  (\<^verbatim>\<open>cmd/wmux-tmux\<close>) and Go programs (\<^verbatim>\<open>pkg/client\<close>) open two connections to the daemon: one for requests
  and events, one for terminal output. Both carry frames (\<^verbatim>\<open>internal/platform/protocol\<close>) and start with a
  handshake that checks a token (\<^verbatim>\<open>internal/transport\<close>, \<^verbatim>\<open>internal/platform/auth\<close>, \<^verbatim>\<open>internal/platform/ipc\<close>).
  The daemon (\<^verbatim>\<open>internal/daemon\<close>) dispatches a request to a handler, which calls the session service
  (\<^verbatim>\<open>internal/session\<close>). A session reads its pseudo terminal into a batcher and from there into a bounded
  output buffer and a terminal emulator (\<^verbatim>\<open>addons/charmvt\<close>); the daemon drains the buffer, scans it for
  escape sequences, feeds histories, recordings and waiters, and sends it to the attached clients.
  Escape sequences of the shell drive the command tracker (\<^verbatim>\<open>internal/cmdlifecycle\<close>); changes are published
  on an event bus (\<^verbatim>\<open>internal/platform/event\<close>). Tokens, histories, recordings, command files, the PID file
  and the configuration are files.

  \<^bold>\<open>Conventions.\<close> Bytes and strings are lists of \<open>char\<close>, Go maps are association lists with distinct keys,
  errors are the left side of a sum, lengths of frames are 32-bit words, and arithmetic on \<^verbatim>\<open>int64\<close> wraps
  where it can overflow (\<open>Prelude\<close>). A struct is a record with a prefix per type, a method takes the
  record and returns the new one. A part that is guarded by a mutex is one atomic step; goroutines are
  rules of an inductive step relation, so that a theorem about reachable states holds for every
  interleaving. A panic (closing a closed channel, a nil map) is a value of the model, and its absence a
  theorem.

  \<^bold>\<open>The theories.\<close>
  \<^item> \<open>Prelude\<close>: Go types and library routines, lemmas on maps, byte search, decimals and slices, and the
    interfaces \<open>keyed_store\<close>, \<open>bounded_log\<close> and \<open>partial_codec\<close>. \<open>Files\<close> and \<open>Paths\<close>: what the sources use of
    \<^verbatim>\<open>os\<close> and \<^verbatim>\<open>path/filepath\<close>, with refused access and full disks.
  \<^item> \<open>Protocol\<close> (\<^verbatim>\<open>internal/platform/protocol\<close>): frames and connections. A stream of frames is read back
    as written; short, oversized and foreign frames give their errors.
  \<^item> \<open>SessionId\<close> (\<^verbatim>\<open>session/values.go\<close>, \<^verbatim>\<open>daemon/values.go\<close>): validation over UTF-8 runes, and payloads
    that carry an id, with the exact bound up to which they decode.
  \<^item> \<open>Debug\<close> (\<^verbatim>\<open>internal/platform/debug\<close>): levels, events and the environment of the tracer.
  \<^item> \<open>OutputBuffer\<close> (\<^verbatim>\<open>session/backpressure.go\<close>): the buffer on a heap of backing arrays. It refines an
    abstract byte queue, keeps its watermarks, and never writes into a slice it has handed out.
    \<open>Batcher\<close> (\<^verbatim>\<open>session/batcher.go\<close>): nothing is lost or reordered under any interleaving.
  \<^item> \<open>Session\<close> (\<^verbatim>\<open>internal/session\<close>): the service record, its calls, the read, emulator and wait
    goroutines, the reaper and the watchdog. The registry invariant, the outcome of every branch of
    creation, isolation of kills, and output in order from the pseudo terminal to the reader.
  \<^item> \<open>CmdLifecycle\<close> (\<^verbatim>\<open>internal/cmdlifecycle\<close>): the OSC 133 state machine against a specification over
    the whole sequence of markers, snapshot and restore.
  \<^item> \<open>Osc\<close>, \<open>Ansi\<close> (\<^verbatim>\<open>daemon/osc.go\<close>, \<^verbatim>\<open>daemon/da.go\<close>, \<^verbatim>\<open>internal/platform/ansi\<close>): scanners of escape
    sequences, stripping, HTML export that stays well formed for any input.
  \<^item> \<open>Auth\<close>, \<open>Transport\<close>, \<open>Peers\<close> (\<^verbatim>\<open>internal/platform/auth\<close>, \<^verbatim>\<open>internal/transport\<close>,
    \<^verbatim>\<open>internal/platform/ipc\<close>): tokens, handshake, automation modes, the client registry, broadcast and
    heartbeats; peer credentials and parent processes of both platforms. Nobody gets in without the
    token, and the mode for child processes cannot be tricked by process names.
  \<^item> \<open>EventBus\<close> (\<^verbatim>\<open>internal/platform/event\<close>): subscriptions as bounded channels, with their panics.
  \<^item> \<open>History\<close>, \<open>Commands\<close> (\<^verbatim>\<open>internal/platform/history\<close>, \<^verbatim>\<open>recording\<close>, \<^verbatim>\<open>commands\<close>,
    \<^verbatim>\<open>daemon/reconcile.go\<close>, \<^verbatim>\<open>daemon/cmdrepository.go\<close>): capped files, eviction, sizes, recordings, and the
    debounced writer whose file is never torn and survives a restart.
  \<^item> \<open>DaemonState\<close>, \<open>DaemonOutput\<close>, \<open>DaemonScan\<close>, \<open>DaemonFiles\<close>, \<open>DaemonControl\<close>, \<open>DaemonReplies\<close>
    (\<^verbatim>\<open>internal/daemon\<close>, \<^verbatim>\<open>pkg/client/adapter.go\<close>): the daemon record and its entities; draining, scanning
    and broadcasting; row numbers and waiters; the PID file and forwarded environments; one
    definition per handler with dispatch, control loop and shutdown; one answer per request, and
    complete history dumps.
  \<^item> \<open>DaemonServe\<close>, \<open>Wiring\<close>, \<open>Lifecycle\<close> (\<^verbatim>\<open>ipc/listener.go\<close>, \<^verbatim>\<open>pkg/client/daemon.go\<close>,
    \<^verbatim>\<open>session/options.go\<close>, \<^verbatim>\<open>internal/platform/pty\<close>, the loops of reaper.go, watchdog.go and heartbeat.go,
    the accept loop, signals): how a daemon is put together, and the loops beside the requests.
  \<^item> \<open>DaemonSafety\<close>, \<open>DaemonBehaviour\<close>: the step relation \<open>daemon_step\<close> over all goroutines of a served
    daemon, the invariant of all its reachable states, and what requests do to the whole daemon.
  \<^item> \<open>Config\<close>, \<open>ClientConfig\<close> (\<^verbatim>\<open>internal/platform/config\<close>, \<^verbatim>\<open>pkg/client\<close>: options.go, namespace.go):
    configuration, namespaces, the argument vector of an embedded daemon and its parser.
  \<^item> \<open>ClientRpc\<close>, \<open>ClientApi\<close>, \<open>AutoStart\<close> (\<^verbatim>\<open>pkg/client\<close>, \<^verbatim>\<open>daemon/autodaemon.go\<close>): the control channel as
    steps of concurrent callers, every call of the API, cold restore, and starting a daemon on
    demand. Calls refine the session service behind the daemon; a started daemon is reached within
    the polling time.
  \<^item> \<open>Cli\<close>, \<open>Tmux\<close> (\<^verbatim>\<open>cmd/wmux\<close>, \<^verbatim>\<open>cmd/wmux-tmux\<close>): flags and every command of both tools.
  \<^item> \<open>CharmVt\<close>, \<open>Screens\<close> (\<^verbatim>\<open>addons/charmvt\<close>): the emulator backend, its replay snapshot against what it
    paints, and the backend under a whole daemon.

  \<^bold>\<open>Interfaces.\<close> Every locale is interpreted on the model's own definitions, and the properties use the
  facts of the interpretations: \<open>keyed_store\<close> (\<open>gm\<close>, Go maps), \<open>bounded_log\<close> (\<open>cmd_log\<close>, the command history),
  \<open>partial_codec\<close> (\<open>data_payload\<close>, \<open>input_payload\<close>), \<open>byte_sink\<close> (\<open>conn\<close>), \<open>byte_queue\<close> (\<open>abuf_q\<close> for the
  abstract queue, \<open>buffer_q\<close> for the buffer), \<open>file_store\<close> (\<open>disk\<close>), \<open>capped_sink\<close> (\<open>scrollback\<close>, \<open>recording\<close>),
  \<open>session_local\<close> (operations that touch one session: \<open>killing\<close>, \<open>reading\<close>, \<open>typing\<close>, \<open>tagging\<close>, \<open>flushing\<close>,
  \<open>waited\<close>), \<open>readiness\<close> (\<open>ahead\<close>, the probes of the start loop) and \<open>periodic_loop\<close> (\<open>rp\<close>, \<open>wd\<close>, \<open>hb\<close>: reaper,
  watchdog, heartbeats).

  \<^bold>\<open>Bounds and termination.\<close> No definition runs on fuel: loops are structural, or functions with a
  measure (the bytes left, the time to a deadline). The bounds in the definitions are those of the
  code: 4 MiB per frame, one pending response and four history frames in the client's channels, 256
  pending wake-ups, history chunks of 1 MiB, 64 ancestors, polls of 50 ms. Loops that the code runs
  forever are step relations.

  \<^bold>\<open>Parameters.\<close> Code outside \<^verbatim>\<open>src/\<close> is an argument: the pseudo terminal and emulator of the session
  service (record \<open>ext\<close>; \<open>Wiring\<close> and \<open>CharmVt\<close> provide its spawner and its emulator), the terminal library
  (\<open>vt\<close>), JSON texts (\<open>wire\<close>, \<open>cwire\<close>, \<open>meta_json\<close>, \<open>rec_json\<close>, \<open>cmd_json\<close>, \<open>pid_json\<close>), TOML and the digest
  of the configuration watcher (\<open>conf_lib\<close>), URL parsing, the random source, clocks, and what the kernel
  answers (\<open>hs_env\<close>, \<open>os\<close>, \<open>peer_sock\<close>). A theorem that needs a law of such a parameter, such as decoding
  what was encoded, has it as a hypothesis and a witness with a concrete function.

  \<^bold>\<open>Not modelled.\<close> The logger and the build information (text on standard error, strings set by the
  linker) and the dependency injection modules (\<^verbatim>\<open>module.go\<close>) have no logic of their own. The rotation
  of log files is done by a library; the model keeps the lines. The goroutine that drains the replies
  of the terminal library only keeps its writes from blocking, which is part of that library's
  parameter. Usage texts and the wording of messages of the command line tools are left out, as are
  tests, shell scripts and documentation. Timing is modelled where it decides an outcome (deadlines,
  polls, idle times, debouncing), not as durations of steps.
\<close>

end
